(* ===== verification/Fleet_Prelude.thy ===== *)
theory Fleet_Prelude
  imports Main "HOL-Library.AList" "HOL-Library.Multiset" "HOL-Library.List_Lexorder" "HOL-Library.Char_ord"
begin

text \<open>
  Shared vocabulary of the development.

  \<^item> Go maps are association lists with distinct keys (\<open>gmap_ok\<close>), read by \<open>map_of\<close>, written
    by \<open>gput\<close> and \<open>gdel\<close>.
  \<^item> A Go \<open>for range\<close> over a map visits every key once in an order the language leaves open. A
    definition that contains such a loop takes a \<open>range_order\<close>: a family of permutations indexed
    by the path of the loop, so that two loops (or two runs of the same loop) may use different
    orders. \<open>valid_order\<close> says that each member is a permutation.
  \<^item> \<open>sort.Sort\<close> promises a sorted permutation and no stability. A definition that calls it on a
    list with ties takes the sorting function as an argument; the locale \<open>go_sort\<close> states the
    contract. \<open>insertionSort\<close>, the routine the Go library runs on short slices, meets it.
\<close>

named_theorems gmap_simps \<open>lookups in and domains of Go maps\<close>
named_theorems order_simps \<open>what is left of a list after a range order permuted it\<close>

section \<open>Go maps\<close>

type_synonym ('k, 'v) gmap = "('k \<times> 'v) list"

definition gput :: "'k \<Rightarrow> 'v \<Rightarrow> ('k, 'v) gmap \<Rightarrow> ('k, 'v) gmap" where
  "gput k v m = AList.update k v m"

definition gdel :: "'k \<Rightarrow> ('k, 'v) gmap \<Rightarrow> ('k, 'v) gmap" where
  "gdel k m = AList.delete k m"

definition gmem :: "'k \<Rightarrow> ('k, 'v) gmap \<Rightarrow> bool" where
  "gmem k m = (map_of m k \<noteq> None)"

definition gkeys :: "('k, 'v) gmap \<Rightarrow> 'k list" where
  "gkeys m = map fst m"

definition gmap_ok :: "('k, 'v) gmap \<Rightarrow> bool" where
  "gmap_ok m = distinct (map fst m)"

lemma map_of_gput [simp, gmap_simps]: "map_of (gput k v m) = (map_of m)(k \<mapsto> v)"
  by (simp add: gput_def update_conv')

lemma map_of_gdel [simp, gmap_simps]: "map_of (gdel k m) = (map_of m)(k := None)"
  by (simp add: gdel_def delete_conv')

lemma gmap_ok_Nil [simp]: "gmap_ok []"
  by (simp add: gmap_ok_def)

lemma gmap_ok_gput [simp, intro]: "gmap_ok m \<Longrightarrow> gmap_ok (gput k v m)"
  by (simp add: gmap_ok_def gput_def distinct_update)

lemma gmap_ok_gdel [simp, intro]: "gmap_ok m \<Longrightarrow> gmap_ok (gdel k m)"
  by (simp add: gmap_ok_def gdel_def distinct_delete)

lemma set_gkeys [simp, gmap_simps]: "set (gkeys m) = dom (map_of m)"
  by (simp add: gkeys_def dom_map_of_conv_image_fst)

lemma distinct_gkeys [simp]: "gmap_ok m \<Longrightarrow> distinct (gkeys m)"
  by (simp add: gkeys_def gmap_ok_def)

lemma gmem_iff [gmap_simps]: "gmem k m \<longleftrightarrow> k \<in> dom (map_of m)"
  by (auto simp: gmem_def)

lemma length_gkeys [simp]: "length (gkeys m) = length m"
  by (simp add: gkeys_def)

lemma gmap_length_card: "gmap_ok m \<Longrightarrow> length m = card (dom (map_of m))"
  by (metis distinct_card distinct_gkeys length_gkeys set_gkeys)

lemma gmap_Nil_iff: "m = [] \<longleftrightarrow> dom (map_of m) = {}"
  by (cases m) (auto simp: dom_def)

lemma gput_same: "map_of m k = Some v \<Longrightarrow> gput k v m = m"
  by (induction m) (auto simp: gput_def)

lemma ran_gput_fresh: "map_of m k = None \<Longrightarrow> ran (map_of (gput k v m)) = insert v (ran (map_of m))"
  by (force simp: ran_def)

lemma gmap_mem_iff: "gmap_ok m \<Longrightarrow> (k, v) \<in> set m \<longleftrightarrow> map_of m k = Some v"
  by (simp add: gmap_ok_def)

lemma gmap_ok_tail [dest]: "gmap_ok (p # m) \<Longrightarrow> gmap_ok m"
  by (simp add: gmap_ok_def)

subsection \<open>Maps built by a loop of insertions\<close>

text \<open>The loop \<open>for _, x := range xs { m[k(x)] = v(x) }\<close> started on the map \<open>m\<close>.\<close>

definition gput_all :: "('a \<Rightarrow> 'k) \<Rightarrow> ('a \<Rightarrow> 'v) \<Rightarrow> 'a list \<Rightarrow> ('k, 'v) gmap \<Rightarrow> ('k, 'v) gmap" where
  "gput_all key val xs m = fold (\<lambda>x. gput (key x) (val x)) xs m"

lemma gput_all_Nil [simp]: "gput_all key val [] m = m"
  by (simp add: gput_all_def)

lemma gput_all_Cons [simp]:
  "gput_all key val (x # xs) m = gput_all key val xs (gput (key x) (val x) m)"
  by (simp add: gput_all_def)

lemma gmap_ok_gput_all [simp, intro]: "gmap_ok m \<Longrightarrow> gmap_ok (gput_all key val xs m)"
  by (induction xs arbitrary: m) auto

lemma dom_gput_all: "dom (map_of (gput_all key val xs m)) = key ` set xs \<union> dom (map_of m)"
  by (induction xs arbitrary: m) auto

lemma map_of_gput_all_notin:
  "k \<notin> key ` set xs \<Longrightarrow> map_of (gput_all key val xs m) k = map_of m k"
  by (induction xs arbitrary: m) auto

lemma map_of_gput_all_SomeD:
  "map_of (gput_all key val xs m) k = Some v \<Longrightarrow>
     (\<exists>x\<in>set xs. key x = k \<and> val x = v) \<or> map_of m k = Some v"
  by (induction xs arbitrary: m) (fastforce split: if_splits)+

lemma map_of_gput_all_distinct:
  "distinct (map key xs) \<Longrightarrow> x \<in> set xs \<Longrightarrow> map_of (gput_all key val xs m) (key x) = Some (val x)"
proof (induction xs arbitrary: m)
  case Nil
  then show ?case by simp
next
  case (Cons y ys)
  show ?case
  proof (cases "x = y")
    case True
    with Cons.prems have "key x \<notin> key ` set ys" by simp
    with True show ?thesis by (simp add: map_of_gput_all_notin)
  next
    case False
    with Cons show ?thesis by simp
  qed
qed

section \<open>The order of a range loop\<close>

type_synonym range_order = "string list \<Rightarrow> string list \<Rightarrow> string list"

definition valid_order :: "range_order \<Rightarrow> bool" where
  "valid_order ord \<longleftrightarrow> (\<forall>p xs. mset (ord p xs) = mset xs)"

definition at :: "range_order \<Rightarrow> string \<Rightarrow> range_order" where
  "at ord x = (\<lambda>p. ord (x # p))"

lemma valid_order_at [simp, intro]: "valid_order ord \<Longrightarrow> valid_order (at ord x)"
  by (simp add: valid_order_def at_def)

lemma valid_order_id [simp]: "valid_order (\<lambda>p xs. xs)"
  by (simp add: valid_order_def)

lemma valid_order_rev [simp]: "valid_order (\<lambda>p. rev)"
  by (simp add: valid_order_def)

lemma mset_order [order_simps]: "valid_order ord \<Longrightarrow> mset (ord p xs) = mset xs"
  by (simp add: valid_order_def)

lemma set_order [order_simps]: "valid_order ord \<Longrightarrow> set (ord p xs) = set xs"
  by (metis mset_order mset_eq_setD)

lemma distinct_order [order_simps]: "valid_order ord \<Longrightarrow> distinct (ord p xs) = distinct xs"
  by (metis mset_order mset_eq_imp_distinct_iff)

lemma length_order [order_simps]: "valid_order ord \<Longrightarrow> length (ord p xs) = length xs"
  by (metis mset_order size_mset)

text \<open>The values a range loop sees, in the order it sees them.\<close>

definition range_vals :: "range_order \<Rightarrow> string list \<Rightarrow> (string, 'v) gmap \<Rightarrow> 'v list" where
  "range_vals ord p m = map (\<lambda>k. the (map_of m k)) (ord p (gkeys m))"

lemma set_range_vals [order_simps]:
  assumes "valid_order ord"
  shows "set (range_vals ord p m) = ran (map_of m)"
proof -
  have "set (range_vals ord p m) = (\<lambda>k. the (map_of m k)) ` dom (map_of m)"
    by (simp add: range_vals_def set_order[OF assms])
  also have "\<dots> = ran (map_of m)"
    by (force simp: ran_def)
  finally show ?thesis .
qed

lemma length_range_vals [order_simps]:
  "valid_order ord \<Longrightarrow> length (range_vals ord p m) = length m"
  by (simp add: range_vals_def length_order)

lemma mset_range_vals:
  assumes "valid_order ord" and "gmap_ok m"
  shows "mset (range_vals ord p m) = mset (map snd m)"
proof -
  have *: "map (\<lambda>k. the (map_of m k)) (gkeys m) = map snd m"
    using assms(2) by (auto simp: gkeys_def gmap_ok_def)
  have "mset (range_vals ord p m) = image_mset (\<lambda>k. the (map_of m k)) (mset (gkeys m))"
    by (simp add: range_vals_def mset_order[OF assms(1)])
  also have "\<dots> = mset (map snd m)"
    using * by (metis mset_map)
  finally show ?thesis .
qed

section \<open>sort.Sort\<close>

locale go_sort =
  fixes lt :: "'a \<Rightarrow> 'a \<Rightarrow> bool"
    and srt :: "'a list \<Rightarrow> 'a list"
  assumes srt_mset: "mset (srt xs) = mset xs"
    and srt_sorted: "sorted_wrt (\<lambda>a b. \<not> lt b a) (srt xs)"
begin

lemma srt_set: "set (srt xs) = set xs"
  by (metis srt_mset mset_eq_setD)

lemma srt_length: "length (srt xs) = length xs"
  by (metis srt_mset size_mset)

lemma srt_distinct: "distinct (srt xs) = distinct xs"
  by (metis srt_mset mset_eq_imp_distinct_iff)

lemma srt_Nil_iff: "srt xs = [] \<longleftrightarrow> xs = []"
  by (metis srt_length length_0_conv)

lemma srt_hd_least: "x \<in> set xs \<Longrightarrow> srt xs = y # ys \<Longrightarrow> x = y \<or> \<not> lt x y"
  using srt_sorted[of xs] srt_set[of xs] by auto

end

lemma sorted_wrt_unique:
  assumes "mset xs = mset ys" "sorted_wrt (\<lambda>a b. \<not> lt b a) xs" "sorted_wrt (\<lambda>a b. \<not> lt b a) ys"
    and total: "\<And>a b. a \<in> set xs \<Longrightarrow> b \<in> set xs \<Longrightarrow> a \<noteq> b \<Longrightarrow> lt a b \<or> lt b a"
  shows "xs = ys"
  using assms
proof (induction xs arbitrary: ys)
  case Nil
  then show ?case by simp
next
  case (Cons x xs)
  then obtain y ys' where ys: "ys = y # ys'"
    by (metis mset_zero_iff_right neq_Nil_conv list.distinct(1))
  have set: "set (x # xs) = set ys" using Cons.prems(1) by (metis set_mset_mset)
  have "x = y"
  proof (rule ccontr)
    assume "x \<noteq> y"
    then have "x \<in> set ys'" "y \<in> set xs" using set ys by auto
    with Cons.prems(2,3) ys have "\<not> lt x y" "\<not> lt y x" by auto
    with Cons.prems(4)[of x y] \<open>y \<in> set xs\<close> \<open>x \<noteq> y\<close> show False by auto
  qed
  with Cons.IH[of ys'] Cons.prems ys show ?case by simp
qed

fun go_insert :: "('a \<Rightarrow> 'a \<Rightarrow> bool) \<Rightarrow> 'a \<Rightarrow> 'a list \<Rightarrow> 'a list" where
  "go_insert lt x [] = [x]"
| "go_insert lt x (y # ys) = (if lt x y then x # y # ys else y # go_insert lt x ys)"

definition insertionSort :: "('a \<Rightarrow> 'a \<Rightarrow> bool) \<Rightarrow> 'a list \<Rightarrow> 'a list" where
  "insertionSort lt xs = fold (go_insert lt) xs []"

lemma mset_go_insert [simp]: "mset (go_insert lt x ys) = add_mset x (mset ys)"
  by (induction ys) auto

lemma set_go_insert [simp]: "set (go_insert lt x ys) = insert x (set ys)"
  by (induction ys) auto

lemma mset_insertionSort_acc: "mset (fold (go_insert lt) xs acc) = mset xs + mset acc"
  by (induction xs arbitrary: acc) auto

lemma mset_insertionSort: "mset (insertionSort lt xs) = mset xs"
  by (simp add: insertionSort_def mset_insertionSort_acc)

lemma sorted_go_insert:
  assumes "\<And>a b. lt a b \<Longrightarrow> \<not> lt b a"
    and "\<And>a b c. \<not> lt b a \<Longrightarrow> \<not> lt c b \<Longrightarrow> \<not> lt c a"
    and "sorted_wrt (\<lambda>a b. \<not> lt b a) ys"
  shows "sorted_wrt (\<lambda>a b. \<not> lt b a) (go_insert lt x ys)"
  using assms(3)
proof (induction ys)
  case Nil
  then show ?case by simp
next
  case (Cons y ys)
  show ?case
  proof (cases "lt x y")
    case True
    then have "\<not> lt y x" by (rule assms(1))
    with Cons.prems have "\<forall>z\<in>set (y # ys). \<not> lt z x"
      by (auto dest: assms(2)[of y x])
    with True Cons.prems show ?thesis by simp
  next
    case False
    with Cons show ?thesis by auto
  qed
qed

lemma insertionSort_go_sort:
  assumes "\<And>a b. lt a b \<Longrightarrow> \<not> lt b a"
    and "\<And>a b c. \<not> lt b a \<Longrightarrow> \<not> lt c b \<Longrightarrow> \<not> lt c a"
  shows "go_sort lt (insertionSort lt)"
proof
  fix xs :: "'a list"
  show "mset (insertionSort lt xs) = mset xs"
    by (rule mset_insertionSort)
  have "sorted_wrt (\<lambda>a b. \<not> lt b a) acc \<Longrightarrow>
      sorted_wrt (\<lambda>a b. \<not> lt b a) (fold (go_insert lt) xs acc)" for acc
    by (induction xs arbitrary: acc) (simp_all add: sorted_go_insert[OF assms])
  then show "sorted_wrt (\<lambda>a b. \<not> lt b a) (insertionSort lt xs)"
    by (simp add: insertionSort_def)
qed

section \<open>Lists, results\<close>

text \<open>Results of fallible calls: \<open>Inl\<close> an error text, \<open>Inr\<close> the value.\<close>

type_synonym 'a result = "string + 'a"

lemma find_SomeD:
  "List.find P xs = Some x \<Longrightarrow> x \<in> set xs \<and> P x"
  by (auto simp: find_Some_iff)

lemma find_split:
  "List.find P xs = Some x \<Longrightarrow> \<exists>as bs. xs = as @ x # bs \<and> P x \<and> (\<forall>a\<in>set as. \<not> P a)"
proof (induction xs)
  case Nil
  then show ?case by simp
next
  case (Cons y ys)
  show ?case
  proof (cases "P y")
    case True
    with Cons.prems have "y # ys = [] @ x # ys" by simp
    with True Cons.prems show ?thesis by fastforce
  next
    case False
    with Cons obtain as bs where "ys = as @ x # bs" "P x" "\<forall>a\<in>set as. \<not> P a"
      by auto
    with False have "y # ys = (y # as) @ x # bs" "P x" "\<forall>a\<in>set (y # as). \<not> P a"
      by simp_all
    then show ?thesis by blast
  qed
qed

end
