(* ===== verification/Go_Strings.thy ===== *)
theory Go_Strings
  imports Fleet_Prelude "HOL-Library.Sublist"
begin

text \<open>
  The functions of Go's package \<open>strings\<close> that fleet calls, on byte strings. Unit names, option
  names and machine identifiers are ASCII, so a character is a byte and a rune, and \<open>ToLower\<close> is that
  of ASCII letters; the white space of \<open>unicode.IsSpace\<close> is given by its encodings. An index that Go
  reports as \<open>-1\<close> is \<open>None\<close>.
\<close>

named_theorems gostring_simps \<open>evaluation of the string functions\<close>

definition HasPrefix :: "string \<Rightarrow> string \<Rightarrow> bool" where
  "HasPrefix s p = prefix p s"

definition HasSuffix :: "string \<Rightarrow> string \<Rightarrow> bool" where
  "HasSuffix s p = suffix p s"

fun IndexByte :: "string \<Rightarrow> char \<Rightarrow> nat option" where
  "IndexByte [] c = None"
| "IndexByte (x # xs) c = (if x = c then Some 0 else map_option Suc (IndexByte xs c))"

fun LastIndexByte :: "string \<Rightarrow> char \<Rightarrow> nat option" where
  "LastIndexByte [] c = None"
| "LastIndexByte (x # xs) c =
     (case LastIndexByte xs c of
        Some i \<Rightarrow> Some (Suc i)
      | None \<Rightarrow> if x = c then Some 0 else None)"

definition Contains :: "string \<Rightarrow> char \<Rightarrow> bool" where
  "Contains s c = (c \<in> set s)"

fun Split :: "string \<Rightarrow> char \<Rightarrow> string list" where
  "Split [] c = [[]]"
| "Split (x # xs) c =
     (if x = c then [] # Split xs c
      else case Split xs c of [] \<Rightarrow> [[x]] | y # ys \<Rightarrow> (x # y) # ys)"

definition IsSpace :: "char \<Rightarrow> bool" where
  "IsSpace c = (c \<in> {CHR 0x09, CHR 0x0A, CHR 0x0B, CHR 0x0C, CHR 0x0D, CHR '' ''})"

text \<open>
  The white space of \<open>unicode.IsSpace\<close> as it is encoded in UTF-8. No encoding begins inside that of
  another character, so a piece of text begins with white space just when one of these is a prefix.
\<close>

definition wide_spaces :: "string list" where
  "wide_spaces =
     [[CHR 0xC2, CHR 0x85], [CHR 0xC2, CHR 0xA0], [CHR 0xE1, CHR 0x9A, CHR 0x80], [CHR 0xE2, CHR 0x80, CHR 0x80],
      [CHR 0xE2, CHR 0x80, CHR 0x81], [CHR 0xE2, CHR 0x80, CHR 0x82], [CHR 0xE2, CHR 0x80, CHR 0x83],
      [CHR 0xE2, CHR 0x80, CHR 0x84], [CHR 0xE2, CHR 0x80, CHR 0x85], [CHR 0xE2, CHR 0x80, CHR 0x86],
      [CHR 0xE2, CHR 0x80, CHR 0x87], [CHR 0xE2, CHR 0x80, CHR 0x88], [CHR 0xE2, CHR 0x80, CHR 0x89],
      [CHR 0xE2, CHR 0x80, CHR 0x8A], [CHR 0xE2, CHR 0x80, CHR 0xA8], [CHR 0xE2, CHR 0x80, CHR 0xA9],
      [CHR 0xE2, CHR 0x80, CHR 0xAF], [CHR 0xE2, CHR 0x81, CHR 0x9F], [CHR 0xE3, CHR 0x80, CHR 0x80]]"

definition white_spaces :: "string list" where
  "white_spaces =
     [[CHR 0x09], [CHR 0x0A], [CHR 0x0B], [CHR 0x0C], [CHR 0x0D], '' ''] @ wide_spaces"

text \<open>The first of the given words a string begins with.\<close>

definition leading :: "string list \<Rightarrow> string \<Rightarrow> string option" where
  "leading ws s = List.find (\<lambda>w. w \<noteq> [] \<and> prefix w s) ws"

lemma leading_SomeD: "leading ws s = Some w \<Longrightarrow> w \<in> set ws \<and> w \<noteq> [] \<and> prefix w s"
  by (auto simp: leading_def find_Some_iff)

lemma leading_None: "leading ws s = None \<longleftrightarrow> (\<forall>w\<in>set ws. w \<noteq> [] \<longrightarrow> \<not> prefix w s)"
  by (auto simp: leading_def find_None_iff)

lemma leading_shorter: "leading ws s = Some w \<Longrightarrow> length s - length w < length s"
  by (auto dest!: leading_SomeD simp: prefix_def)

text \<open>\<open>Fields\<close> scans the string once; \<open>cur\<close> holds the word being read.\<close>

function fields_from :: "string \<Rightarrow> string \<Rightarrow> string list" where
  "fields_from cur [] = (if cur = [] then [] else [cur])"
| "fields_from cur (c # cs) =
     (case leading white_spaces (c # cs) of
        Some w \<Rightarrow>
          let cs' = drop (length w) (c # cs) in if cur = [] then fields_from [] cs' else cur # fields_from [] cs'
      | None \<Rightarrow> fields_from (cur @ [c]) cs)"
  by pat_completeness auto
termination
  by (relation "measure (\<lambda>(cur, s). length s)") (auto dest: leading_shorter)

definition Fields :: "string \<Rightarrow> string list" where
  "Fields s = fields_from [] s"

definition ToLowerByte :: "char \<Rightarrow> char" where
  "ToLowerByte c =
     (if CHR ''A'' \<le> c \<and> c \<le> CHR ''Z'' then char_of (of_char c + (32::nat)) else c)"

definition ToLower :: "string \<Rightarrow> string" where
  "ToLower s = map ToLowerByte s"

text \<open>\<open>strings.Replace(s, old, new, -1)\<close> for a non-empty \<open>old\<close>, which is all fleet uses.\<close>

function ReplaceAll :: "string \<Rightarrow> string \<Rightarrow> string \<Rightarrow> string" where
  "ReplaceAll [] old new = []"
| "ReplaceAll (c # cs) old new =
     (if old \<noteq> [] \<and> prefix old (c # cs)
      then new @ ReplaceAll (drop (length old) (c # cs)) old new
      else c # ReplaceAll cs old new)"
  by pat_completeness auto
termination
  by (relation "measure (\<lambda>(s, old, new). length s)") (auto simp: Suc_diff_le)

definition TrimLeft :: "string \<Rightarrow> string \<Rightarrow> string" where
  "TrimLeft s cutset = dropWhile (\<lambda>c. c \<in> set cutset) s"

definition TrimRight :: "string \<Rightarrow> string \<Rightarrow> string" where
  "TrimRight s cutset = rev (dropWhile (\<lambda>c. c \<in> set cutset) (rev s))"

function trim_head :: "string list \<Rightarrow> string \<Rightarrow> string" where
  "trim_head ws s = (case leading ws s of None \<Rightarrow> s | Some w \<Rightarrow> trim_head ws (drop (length w) s))"
  by pat_completeness auto
termination
  by (relation "measure (\<lambda>(ws, s). length s)") (auto dest: leading_shorter)

declare trim_head.simps [simp del]

definition TrimSpace :: "string \<Rightarrow> string" where
  "TrimSpace s = rev (trim_head (map rev white_spaces) (rev (trim_head white_spaces s)))"

fun Join :: "string list \<Rightarrow> string \<Rightarrow> string" where
  "Join [] sep = []"
| "Join [x] sep = x"
| "Join (x # xs) sep = x @ sep @ Join xs sep"

section \<open>Indices\<close>

lemma IndexByte_None_iff: "IndexByte s c = None \<longleftrightarrow> c \<notin> set s"
  by (induction s) auto

lemma IndexByte_SomeD:
  "IndexByte s c = Some i \<Longrightarrow> i < length s \<and> s ! i = c \<and> c \<notin> set (take i s)"
  by (induction s arbitrary: i) (auto split: if_splits)

lemma IndexByte_append: "c \<notin> set xs \<Longrightarrow> IndexByte (xs @ c # ys) c = Some (length xs)"
  by (induction xs) auto

lemma LastIndexByte_None_iff: "LastIndexByte s c = None \<longleftrightarrow> c \<notin> set s"
  by (induction s) (auto split: option.splits)

lemma LastIndexByte_SomeD:
  "LastIndexByte s c = Some i \<Longrightarrow> i < length s \<and> s ! i = c \<and> c \<notin> set (drop (Suc i) s)"
proof (induction s arbitrary: i)
  case Nil
  then show ?case by simp
next
  case (Cons x xs)
  then show ?case
    by (auto split: option.splits if_splits simp: LastIndexByte_None_iff)
qed

lemma LastIndexByte_append: "c \<notin> set ys \<Longrightarrow> LastIndexByte (xs @ c # ys) c = Some (length xs)"
proof -
  assume "c \<notin> set ys"
  then have "LastIndexByte (c # ys) c = Some 0"
    by (simp add: LastIndexByte_None_iff[THEN iffD2])
  then show ?thesis by (induction xs) auto
qed

lemma split_at_index: "i < length s \<Longrightarrow> s ! i = c \<Longrightarrow> s = take i s @ c # drop (Suc i) s"
  using id_take_nth_drop by blast

section \<open>Split, Join and Fields\<close>

lemma Split_not_Nil [simp]: "Split s c \<noteq> []"
  by (cases s) (auto split: list.splits)

lemma Split_no_sep: "c \<notin> set s \<Longrightarrow> Split s c = [s]"
  by (induction s) auto

lemma Split_pieces: "p \<in> set (Split s c) \<Longrightarrow> c \<notin> set p"
  by (induction s arbitrary: p) (fastforce split: if_splits list.splits)+

lemma Split_append: "c \<notin> set xs \<Longrightarrow> Split (xs @ c # ys) c = xs # Split ys c"
  by (induction xs) auto

lemma Join_Split: "Join (Split s c) [c] = s"
proof (induction s)
  case Nil
  then show ?case by simp
next
  case (Cons x xs)
  obtain y ys where eq: "Split xs c = y # ys"
    by (cases "Split xs c") auto
  show ?case
    by (cases ys) (use Cons eq in auto)
qed

lemma Split_two_iff:
  "Split s c = [a, b] \<longleftrightarrow> s = a @ c # b \<and> c \<notin> set a \<and> c \<notin> set b"
proof
  assume eq: "Split s c = [a, b]"
  with Join_Split[of s c] have "s = a @ c # b" by simp
  moreover have "c \<notin> set a" "c \<notin> set b"
    using eq Split_pieces[of a s c] Split_pieces[of b s c] by auto
  ultimately show "s = a @ c # b \<and> c \<notin> set a \<and> c \<notin> set b" by simp
next
  assume "s = a @ c # b \<and> c \<notin> set a \<and> c \<notin> set b"
  then show "Split s c = [a, b]" by (simp add: Split_append Split_no_sep)
qed

lemma IsSpace_leading: "IsSpace c \<Longrightarrow> leading white_spaces (c # cs) \<noteq> None"
  by (auto simp: leading_None white_spaces_def IsSpace_def)

lemma fields_from_words:
  "w \<in> set (fields_from cur s) \<Longrightarrow> list_all (\<lambda>c. \<not> IsSpace c) cur \<Longrightarrow>
     w \<noteq> [] \<and> list_all (\<lambda>c. \<not> IsSpace c) w"
proof (induction cur s rule: fields_from.induct)
  case (2 cur c cs)
  then show ?case
    using IsSpace_leading[of c cs] by (cases "leading white_spaces (c # cs)") (auto simp: Let_def split: if_splits)
qed (auto split: if_splits)

lemma Fields_words: "w \<in> set (Fields s) \<Longrightarrow> w \<noteq> [] \<and> list_all (\<lambda>c. \<not> IsSpace c) w"
  unfolding Fields_def by (rule fields_from_words) auto

text \<open>A character no white space contains is kept by \<open>TrimSpace\<close>.\<close>

lemma trim_head_keeps: "c \<in> set s \<Longrightarrow> \<forall>w\<in>set ws. c \<notin> set w \<Longrightarrow> c \<in> set (trim_head ws s)"
proof (induction ws s rule: trim_head.induct)
  case (1 ws s)
  show ?case
  proof (cases "leading ws s")
    case None
    then show ?thesis using 1(2) by (subst trim_head.simps) simp
  next
    case (Some w)
    then obtain t where t: "s = w @ t" "c \<notin> set w" using leading_SomeD[OF Some] 1(3) by (auto simp: prefix_def)
    then have "c \<in> set (drop (length w) s)" using 1(2) by simp
    from 1(1)[OF Some this 1(3)] Some show ?thesis by (subst trim_head.simps) simp
  qed
qed

lemma TrimSpace_keeps: "c \<in> set s \<Longrightarrow> \<forall>w\<in>set white_spaces. c \<notin> set w \<Longrightarrow> c \<in> set (TrimSpace s)"
  using trim_head_keeps[of c s white_spaces] trim_head_keeps[of c "rev (trim_head white_spaces s)" "map rev white_spaces"]
  by (simp add: TrimSpace_def)

lemma trim_head_same: "leading ws s = None \<Longrightarrow> trim_head ws s = s"
  by (subst trim_head.simps) simp

lemma TrimSpace_Nil [simp]: "TrimSpace [] = []"
  by (simp add: TrimSpace_def trim_head_same leading_None)

lemma TrimSpace_same:
  assumes "\<forall>c\<in>set s. \<forall>w\<in>set white_spaces. c \<notin> set w"
  shows "TrimSpace s = s"
proof -
  have w: "\<not> prefix w t" if "w \<noteq> []" "\<forall>c\<in>set t. c \<notin> set w" for w t :: string
    using that hd_in_set[of w] by (fastforce simp: prefix_def)
  have "leading white_spaces s = None" using assms w by (auto simp: leading_None)
  moreover have "leading (map rev white_spaces) (rev s) = None" using assms w by (auto simp: leading_None)
  ultimately show ?thesis by (simp add: TrimSpace_def trim_head_same)
qed

section \<open>Replacement\<close>

lemma ReplaceAll_absent:
  "\<not> sublist old s \<Longrightarrow> ReplaceAll s old new = s"
proof (induction s)
  case Nil
  then show ?case by simp
next
  case (Cons c cs)
  then have "\<not> prefix old (c # cs)" "\<not> sublist old cs"
    by (auto simp: sublist_Cons_right)
  with Cons.IH show ?case by simp
qed

lemma ReplaceAll_char_absent:
  "c \<in> set old \<Longrightarrow> c \<notin> set s \<Longrightarrow> ReplaceAll s old new = s"
  by (rule ReplaceAll_absent) (auto dest: set_mono_sublist)

end
