(* ===== verification/Go_Hash.thy ===== *)
theory Go_Hash
  imports Go_Strings "HOL-Library.Word"
begin

unbundle bit_operations_syntax

text \<open>
  Go's \<open>crypto/sha1\<close> and \<open>encoding/hex\<close>, as far as \<open>unit.UnitFile.Hash\<close> and the registry's hash keys
  use them: \<open>sha1_Sum\<close> on byte strings (FIPS 180: padding, message schedule, eighty rounds per
  block), and hexadecimal encoding and decoding of byte strings.
\<close>

type_synonym byte = "8 word"

definition bytes_of :: "string \<Rightarrow> byte list" where
  "bytes_of s = map (\<lambda>c. of_nat (of_char c)) s"

section \<open>SHA-1\<close>

definition be_word :: "byte list \<Rightarrow> 32 word" where
  "be_word bs = fold (\<lambda>b acc. push_bit 8 acc OR ucast b) bs 0"

definition word_bytes :: "32 word \<Rightarrow> byte list" where
  "word_bytes w = map (\<lambda>k. ucast (drop_bit k w)) [24, 16, 8, 0]"

definition len_bytes :: "nat \<Rightarrow> byte list" where
  "len_bytes n = map (\<lambda>k. of_nat (n div 2 ^ k)) [56, 48, 40, 32, 24, 16, 8, 0]"

definition sha1_pad :: "byte list \<Rightarrow> byte list" where
  "sha1_pad bs =
     bs @ [0x80] @ replicate ((119 - length bs mod 64) mod 64) 0 @ len_bytes (8 * length bs)"

fun chunks :: "nat \<Rightarrow> nat \<Rightarrow> 'a list \<Rightarrow> 'a list list" where
  "chunks 0 k xs = []"
| "chunks (Suc n) k xs = take k xs # chunks n k (drop k xs)"

definition sha1_extend :: "32 word list \<Rightarrow> 32 word list" where
  "sha1_extend ws =
     (let t = length ws in
      ws @ [word_rotl 1 (ws ! (t - 3) XOR ws ! (t - 8) XOR ws ! (t - 14) XOR ws ! (t - 16))])"

definition sha1_schedule :: "byte list \<Rightarrow> 32 word list" where
  "sha1_schedule block = (sha1_extend ^^ 64) (map be_word (chunks 16 4 block))"

definition sha1_f :: "nat \<Rightarrow> 32 word \<Rightarrow> 32 word \<Rightarrow> 32 word \<Rightarrow> 32 word" where
  "sha1_f t b c d =
     (if t < 20 then (b AND c) OR (NOT b AND d)
      else if t < 40 then b XOR c XOR d
      else if t < 60 then (b AND c) OR (b AND d) OR (c AND d)
      else b XOR c XOR d)"

definition sha1_k :: "nat \<Rightarrow> 32 word" where
  "sha1_k t = (if t < 20 then 0x5A827999 else if t < 40 then 0x6ED9EBA1
               else if t < 60 then 0x8F1BBCDC else 0xCA62C1D6)"

type_synonym sha1_state = "32 word \<times> 32 word \<times> 32 word \<times> 32 word \<times> 32 word"

fun sha1_rounds :: "nat \<Rightarrow> 32 word list \<Rightarrow> sha1_state \<Rightarrow> sha1_state" where
  "sha1_rounds t [] st = st"
| "sha1_rounds t (w # ws) (a, b, c, d, e) =
     sha1_rounds (Suc t) ws
       (word_rotl 5 a + sha1_f t b c d + e + sha1_k t + w, a, word_rotl 30 b, c, d)"

fun sha1_add :: "sha1_state \<Rightarrow> sha1_state \<Rightarrow> sha1_state" where
  "sha1_add (a, b, c, d, e) (a', b', c', d', e') = (a + a', b + b', c + c', d + d', e + e')"

definition sha1_block :: "byte list \<Rightarrow> sha1_state \<Rightarrow> sha1_state" where
  "sha1_block block st = sha1_add st (sha1_rounds 0 (sha1_schedule block) st)"

fun sha1_digest :: "sha1_state \<Rightarrow> byte list" where
  "sha1_digest (a, b, c, d, e) = concat (map word_bytes [a, b, c, d, e])"

definition sha1_Size :: nat where
  "sha1_Size = 20"

definition sha1_Sum :: "byte list \<Rightarrow> byte list" where
  "sha1_Sum bs =
     sha1_digest (fold sha1_block (chunks (length (sha1_pad bs) div 64) 64 (sha1_pad bs))
       (0x67452301, 0xEFCDAB89, 0x98BADCFE, 0x10325476, 0xC3D2E1F0))"

lemma length_sha1_digest: "length (sha1_digest st) = sha1_Size"
  by (cases st) (simp add: word_bytes_def sha1_Size_def)

lemma length_sha1_Sum [simp]: "length (sha1_Sum bs) = sha1_Size"
  by (simp add: sha1_Sum_def length_sha1_digest)

section \<open>Hexadecimal text\<close>

definition hex_digit :: "nat \<Rightarrow> char" where
  "hex_digit n = ''0123456789abcdef'' ! (n mod 16)"

definition hex_byte :: "byte \<Rightarrow> string" where
  "hex_byte b = [hex_digit (unat b div 16), hex_digit (unat b)]"

definition hex_EncodeToString :: "byte list \<Rightarrow> string" where
  "hex_EncodeToString bs = concat (map hex_byte bs)"

definition fromHexChar :: "char \<Rightarrow> nat option" where
  "fromHexChar c =
     (let n = of_char c :: nat in
      if CHR ''0'' \<le> c \<and> c \<le> CHR ''9'' then Some (n - 48)
      else if CHR ''a'' \<le> c \<and> c \<le> CHR ''f'' then Some (n - 87)
      else if CHR ''A'' \<le> c \<and> c \<le> CHR ''F'' then Some (n - 55)
      else None)"

text \<open>\<open>hex.DecodeString\<close>: an odd length or a byte that is no hexadecimal digit is an error.\<close>

fun hex_DecodeString :: "string \<Rightarrow> byte list option" where
  "hex_DecodeString [] = Some []"
| "hex_DecodeString [c] = None"
| "hex_DecodeString (c # d # cs) =
     (case (fromHexChar c, fromHexChar d, hex_DecodeString cs) of
        (Some hi, Some lo, Some bs) \<Rightarrow> Some (of_nat (16 * hi + lo) # bs)
      | _ \<Rightarrow> None)"

lemma fromHexChar_hex_digit: "fromHexChar (hex_digit n) = Some (n mod 16)"
proof -
  have "\<forall>k \<in> set [0..<16]. fromHexChar (hex_digit k) = Some k"
    by (simp add: upt_rec hex_digit_def fromHexChar_def Let_def less_eq_char_def)
  moreover have "n mod 16 \<in> set [0..<16]" by simp
  moreover have "hex_digit n = hex_digit (n mod 16)" by (simp add: hex_digit_def)
  ultimately show ?thesis by metis
qed

lemma hex_decode_byte:
  "hex_DecodeString (hex_byte b @ s) = map_option (Cons b) (hex_DecodeString s)"
proof -
  have "unat b < 256" using unsigned_less[of b] by simp
  then have "unat b div 16 mod 16 = unat b div 16" by simp
  then have "16 * (unat b div 16 mod 16) + unat b mod 16 = unat b"
    using mult_div_mod_eq[of 16 "unat b"] by simp
  then have "word_of_nat (16 * (unat b div 16 mod 16) + unat b mod 16) = b"
    by simp
  then show ?thesis
    by (auto simp: hex_byte_def fromHexChar_hex_digit split: option.splits)
qed

lemma hex_roundtrip [simp]: "hex_DecodeString (hex_EncodeToString bs) = Some bs"
  by (induction bs) (auto simp: hex_EncodeToString_def hex_decode_byte)

lemma hex_EncodeToString_inject [simp]: "hex_EncodeToString a = hex_EncodeToString b \<longleftrightarrow> a = b"
  by (metis hex_roundtrip option.inject)

lemma length_hex_EncodeToString: "length (hex_EncodeToString bs) = 2 * length bs"
  by (induction bs) (auto simp: hex_EncodeToString_def hex_byte_def)

end
