(* ===== verification/Pkg_Util.thy ===== *)
theory Pkg_Util
  imports Go_Strings "HOL-Library.Word"
begin

text \<open>
  Package \<open>pkg\<close>: the string sets of \<open>pkg/set.go\<close> (plain and mutex-guarded) behind the interface
  \<open>Set\<close>, argument trimming (\<open>pkg/args.go\<close>), exponential back-off on 64-bit durations
  (\<open>pkg/backoff.go\<close>) and the comma-separated flag value (\<open>pkg/flag.go\<close>).

  The interface is the locale \<open>string_set\<close>; both implementations interpret it. A set operation that
  iterates over the underlying Go map takes a range order.
\<close>

section \<open>Plain sets\<close>

record unsafeSet =
  us_d :: "(string, unit) gmap"

definition us_Add :: "string \<Rightarrow> unsafeSet \<Rightarrow> unsafeSet" where
  "us_Add value us = us\<lparr>us_d := gput value () (us_d us)\<rparr>"

definition us_Remove :: "string \<Rightarrow> unsafeSet \<Rightarrow> unsafeSet" where
  "us_Remove value us = us\<lparr>us_d := gdel value (us_d us)\<rparr>"

definition us_Contains :: "unsafeSet \<Rightarrow> string \<Rightarrow> bool" where
  "us_Contains us value = gmem value (us_d us)"

definition us_Length :: "unsafeSet \<Rightarrow> nat" where
  "us_Length us = length (us_d us)"

definition us_Values :: "range_order \<Rightarrow> unsafeSet \<Rightarrow> string list" where
  "us_Values ord us = ord [''Values''] (gkeys (us_d us))"

definition NewUnsafeSet :: "string list \<Rightarrow> unsafeSet" where
  "NewUnsafeSet values = fold us_Add values \<lparr>us_d = []\<rparr>"

definition us_Copy :: "range_order \<Rightarrow> unsafeSet \<Rightarrow> unsafeSet" where
  "us_Copy ord us = fold us_Add (ord [''Copy''] (gkeys (us_d us))) (NewUnsafeSet [])"

definition us_Equals :: "range_order \<Rightarrow> unsafeSet \<Rightarrow> string list \<Rightarrow> bool" where
  \<comment> \<open>\<open>other\<close> is the slice returned by \<open>other.Values()\<close>\<close>
  "us_Equals ord us other = (sort (us_Values ord us) = sort other)"

definition us_Sub :: "range_order \<Rightarrow> unsafeSet \<Rightarrow> string list \<Rightarrow> unsafeSet" where
  "us_Sub ord us other =
     fold (\<lambda>val result. if \<not> gmem val (us_d result) then result
                         else result\<lparr>us_d := gdel val (us_d result)\<rparr>)
       other (us_Copy ord us)"

section \<open>Mutex-guarded sets\<close>

text \<open>
  \<open>tsafeSet\<close> holds a plain set and a read-write mutex. Every method takes the mutex on entry and
  releases it by \<open>defer\<close>; \<open>ts_m\<close> counts the holders, and each method below is the composition
  lock, delegate, unlock.
\<close>

datatype rw_mutex = Unlocked | Readers nat | Writer

record tsafeSet =
  ts_us :: unsafeSet
  ts_m :: rw_mutex

definition ts_Lock :: "tsafeSet \<Rightarrow> tsafeSet" where
  "ts_Lock ts = ts\<lparr>ts_m := Writer\<rparr>"

definition ts_Unlock :: "tsafeSet \<Rightarrow> tsafeSet" where
  "ts_Unlock ts = ts\<lparr>ts_m := Unlocked\<rparr>"

definition NewThreadsafeSet :: "string list \<Rightarrow> tsafeSet" where
  "NewThreadsafeSet values = \<lparr>ts_us = NewUnsafeSet values, ts_m = Unlocked\<rparr>"

definition ts_Add :: "string \<Rightarrow> tsafeSet \<Rightarrow> tsafeSet" where
  "ts_Add value ts = (let l = ts_Lock ts in ts_Unlock (l\<lparr>ts_us := us_Add value (ts_us l)\<rparr>))"

definition ts_Remove :: "string \<Rightarrow> tsafeSet \<Rightarrow> tsafeSet" where
  "ts_Remove value ts = (let l = ts_Lock ts in ts_Unlock (l\<lparr>ts_us := us_Remove value (ts_us l)\<rparr>))"

definition ts_Contains :: "tsafeSet \<Rightarrow> string \<Rightarrow> bool" where
  "ts_Contains ts value = us_Contains (ts_us ts) value"

definition ts_Equals :: "range_order \<Rightarrow> tsafeSet \<Rightarrow> string list \<Rightarrow> bool" where
  "ts_Equals ord ts other = us_Equals ord (ts_us ts) other"

definition ts_Length :: "tsafeSet \<Rightarrow> nat" where
  "ts_Length ts = us_Length (ts_us ts)"

definition ts_Values :: "range_order \<Rightarrow> tsafeSet \<Rightarrow> string list" where
  "ts_Values ord ts = us_Values ord (ts_us ts)"

definition ts_Copy :: "range_order \<Rightarrow> tsafeSet \<Rightarrow> tsafeSet" where
  "ts_Copy ord ts = \<lparr>ts_us = us_Copy ord (ts_us ts), ts_m = Unlocked\<rparr>"

definition ts_Sub :: "range_order \<Rightarrow> tsafeSet \<Rightarrow> string list \<Rightarrow> tsafeSet" where
  "ts_Sub ord ts other = \<lparr>ts_us = us_Sub ord (ts_us ts) other, ts_m = Unlocked\<rparr>"

section \<open>Arguments, back-off, flag values\<close>

fun TrimToDashes_from :: "string list \<Rightarrow> string list option" where
  "TrimToDashes_from [] = None"
| "TrimToDashes_from (arg # args) = (if arg = ''--'' then Some args else TrimToDashes_from args)"

definition TrimToDashes :: "string list \<Rightarrow> string list" where
  "TrimToDashes args = (case TrimToDashes_from args of Some rest \<Rightarrow> rest | None \<Rightarrow> args)"

type_synonym Duration = "64 word"

definition ExpBackoff :: "Duration \<Rightarrow> Duration \<Rightarrow> Duration" where
  "ExpBackoff lst mx = (let nxt = lst * 2 in if mx <s nxt then mx else nxt)"

definition StringSlice_Set :: "string \<Rightarrow> string list" where
  "StringSlice_Set value =
     map (\<lambda>item. TrimRight (TrimLeft item ('' ['' @ [CHR 0x22])) ([CHR '' '', CHR 0x22] @ '']''))
       (Split value CHR '','')"

section \<open>The interface Set\<close>

locale string_set =
  fixes empty_set :: 's
    and add :: "string \<Rightarrow> 's \<Rightarrow> 's"
    and remove :: "string \<Rightarrow> 's \<Rightarrow> 's"
    and contains :: "'s \<Rightarrow> string \<Rightarrow> bool"
    and len :: "'s \<Rightarrow> nat"
    and vals :: "range_order \<Rightarrow> 's \<Rightarrow> string list"
    and copy :: "range_order \<Rightarrow> 's \<Rightarrow> 's"
    and sub :: "range_order \<Rightarrow> 's \<Rightarrow> string list \<Rightarrow> 's"
    and equals :: "range_order \<Rightarrow> 's \<Rightarrow> string list \<Rightarrow> bool"
    and elems :: "'s \<Rightarrow> string set"
    and inv :: "'s \<Rightarrow> bool"
  assumes inv_empty: "inv empty_set"
    and inv_add: "inv s \<Longrightarrow> inv (add x s)"
    and inv_remove: "inv s \<Longrightarrow> inv (remove x s)"
    and inv_copy: "valid_order ord \<Longrightarrow> inv s \<Longrightarrow> inv (copy ord s)"
    and inv_sub: "valid_order ord \<Longrightarrow> inv s \<Longrightarrow> inv (sub ord s ys)"
    and elems_empty: "elems empty_set = {}"
    and elems_add: "inv s \<Longrightarrow> elems (add x s) = insert x (elems s)"
    and elems_remove: "inv s \<Longrightarrow> elems (remove x s) = elems s - {x}"
    and elems_copy: "valid_order ord \<Longrightarrow> inv s \<Longrightarrow> elems (copy ord s) = elems s"
    and elems_sub: "valid_order ord \<Longrightarrow> inv s \<Longrightarrow> elems (sub ord s ys) = elems s - set ys"
    and contains_iff: "inv s \<Longrightarrow> contains s x \<longleftrightarrow> x \<in> elems s"
    and vals_set: "valid_order ord \<Longrightarrow> inv s \<Longrightarrow> set (vals ord s) = elems s"
    and vals_distinct: "valid_order ord \<Longrightarrow> inv s \<Longrightarrow> distinct (vals ord s)"
    and len_card: "inv s \<Longrightarrow> len s = card (elems s)"
    and equals_sort: "valid_order ord \<Longrightarrow> inv s \<Longrightarrow> equals ord s ys \<longleftrightarrow> sort (vals ord s) = sort ys"
begin

lemma elems_add_all: "inv s \<Longrightarrow> inv (fold add xs s) \<and> elems (fold add xs s) = set xs \<union> elems s"
  by (induction xs arbitrary: s) (auto simp: inv_add elems_add)

lemma sub_copy_elems:
  assumes "valid_order ord" "valid_order ord'" "valid_order ord''" "inv s" "inv t"
  shows "set (vals ord (sub ord' s (vals ord'' t))) = elems s - elems t"
  using assms by (simp add: vals_set inv_sub elems_sub)

lemma equals_iff_elems:
  assumes "valid_order ord" "inv s" "distinct ys"
  shows "equals ord s ys \<longleftrightarrow> elems s = set ys"
proof
  assume "equals ord s ys"
  then have "sort (vals ord s) = sort ys" using equals_sort assms by blast
  then have "set (vals ord s) = set ys" by (metis set_sort)
  then show "elems s = set ys" using vals_set assms by blast
next
  assume eq: "elems s = set ys"
  have "mset (vals ord s) = mset ys"
    using assms vals_set[of ord s] vals_distinct[of ord s] eq
    by (metis set_eq_iff_mset_eq_distinct)
  then have "sort (vals ord s) = sort ys" by (metis mset_sort properties_for_sort sorted_sort)
  then show "equals ord s ys" using equals_sort assms by blast
qed

end

section \<open>Both implementations meet it\<close>

definition us_elems :: "unsafeSet \<Rightarrow> string set" where
  "us_elems us = dom (map_of (us_d us))"

definition us_inv :: "unsafeSet \<Rightarrow> bool" where
  "us_inv us = gmap_ok (us_d us)"

lemma us_Add_elems: "us_elems (us_Add x us) = insert x (us_elems us)"
  by (simp add: us_elems_def us_Add_def)

lemma us_Add_inv: "us_inv us \<Longrightarrow> us_inv (us_Add x us)"
  by (simp add: us_inv_def us_Add_def)

lemma us_Add_all: "us_inv us \<Longrightarrow>
    us_inv (fold us_Add xs us) \<and> us_elems (fold us_Add xs us) = set xs \<union> us_elems us"
  by (induction xs arbitrary: us) (auto simp: us_Add_inv us_Add_elems)

lemma NewUnsafeSet_spec: "us_inv (NewUnsafeSet xs) \<and> us_elems (NewUnsafeSet xs) = set xs"
  using us_Add_all[of "\<lparr>us_d = []\<rparr>" xs] by (simp add: NewUnsafeSet_def us_inv_def us_elems_def)

lemma us_Copy_spec:
  assumes "valid_order ord" "us_inv us"
  shows "us_inv (us_Copy ord us) \<and> us_elems (us_Copy ord us) = us_elems us"
  using us_Add_all[of "NewUnsafeSet []" "ord [''Copy''] (gkeys (us_d us))"] NewUnsafeSet_spec[of "[]"]
  by (simp add: us_Copy_def set_order[OF assms(1)]) (simp add: us_elems_def)

lemma us_Sub_fold:
  "us_inv us \<Longrightarrow>
     us_inv (fold (\<lambda>val r. if \<not> gmem val (us_d r) then r else r\<lparr>us_d := gdel val (us_d r)\<rparr>) ys us) \<and>
     us_elems (fold (\<lambda>val r. if \<not> gmem val (us_d r) then r else r\<lparr>us_d := gdel val (us_d r)\<rparr>) ys us) =
     us_elems us - set ys"
proof (induction ys arbitrary: us)
  case Nil
  then show ?case by simp
next
  case (Cons y ys)
  show ?case
  proof (cases "gmem y (us_d us)")
    case True
    with Cons.prems have "us_inv (us\<lparr>us_d := gdel y (us_d us)\<rparr>)" by (simp add: us_inv_def)
    from Cons.IH[OF this] True show ?thesis by (auto simp: us_elems_def)
  next
    case False
    then have "y \<notin> us_elems us" by (simp add: us_elems_def gmem_iff)
    with False Cons.IH[OF Cons.prems] show ?thesis by auto
  qed
qed

lemma us_Sub_spec:
  assumes "valid_order ord" "us_inv us"
  shows "us_inv (us_Sub ord us ys) \<and> us_elems (us_Sub ord us ys) = us_elems us - set ys"
  using us_Sub_fold[of "us_Copy ord us" ys] us_Copy_spec[OF assms] by (simp add: us_Sub_def)

lemma us_Remove_spec:
  "us_inv us \<Longrightarrow> us_inv (us_Remove x us)"
  "us_elems (us_Remove x us) = us_elems us - {x}"
  by (auto simp: us_inv_def us_elems_def us_Remove_def)

lemma us_Contains_iff: "us_Contains us x \<longleftrightarrow> x \<in> us_elems us"
  by (simp add: us_Contains_def us_elems_def gmem_iff)

lemma us_Values_spec:
  assumes "valid_order ord"
  shows "set (us_Values ord us) = us_elems us" and "us_inv us \<Longrightarrow> distinct (us_Values ord us)"
  by (simp_all add: us_Values_def us_elems_def us_inv_def order_simps[OF assms])

lemma us_Length_card: "us_inv us \<Longrightarrow> us_Length us = card (us_elems us)"
  by (simp add: us_Length_def us_inv_def us_elems_def gmap_length_card)

lemmas us_laws = us_Add_inv us_Add_elems us_Copy_spec us_Sub_spec us_Remove_spec us_Contains_iff
  us_Values_spec us_Length_card

interpretation uset: string_set "NewUnsafeSet []" us_Add us_Remove us_Contains us_Length us_Values
  us_Copy us_Sub us_Equals us_elems us_inv
proof
  show "us_inv (NewUnsafeSet [])" "us_elems (NewUnsafeSet []) = {}"
    using NewUnsafeSet_spec[of "[]"] by simp_all
qed (simp_all add: us_laws us_Equals_def)

interpretation tset: string_set "NewThreadsafeSet []" ts_Add ts_Remove ts_Contains ts_Length ts_Values
  ts_Copy ts_Sub ts_Equals "\<lambda>ts. us_elems (ts_us ts)" "\<lambda>ts. us_inv (ts_us ts)"
proof
  show "us_inv (ts_us (NewThreadsafeSet []))" "us_elems (ts_us (NewThreadsafeSet [])) = {}"
    using NewUnsafeSet_spec[of "[]"] by (simp_all add: NewThreadsafeSet_def)
qed (simp_all add: ts_Add_def ts_Remove_def ts_Contains_def ts_Length_def ts_Values_def ts_Copy_def
    ts_Sub_def ts_Equals_def ts_Lock_def ts_Unlock_def Let_def us_laws us_Equals_def)

lemma ts_Add_releases: "ts_m (ts_Add x ts) = Unlocked" "ts_m (ts_Remove x ts) = Unlocked"
  by (simp_all add: ts_Add_def ts_Remove_def ts_Lock_def ts_Unlock_def Let_def)

section \<open>Back-off and arguments\<close>

lemma sint_double:
  assumes "0 \<le> sint (w :: Duration)" "sint w < 2 ^ 62"
  shows "sint (w * 2) = 2 * sint w"
proof -
  have "sint (w * 2) = signed_take_bit 63 (sint w * 2)"
    by (simp add: sint_word_ariths)
  also have "\<dots> = sint w * 2"
    using assms by (intro signed_take_bit_int_eq_self) auto
  finally show ?thesis by simp
qed

lemma TrimToDashes_from_Some_iff:
  "TrimToDashes_from args = Some rest \<longleftrightarrow> (\<exists>pre. args = pre @ ''--'' # rest \<and> ''--'' \<notin> set pre)"
proof (induction args)
  case Nil
  then show ?case by simp
next
  case (Cons a as)
  show ?case
  proof (cases "a = ''--''")
    case True
    then show ?thesis by (auto simp: Cons_eq_append_conv)
  next
    case False
    with Cons show ?thesis by (auto simp: Cons_eq_append_conv)
  qed
qed

lemma TrimToDashes_from_None_iff: "TrimToDashes_from args = None \<longleftrightarrow> ''--'' \<notin> set args"
  by (induction args) auto

end
