(* ===== verification/Unit_File.thy ===== *)
theory Unit_File
  imports Go_Hash Pkg_Util
begin

text \<open>
  Package \<open>unit\<close> (\<open>unit/unit.go\<close>): unit files as ordered options with the section map derived from
  them, the serialised form (\<open>Serialize\<close> of the vendored go-systemd package) and its SHA-1 hash,
  unit types, unit states, and the analysis of unit names into prefix, instance and template.
\<close>

section \<open>Options and their serialised form\<close>

record UnitOption =
  uo_Section :: string
  uo_Name :: string
  uo_Value :: string

definition Serialize_step ::
  "UnitOption \<Rightarrow> (string, UnitOption list) gmap \<times> string list \<Rightarrow> (string, UnitOption list) gmap \<times> string list" where
  "Serialize_step opt st =
     (let (idx, sections) = st; sec = uo_Section opt;
          sections' = (if gmem sec idx then sections else sections @ [sec]);
          old = (case map_of idx sec of None \<Rightarrow> [] | Some os \<Rightarrow> os)
      in (gput sec (old @ [opt]) idx, sections'))"

definition writeSectionHeader :: "string \<Rightarrow> string" where
  "writeSectionHeader section = ''['' @ section @ '']''"

definition writeOption :: "UnitOption \<Rightarrow> string" where
  "writeOption opt = uo_Name opt @ ''='' @ uo_Value opt"

definition newline :: string where
  "newline = [CHR 0x0A]"

fun Serialize_sections :: "(string, UnitOption list) gmap \<Rightarrow> string list \<Rightarrow> string" where
  "Serialize_sections idx [] = []"
| "Serialize_sections idx (sect # sects) =
     writeSectionHeader sect @ newline @
     concat (map (\<lambda>opt. writeOption opt @ newline) (case map_of idx sect of None \<Rightarrow> [] | Some os \<Rightarrow> os)) @
     (if sects \<noteq> [] then newline else []) @
     Serialize_sections idx sects"

definition Serialize :: "UnitOption list \<Rightarrow> string" where
  "Serialize opts =
     (if opts = [] then []
      else let (idx, sections) = fold Serialize_step opts ([], []) in Serialize_sections idx sections)"

section \<open>Unit files\<close>

type_synonym unit_contents = "(string, (string, string list) gmap) gmap"

record UnitFile =
  uf_Contents :: unit_contents
  uf_Options :: "UnitOption list"

text \<open>The byte loop of \<open>parseMultivalueLine\<close>: \<open>w\<close> is "within quotes", \<open>v\<close> the value being read.\<close>

fun parseMultivalue_loop :: "string \<Rightarrow> bool \<Rightarrow> string \<Rightarrow> string list" where
  "parseMultivalue_loop [] w v = [v]"
| "parseMultivalue_loop (e # es) w v =
     (if e = CHR 0x22 then parseMultivalue_loop es (\<not> w) v
      else if e = CHR '' '' \<and> \<not> w then v # parseMultivalue_loop es w []
      else parseMultivalue_loop es w (v @ [e]))"

definition parseMultivalueLine :: "string \<Rightarrow> string list" where
  "parseMultivalueLine line =
     (if \<not> HasPrefix line [CHR 0x22] \<or> \<not> HasSuffix line [CHR 0x22] then [line]
      else parseMultivalue_loop line False [])"

definition mapOptions_step :: "UnitOption \<Rightarrow> unit_contents \<Rightarrow> unit_contents" where
  "mapOptions_step opt contents =
     (let sec = (case map_of contents (uo_Section opt) of None \<Rightarrow> [] | Some m \<Rightarrow> m);
          old = (case map_of sec (uo_Name opt) of None \<Rightarrow> [] | Some vs \<Rightarrow> vs);
          vals = (if uo_Section opt = ''X-Fleet'' then parseMultivalueLine (uo_Value opt)
                  else [uo_Value opt])
      in gput (uo_Section opt) (gput (uo_Name opt) (old @ vals) sec) contents)"

definition mapOptions :: "UnitOption list \<Rightarrow> unit_contents" where
  "mapOptions opts = fold mapOptions_step opts []"

definition NewUnitFromOptions :: "UnitOption list \<Rightarrow> UnitFile" where
  "NewUnitFromOptions opts = \<lparr>uf_Contents = mapOptions opts, uf_Options = opts\<rparr>"

text \<open>Reading \<open>Contents[section][key]\<close>: a missing section or key is the empty list.\<close>

definition uf_get :: "UnitFile \<Rightarrow> string \<Rightarrow> string \<Rightarrow> string list" where
  "uf_get u sec key =
     (case map_of (uf_Contents u) sec of
        None \<Rightarrow> []
      | Some m \<Rightarrow> (case map_of m key of None \<Rightarrow> [] | Some vs \<Rightarrow> vs))"

definition Description :: "UnitFile \<Rightarrow> string" where
  "Description u = (case uf_get u ''Unit'' ''Description'' of [] \<Rightarrow> [] | v # _ \<Rightarrow> v)"

definition uf_String :: "UnitFile \<Rightarrow> string" where
  "uf_String u = Serialize (uf_Options u)"

definition uf_Bytes :: "UnitFile \<Rightarrow> byte list" where
  "uf_Bytes u = bytes_of (uf_String u)"

type_synonym Hash = "byte list"

definition uf_Hash :: "UnitFile \<Rightarrow> Hash" where
  "uf_Hash u = sha1_Sum (uf_Bytes u)"

definition MatchUnitFiles :: "UnitFile \<Rightarrow> UnitFile \<Rightarrow> bool" where
  "MatchUnitFiles a b = (uf_Hash a = uf_Hash b)"

definition Hash_String :: "Hash \<Rightarrow> string" where
  "Hash_String h = hex_EncodeToString h"

definition Hash_Short :: "Hash \<Rightarrow> string" where
  "Hash_Short h = take 7 (Hash_String h)"

definition Hash_Empty :: "Hash \<Rightarrow> bool" where
  "Hash_Empty h = (h = replicate sha1_Size 0)"

definition HashFromHexString :: "string \<Rightarrow> Hash result" where
  "HashFromHexString key =
     (case hex_DecodeString key of
        None \<Rightarrow> Inl ''encoding/hex error''
      | Some out \<Rightarrow> if length out \<noteq> sha1_Size then Inl ''size of key differs from SHA1 size''
                    else Inr (take sha1_Size out))"

section \<open>Unit types and states\<close>

definition unit_types :: "string list" where
  "unit_types = [''service'', ''socket'', ''timer'', ''path'', ''device'', ''mount'', ''automount'']"

definition RecognizedUnitType :: "string \<Rightarrow> bool" where
  "RecognizedUnitType name = list_ex (\<lambda>t. HasSuffix name (''.'' @ t)) unit_types"

definition DefaultUnitType :: "string \<Rightarrow> string" where
  "DefaultUnitType name = name @ ''.service''"

record UnitState =
  us_LoadState :: string
  us_ActiveState :: string
  us_SubState :: string
  us_MachineID :: string
  us_UnitHash :: string
  us_UnitName :: string

definition NewUnitState :: "string \<Rightarrow> string \<Rightarrow> string \<Rightarrow> string \<Rightarrow> UnitState" where
  "NewUnitState loadState activeState subState mID =
     \<lparr>us_LoadState = loadState, us_ActiveState = activeState, us_SubState = subState,
      us_MachineID = mID, us_UnitHash = [], us_UnitName = []\<rparr>"

section \<open>Unit names\<close>

record UnitNameInfo =
  ni_FullName :: string
  ni_Name :: string
  ni_Prefix :: string
  ni_Template :: string
  ni_Instance :: string

definition IsInstance :: "UnitNameInfo \<Rightarrow> bool" where
  "IsInstance nu = (length (ni_Instance nu) > 0)"

definition IsTemplate :: "UnitNameInfo \<Rightarrow> bool" where
  "IsTemplate nu = (length (ni_Template nu) > 0 \<and> \<not> IsInstance nu)"

definition NewUnitNameInfo :: "string \<Rightarrow> UnitNameInfo option" where
  "NewUnitNameInfo un =
     (case LastIndexByte un CHR ''.'' of
        None \<Rightarrow> None
      | Some s \<Rightarrow>
          let name = take s un; suffix = drop s un in
          (case IndexByte name CHR ''@'' of
             None \<Rightarrow> Some \<lparr>ni_FullName = un, ni_Name = name, ni_Prefix = name,
                           ni_Template = [], ni_Instance = []\<rparr>
           | Some a \<Rightarrow> Some \<lparr>ni_FullName = un, ni_Name = name, ni_Prefix = take a name,
                             ni_Template = take a name @ ''@'' @ suffix,
                             ni_Instance = drop (Suc a) name\<rparr>))"

section \<open>Lemmas\<close>

lemma Hash_String_inject [simp]: "Hash_String a = Hash_String b \<longleftrightarrow> a = b"
  by (simp add: Hash_String_def)

lemma length_uf_Hash [simp]: "length (uf_Hash u) = sha1_Size"
  by (simp add: uf_Hash_def)

lemma Hash_String_not_Nil [simp]: "Hash_String (uf_Hash u) \<noteq> []"
proof -
  have "length (Hash_String (uf_Hash u)) = 2 * sha1_Size"
    by (simp add: Hash_String_def length_hex_EncodeToString)
  then show ?thesis by (auto simp: sha1_Size_def)
qed

lemma HashFromHexString_String: "length h = sha1_Size \<Longrightarrow> HashFromHexString (Hash_String h) = Inr h"
  by (simp add: HashFromHexString_def Hash_String_def)

lemma parse_quoted_value:
  "CHR 0x22 \<notin> set x \<Longrightarrow>
     parseMultivalue_loop (x @ CHR 0x22 # es) True v = parseMultivalue_loop es False (v @ x)"
  by (induction x arbitrary: v) auto

definition quote_value :: "string \<Rightarrow> string" where
  "quote_value x = CHR 0x22 # x @ [CHR 0x22]"

lemma parse_quote_value:
  "CHR 0x22 \<notin> set x \<Longrightarrow>
     parseMultivalue_loop (quote_value x @ es) False v = parseMultivalue_loop es False (v @ x)"
  by (simp add: quote_value_def parse_quoted_value)

lemma parse_quoted_values:
  "vs \<noteq> [] \<Longrightarrow> \<forall>x\<in>set vs. CHR 0x22 \<notin> set x \<Longrightarrow>
     parseMultivalue_loop (Join (map quote_value vs) '' '') False [] = vs"
proof (induction vs)
  case Nil
  then show ?case by simp
next
  case (Cons x vs)
  show ?case
  proof (cases vs)
    case Nil
    with Cons.prems parse_quote_value[of x "[]" "[]"] show ?thesis by simp
  next
    case (Cons y ys)
    with Cons.prems Cons.IH show ?thesis by (simp add: parse_quote_value)
  qed
qed

lemma Join_quoted_ends:
  "vs \<noteq> [] \<Longrightarrow> hd (Join (map quote_value vs) '' '') = CHR 0x22 \<and>
     last (Join (map quote_value vs) '' '') = CHR 0x22 \<and> Join (map quote_value vs) '' '' \<noteq> []"
proof (induction vs)
  case (Cons x vs)
  then show ?case by (cases vs) (auto simp: quote_value_def)
qed simp

lemma prefix_single: "prefix [c] s \<longleftrightarrow> s \<noteq> [] \<and> hd s = c"
  by (cases s) auto

lemma suffix_single: "suffix [c] s \<longleftrightarrow> s \<noteq> [] \<and> last s = c"
  by (auto simp: suffix_def) (metis append_butlast_last_id)

lemma NewUnitNameInfo_None_iff: "NewUnitNameInfo un = None \<longleftrightarrow> CHR ''.'' \<notin> set un"
  by (simp add: NewUnitNameInfo_def Let_def LastIndexByte_None_iff[symmetric] split: option.splits)

text \<open>The parts of a name, on a name given by its parts.\<close>

lemma NewUnitNameInfo_plain:
  assumes "CHR ''.'' \<notin> set ext" "CHR ''@'' \<notin> set pre"
  shows "NewUnitNameInfo (pre @ CHR ''.'' # ext) =
    Some \<lparr>ni_FullName = pre @ CHR ''.'' # ext, ni_Name = pre, ni_Prefix = pre,
          ni_Template = [], ni_Instance = []\<rparr>"
  using assms by (simp add: NewUnitNameInfo_def LastIndexByte_append IndexByte_None_iff[THEN iffD2])

lemma NewUnitNameInfo_at:
  assumes "CHR ''.'' \<notin> set ext" "CHR ''@'' \<notin> set pre"
  shows "NewUnitNameInfo (pre @ CHR ''@'' # inst @ CHR ''.'' # ext) =
    Some \<lparr>ni_FullName = pre @ CHR ''@'' # inst @ CHR ''.'' # ext, ni_Name = pre @ CHR ''@'' # inst,
          ni_Prefix = pre, ni_Template = pre @ ''@'' @ CHR ''.'' # ext, ni_Instance = inst\<rparr>"
  using assms LastIndexByte_append[of "CHR ''.''" ext "pre @ CHR ''@'' # inst"]
  by (simp add: NewUnitNameInfo_def IndexByte_append)

text \<open>Every name with a dot has one of the two shapes.\<close>

lemma unit_name_cases:
  assumes "CHR ''.'' \<in> set un"
  obtains (plain) pre ext where "un = pre @ CHR ''.'' # ext" "CHR ''.'' \<notin> set ext" "CHR ''@'' \<notin> set pre"
    | (at) pre inst ext where "un = pre @ CHR ''@'' # inst @ CHR ''.'' # ext"
        "CHR ''.'' \<notin> set ext" "CHR ''@'' \<notin> set pre"
proof -
  from split_list_last[OF assms] obtain nm ext where un: "un = nm @ CHR ''.'' # ext" "CHR ''.'' \<notin> set ext"
    by blast
  show thesis
  proof (cases "CHR ''@'' \<in> set nm")
    case True
    from split_list_first[OF True] obtain pre inst where "nm = pre @ CHR ''@'' # inst" "CHR ''@'' \<notin> set pre"
      by blast
    with un at show ?thesis by simp
  next
    case False
    with un plain show ?thesis by blast
  qed
qed

lemma mapOptions_append: "mapOptions (xs @ [x]) = mapOptions_step x (mapOptions xs)"
  by (simp add: mapOptions_def)

definition option_values :: "UnitOption \<Rightarrow> string list" where
  "option_values opt = (if uo_Section opt = ''X-Fleet'' then parseMultivalueLine (uo_Value opt) else [uo_Value opt])"

text \<open>\<open>Contents[s][n]\<close> holds the values of the options of that section and name, in file order.\<close>

lemma mapOptions_get:
  "uf_get (NewUnitFromOptions opts) s n =
     concat (map option_values (filter (\<lambda>opt. uo_Section opt = s \<and> uo_Name opt = n) opts))"
proof (induction opts rule: rev_induct)
  case Nil
  then show ?case by (simp add: uf_get_def NewUnitFromOptions_def mapOptions_def)
next
  case (snoc x xs)
  have "uf_get (NewUnitFromOptions (xs @ [x])) s n =
    uf_get (NewUnitFromOptions xs) s n @
      (if uo_Section x = s \<and> uo_Name x = n then option_values x else [])"
    by (auto simp: uf_get_def NewUnitFromOptions_def mapOptions_append mapOptions_step_def Let_def
        option_values_def split: option.splits)
  with snoc show ?case by simp
qed

end
