(* ===== verification/Job_Model.thy ===== *)
theory Job_Model
  imports Unit_File
begin

text \<open>
  Package \<open>job\<close> (\<open>job/job.go\<close>): units, scheduled units and jobs, and the requirements a unit file
  states in its \<open>X-Fleet\<close> section: target machine, required metadata, peers, conflicts, replaces,
  global. \<open>JobState\<close> is a Go string; only three of its values are meaningful, but any string can
  occur in a unit that was never given a target state.
\<close>

type_synonym JobState = string

definition JobStateInactive :: JobState where "JobStateInactive = ''inactive''"
definition JobStateLoaded :: JobState where "JobStateLoaded = ''loaded''"
definition JobStateLaunched :: JobState where "JobStateLaunched = ''launched''"

lemmas JobState_defs = JobStateInactive_def JobStateLoaded_def JobStateLaunched_def

lemma JobState_distinct [simp]:
  "JobStateInactive \<noteq> JobStateLoaded" "JobStateLoaded \<noteq> JobStateInactive"
  "JobStateInactive \<noteq> JobStateLaunched" "JobStateLaunched \<noteq> JobStateInactive"
  "JobStateLoaded \<noteq> JobStateLaunched" "JobStateLaunched \<noteq> JobStateLoaded"
  by (simp_all add: JobState_defs)

datatype JobAction = JobActionSchedule | JobActionUnschedule | JobActionReschedule

definition ParseJobState :: "string \<Rightarrow> JobState \<times> string option" where
  "ParseJobState s =
     (if s \<noteq> JobStateInactive \<and> s \<noteq> JobStateLoaded \<and> s \<noteq> JobStateLaunched
      then (JobStateInactive, Some (''invalid value '' @ s @ '' for JobState''))
      else (s, None))"

section \<open>Data\<close>

record Job =
  j_Name :: string
  j_State :: "JobState option"
  j_TargetState :: JobState
  j_TargetMachineID :: string
  j_Unit :: UnitFile

record ScheduledUnit =
  su_Name :: string
  su_State :: "JobState option"
  su_TargetMachineID :: string

record Unit =
  u_Name :: string
  u_Unit :: UnitFile
  u_TargetState :: JobState

definition NewJob :: "string \<Rightarrow> UnitFile \<Rightarrow> Job" where
  "NewJob name uf =
     \<lparr>j_Name = name, j_State = None, j_TargetState = JobStateInactive, j_TargetMachineID = [],
      j_Unit = uf\<rparr>"

text \<open>The \<open>&Job{Name: u.Name, Unit: u.Unit}\<close> of the \<open>Unit\<close> methods: other fields are zero values.\<close>

definition job_of_unit :: "Unit \<Rightarrow> Job" where
  "job_of_unit u =
     \<lparr>j_Name = u_Name u, j_State = None, j_TargetState = [], j_TargetMachineID = [], j_Unit = u_Unit u\<rparr>"

section \<open>Requirements\<close>

definition fleetMachineID :: string where "fleetMachineID = ''MachineID''"
definition fleetMachineBootID :: string where "fleetMachineBootID = ''MachineBootID''"
definition fleetMachineOf :: string where "fleetMachineOf = ''MachineOf''"
definition fleetConflicts :: string where "fleetConflicts = ''Conflicts''"
definition fleetReplaces :: string where "fleetReplaces = ''Replaces''"
definition fleetMachineMetadata :: string where "fleetMachineMetadata = ''MachineMetadata''"
definition fleetGlobal :: string where "fleetGlobal = ''Global''"
definition deprecatedXPrefix :: string where "deprecatedXPrefix = ''X-''"
definition deprecatedXConditionPrefix :: string where "deprecatedXConditionPrefix = ''X-Condition''"

lemmas fleet_keys = fleetMachineID_def fleetMachineBootID_def fleetMachineOf_def fleetConflicts_def
  fleetReplaces_def fleetMachineMetadata_def fleetGlobal_def deprecatedXPrefix_def
  deprecatedXConditionPrefix_def

definition validRequirements :: unsafeSet where
  "validRequirements = NewUnsafeSet
     [fleetMachineID,
      deprecatedXConditionPrefix @ fleetMachineID,
      deprecatedXConditionPrefix @ fleetMachineBootID,
      deprecatedXConditionPrefix @ fleetMachineOf,
      fleetMachineOf,
      deprecatedXPrefix @ fleetConflicts,
      fleetConflicts,
      deprecatedXConditionPrefix @ fleetMachineMetadata,
      fleetMachineMetadata,
      fleetGlobal,
      fleetReplaces]"

definition unitPrintf :: "string \<Rightarrow> UnitNameInfo \<Rightarrow> string" where
  "unitPrintf s nu =
     (let out = ReplaceAll s ''%n'' (ni_FullName nu);
          out = ReplaceAll out ''%N'' (ni_Name nu);
          out = ReplaceAll out ''%p'' (ni_Prefix nu)
      in ReplaceAll out ''%i'' (ni_Instance nu))"

definition isTruthyValue :: "string \<Rightarrow> bool" where
  "isTruthyValue s =
     (let chl = ToLower s in
      chl = ''true'' \<or> chl = ''yes'' \<or> chl = ''1'' \<or> chl = ''on'' \<or> chl = ''t'')"

definition splitCombine :: "string list \<Rightarrow> string list" where
  "splitCombine inStrs = concat (map Fields inStrs)"

text \<open>
  \<open>requirements\<close> copies the \<open>X-Fleet\<close> section, expanding the specifiers of every value when the
  job's name is a unit name.
\<close>

definition requirements :: "Job \<Rightarrow> (string, string list) gmap" where
  "requirements j =
     (let uni = NewUnitNameInfo (j_Name j);
          section = (case map_of (uf_Contents (j_Unit j)) ''X-Fleet'' of None \<Rightarrow> [] | Some m \<Rightarrow> m)
      in map (\<lambda>(key, values).
            (key, case uni of Some nu \<Rightarrow> map (\<lambda>v. unitPrintf v nu) values | None \<Rightarrow> values)) section)"

text \<open>\<open>requirements()[key]\<close>: the nil slice when the key is absent.\<close>

definition requirement :: "Job \<Rightarrow> string \<Rightarrow> string list" where
  "requirement j key = (case map_of (requirements j) key of None \<Rightarrow> [] | Some vs \<Rightarrow> vs)"

definition ValidateRequirements :: "range_order \<Rightarrow> Job \<Rightarrow> string option" where
  "ValidateRequirements ord j =
     (case List.find (\<lambda>key. \<not> us_Contains validRequirements key)
             (ord [''ValidateRequirements''] (gkeys (requirements j))) of
        Some key \<Rightarrow> Some (''unrecognized requirement in [X-Fleet] section: '' @ key)
      | None \<Rightarrow> None)"

definition Conflicts :: "Job \<Rightarrow> string list" where
  "Conflicts j =
     splitCombine (requirement j (deprecatedXPrefix @ fleetConflicts)) @
     splitCombine (requirement j fleetConflicts)"

definition Replaces :: "Job \<Rightarrow> string list" where
  "Replaces j = requirement j fleetReplaces"

definition Peers :: "Job \<Rightarrow> string list" where
  "Peers j =
     requirement j (deprecatedXConditionPrefix @ fleetMachineOf) @ requirement j fleetMachineOf"

definition RequiredTarget :: "Job \<Rightarrow> string option" where
  "RequiredTarget j =
     (case requirement j fleetMachineID of
        m # _ \<Rightarrow> Some m
      | [] \<Rightarrow>
          (case requirement j (deprecatedXConditionPrefix @ fleetMachineID) of
             m # _ \<Rightarrow> Some m
           | [] \<Rightarrow>
               (case requirement j (deprecatedXConditionPrefix @ fleetMachineBootID) of
                  m # _ \<Rightarrow> Some m
                | [] \<Rightarrow> None)))"

definition metadata_step :: "string \<Rightarrow> (string, unsafeSet) gmap \<Rightarrow> (string, unsafeSet) gmap" where
  "metadata_step valuePair metadata =
     (case Split valuePair CHR ''='' of
        [k, v] \<Rightarrow>
          if length k = 0 \<or> length v = 0 then metadata
          else let old = (case map_of metadata k of None \<Rightarrow> NewUnsafeSet [] | Some s \<Rightarrow> s)
               in gput k (us_Add v old) metadata
      | _ \<Rightarrow> metadata)"

definition RequiredTargetMetadata :: "Job \<Rightarrow> (string, unsafeSet) gmap" where
  "RequiredTargetMetadata j =
     fold metadata_step
       (requirement j (deprecatedXConditionPrefix @ fleetMachineMetadata) @
        requirement j fleetMachineMetadata) []"

definition Scheduled :: "Job \<Rightarrow> bool" where
  "Scheduled j = (length (j_TargetMachineID j) > 0)"

section \<open>The same questions asked of a Unit\<close>

definition IsGlobal :: "Unit \<Rightarrow> bool" where
  "IsGlobal u =
     (let values = requirement (job_of_unit u) fleetGlobal in
      if length values = 0 then False else isTruthyValue (last values))"

definition Unit_Conflicts :: "Unit \<Rightarrow> string list" where
  "Unit_Conflicts u = Conflicts (job_of_unit u)"

definition Unit_Replaces :: "Unit \<Rightarrow> string list" where
  "Unit_Replaces u = Replaces (job_of_unit u)"

definition Unit_Peers :: "Unit \<Rightarrow> string list" where
  "Unit_Peers u = Peers (job_of_unit u)"

definition Unit_RequiredTarget :: "Unit \<Rightarrow> string option" where
  "Unit_RequiredTarget u = RequiredTarget (job_of_unit u)"

definition Unit_RequiredTargetMetadata :: "Unit \<Rightarrow> (string, unsafeSet) gmap" where
  "Unit_RequiredTargetMetadata u = RequiredTargetMetadata (job_of_unit u)"

section \<open>Lemmas\<close>

text \<open>The requirements depend on a job's name and unit file only.\<close>

lemma requirement_cong: "j_Name j = j_Name j' \<Longrightarrow> j_Unit j = j_Unit j' \<Longrightarrow> requirement j = requirement j'"
  by (simp add: requirement_def requirements_def fun_eq_iff)

lemma job_requirements_cong:
  assumes "j_Name j = j_Name j'" "j_Unit j = j_Unit j'"
  shows "Conflicts j = Conflicts j'" "Replaces j = Replaces j'" "Peers j = Peers j'"
    "RequiredTarget j = RequiredTarget j'" "RequiredTargetMetadata j = RequiredTargetMetadata j'"
  unfolding Conflicts_def Replaces_def Peers_def RequiredTarget_def RequiredTargetMetadata_def
    requirement_cong[OF assms]
  by (rule refl)+

lemma requirement_get:
  "requirement j key =
     (case NewUnitNameInfo (j_Name j) of
        Some nu \<Rightarrow> map (\<lambda>v. unitPrintf v nu) (uf_get (j_Unit j) ''X-Fleet'' key)
      | None \<Rightarrow> uf_get (j_Unit j) ''X-Fleet'' key)"
proof -
  have map_of_map_snd: "map_of (map (\<lambda>(k, vs). (k, f vs)) m) key = map_option f (map_of m key)"
    for f :: "string list \<Rightarrow> string list" and m
    by (induction m) auto
  show ?thesis
    by (auto simp: requirement_def requirements_def uf_get_def Let_def map_of_map_snd
        split: option.splits)
qed

lemma splitCombine_words:
  "w \<in> set (splitCombine xs) \<Longrightarrow> w \<noteq> [] \<and> list_all (\<lambda>c. \<not> IsSpace c) w"
  by (auto simp: splitCombine_def dest!: Fields_words)

definition metadata_pair :: "string \<Rightarrow> string \<Rightarrow> string \<Rightarrow> bool" where
  "metadata_pair p k v \<longleftrightarrow> p = k @ CHR ''='' # v \<and> CHR ''='' \<notin> set k \<and> CHR ''='' \<notin> set v \<and> k \<noteq> [] \<and> v \<noteq> []"

lemma metadata_pair_Split:
  "metadata_pair p k v \<longleftrightarrow> Split p CHR ''='' = [k, v] \<and> k \<noteq> [] \<and> v \<noteq> []"
  by (auto simp: metadata_pair_def Split_two_iff)

text \<open>The values required for a key: none when the key carries no requirement.\<close>

definition required_values :: "(string, unsafeSet) gmap \<Rightarrow> string \<Rightarrow> string set" where
  "required_values m k = (case map_of m k of None \<Rightarrow> {} | Some s \<Rightarrow> us_elems s)"

definition metadata_inv :: "(string, unsafeSet) gmap \<Rightarrow> bool" where
  "metadata_inv m \<longleftrightarrow> gmap_ok m \<and> (\<forall>k s. map_of m k = Some s \<longrightarrow> us_inv s \<and> us_elems s \<noteq> {})"

lemma required_values_empty_iff: "metadata_inv m \<Longrightarrow> required_values m k = {} \<longleftrightarrow> map_of m k = None"
  by (auto simp: required_values_def metadata_inv_def split: option.splits)

lemma metadata_step_spec:
  assumes "metadata_inv m"
  shows "metadata_inv (metadata_step p m) \<and>
    required_values (metadata_step p m) k = required_values m k \<union> {v. metadata_pair p k v}"
proof (cases "\<exists>a b. Split p CHR ''='' = [a, b] \<and> a \<noteq> [] \<and> b \<noteq> []")
  case True
  then obtain a b where ab: "Split p CHR ''='' = [a, b]" "a \<noteq> []" "b \<noteq> []" by blast
  define old where "old = (case map_of m a of None \<Rightarrow> NewUnsafeSet [] | Some s \<Rightarrow> s)"
  have step: "metadata_step p m = gput a (us_Add b old) m"
    using ab by (simp add: metadata_step_def Let_def old_def)
  have old: "us_inv old" "us_elems old = required_values m a"
    using assms NewUnsafeSet_spec[of "[]"]
    by (auto simp: old_def metadata_inv_def required_values_def split: option.splits)
  have "{v. metadata_pair p k v} = (if k = a then {b} else {})"
    using ab by (auto simp: metadata_pair_Split)
  with old assms show ?thesis
    unfolding step by (auto simp: metadata_inv_def required_values_def us_Add_inv us_Add_elems)
next
  case False
  then have "{v. metadata_pair p k v} = {}"
    by (auto simp: metadata_pair_Split)
  moreover have "metadata_step p m = m"
    using False by (auto simp: metadata_step_def split: list.splits)
  ultimately show ?thesis using assms by simp
qed

lemma metadata_fold_spec:
  "metadata_inv m \<Longrightarrow> metadata_inv (fold metadata_step ps m) \<and>
     required_values (fold metadata_step ps m) k =
       required_values m k \<union> {v. \<exists>p\<in>set ps. metadata_pair p k v}"
proof (induction ps arbitrary: m)
  case Nil
  then show ?case by simp
next
  case (Cons p ps)
  from metadata_step_spec[OF Cons.prems, of p k] Cons.IH[of "metadata_step p m"] show ?case by auto
qed

lemma metadata_inv_Nil [simp]: "metadata_inv []"
  by (simp add: metadata_inv_def)

lemma RequiredTargetMetadata_inv: "metadata_inv (RequiredTargetMetadata j)"
  unfolding RequiredTargetMetadata_def using metadata_fold_spec[OF metadata_inv_Nil] by blast

lemma RequiredTargetMetadata_values:
  "required_values (RequiredTargetMetadata j) k =
     {v. \<exists>p \<in> set (requirement j (deprecatedXConditionPrefix @ fleetMachineMetadata)) \<union>
              set (requirement j fleetMachineMetadata). metadata_pair p k v}"
  unfolding RequiredTargetMetadata_def
  using metadata_fold_spec[OF metadata_inv_Nil, of
      "requirement j (deprecatedXConditionPrefix @ fleetMachineMetadata) @ requirement j fleetMachineMetadata" k]
  by (simp add: required_values_def[of "[]"])

end
