(* ===== verification/Machine_State.thy ===== *)
theory Machine_State
  imports Job_Model
begin

text \<open>
  Package \<open>machine\<close>: the state a machine publishes (\<open>machine/state.go\<close>), its capabilities
  (\<open>machine/capabilities.go\<close>) and the test of its metadata against a unit's requirements
  (\<open>machine/machine.go\<close>). A nil Go map is the empty map.
\<close>

type_synonym Capabilities = "(string, bool) gmap"

record MachineState =
  ms_ID :: string
  ms_PublicIP :: string
  ms_Metadata :: "(string, string) gmap"
  ms_Capabilities :: Capabilities
  ms_Version :: string

definition CapGRPC :: string where "CapGRPC = ''GRPC''"
definition CapDISABLE_ENGINE :: string where "CapDISABLE_ENGINE = ''DISABLE_ENGINE''"

definition Capabilities_Has :: "Capabilities \<Rightarrow> string \<Rightarrow> bool" where
  "Capabilities_Has c capability = (case map_of c capability of Some has \<Rightarrow> has | None \<Rightarrow> False)"

definition shortIDLen :: nat where "shortIDLen = 8"

definition ShortID :: "MachineState \<Rightarrow> string" where
  "ShortID ms = (if length (ms_ID ms) \<le> shortIDLen then ms_ID ms else take shortIDLen (ms_ID ms))"

definition MatchID :: "MachineState \<Rightarrow> string \<Rightarrow> bool" where
  "MatchID ms i = (ms_ID ms = i \<or> ShortID ms = i)"

definition stackState :: "MachineState \<Rightarrow> MachineState \<Rightarrow> MachineState" where
  "stackState tp btm =
     (let state = btm;
          state = (if ms_PublicIP tp \<noteq> [] then state\<lparr>ms_PublicIP := ms_PublicIP tp\<rparr> else state);
          state = (if ms_ID tp \<noteq> [] then state\<lparr>ms_ID := ms_ID tp\<rparr> else state);
          state = (if length (ms_Metadata tp) > 0 then state\<lparr>ms_Metadata := ms_Metadata tp\<rparr> else state);
          state = (if length (ms_Capabilities tp) > 0
                   then state\<lparr>ms_Capabilities := ms_Capabilities tp\<rparr> else state)
      in if ms_Version tp \<noteq> [] then state\<lparr>ms_Version := ms_Version tp\<rparr> else state)"

text \<open>
  \<open>HasMetadata\<close> leaves its loop at the first key that fails; the answer does not depend on the order
  in which the keys are visited.
\<close>

definition HasMetadata :: "MachineState \<Rightarrow> (string, unsafeSet) gmap \<Rightarrow> bool" where
  "HasMetadata state metadata =
     list_all (\<lambda>(key, values).
        case map_of (ms_Metadata state) key of
          None \<Rightarrow> False
        | Some lcl \<Rightarrow> us_Contains values lcl) metadata"

lemma HasMetadata_iff:
  assumes "metadata_inv md"
  shows "HasMetadata ms md \<longleftrightarrow>
    (\<forall>k. required_values md k \<noteq> {} \<longrightarrow>
       (\<exists>v. map_of (ms_Metadata ms) k = Some v \<and> v \<in> required_values md k))"
proof -
  have ok: "gmap_ok md" using assms by (simp add: metadata_inv_def)
  have "HasMetadata ms md \<longleftrightarrow>
    (\<forall>k s. map_of md k = Some s \<longrightarrow> (\<exists>v. map_of (ms_Metadata ms) k = Some v \<and> v \<in> us_elems s))"
    by (fastforce simp: HasMetadata_def list_all_iff us_Contains_iff gmap_mem_iff[OF ok, symmetric]
        split: option.splits)
  also have "\<dots> \<longleftrightarrow> (\<forall>k. required_values md k \<noteq> {} \<longrightarrow>
       (\<exists>v. map_of (ms_Metadata ms) k = Some v \<and> v \<in> required_values md k))"
    using assms by (auto simp: required_values_def metadata_inv_def split: option.splits)
  finally show ?thesis .
qed

lemma HasMetadata_Nil [simp]: "HasMetadata ms []"
  by (simp add: HasMetadata_def)

end
