(* ===== verification/Go_Path.thy ===== *)
theory Go_Path
  imports Go_Strings
begin

text \<open>
  Go's \<open>path.Match\<close>, the shell pattern matcher behind the \<open>Conflicts\<close> and \<open>Replaces\<close> options. The
  functions below follow the library: \<open>scanChunk\<close> cuts the pattern at its stars, \<open>matchChunk\<close>
  matches one star-free piece at a fixed position, \<open>Match\<close> slides each piece that follows a star
  over the name, never past a slash. A malformed pattern is the error \<open>ErrBadPattern\<close>.

  The second half gives patterns a declarative meaning (\<open>globs\<close>, an inductive relation) and shows
  that a match reported by the algorithm is a match in that sense, and that literal patterns and
  patterns ending in a star are matched exactly.
\<close>

datatype 'a match_result = ErrBadPattern | NoMatch | Matched 'a

section \<open>The algorithm\<close>

fun skip_stars :: "string \<Rightarrow> bool \<times> string" where
  "skip_stars [] = (False, [])"
| "skip_stars (c # cs) = (if c = CHR ''*'' then (True, snd (skip_stars cs)) else (False, c # cs))"

fun scan_to_star :: "bool \<Rightarrow> string \<Rightarrow> string \<times> string" where
  "scan_to_star inrange [] = ([], [])"
| "scan_to_star inrange [c] = (if c = CHR ''*'' \<and> \<not> inrange then ([], [c]) else ([c], []))"
| "scan_to_star inrange (c # d # cs) =
     (if c = CHR 0x5C then apfst (\<lambda>a. c # d # a) (scan_to_star inrange cs)
      else if c = CHR ''['' then apfst (Cons c) (scan_to_star True (d # cs))
      else if c = CHR '']'' then apfst (Cons c) (scan_to_star False (d # cs))
      else if c = CHR ''*'' \<and> \<not> inrange then ([], c # d # cs)
      else apfst (Cons c) (scan_to_star inrange (d # cs)))"

definition scanChunk :: "string \<Rightarrow> bool \<times> string \<times> string" where
  "scanChunk pat = (case skip_stars pat of (star, p) \<Rightarrow> (star, scan_to_star False p))"

definition getEsc :: "string \<Rightarrow> (char \<times> string) option" where
  "getEsc chunk =
     (case chunk of
        [] \<Rightarrow> None
      | c # cs \<Rightarrow>
          if c = CHR ''-'' \<or> c = CHR '']'' then None
          else (case (if c = CHR 0x5C then cs else chunk) of
                  [] \<Rightarrow> None
                | [r] \<Rightarrow> None
                | r # rest \<Rightarrow> Some (r, rest)))"

lemma getEsc_shorter: "getEsc chunk = Some (r, rest) \<Longrightarrow> rest \<noteq> [] \<and> length rest < length chunk"
  by (auto simp: getEsc_def split: list.splits if_splits)

lemma getEsc_tl_shorter:
  assumes "getEsc chunk = Some (r, rest)" and "getEsc (tl rest) = Some (r', rest')"
  shows "length rest' < length chunk"
  using getEsc_shorter[OF assms(1)] getEsc_shorter[OF assms(2)] by auto

text \<open>The loop over the ranges of a character class, after the opening bracket and the caret.\<close>

function class_loop :: "char \<Rightarrow> bool \<Rightarrow> nat \<Rightarrow> string \<Rightarrow> (bool \<times> string) option" where
  "class_loop r mtch nrange chunk =
     (if chunk \<noteq> [] \<and> hd chunk = CHR '']'' \<and> nrange > 0 then Some (mtch, tl chunk)
      else (case getEsc chunk of
              None \<Rightarrow> None
            | Some (lo, rest) \<Rightarrow>
                if hd rest = CHR ''-'' then
                  (case getEsc (tl rest) of
                     None \<Rightarrow> None
                   | Some (hi, rest') \<Rightarrow>
                       class_loop r (mtch \<or> (lo \<le> r \<and> r \<le> hi)) (Suc nrange) rest')
                else class_loop r (mtch \<or> lo = r) (Suc nrange) rest))"
  by pat_completeness auto
termination
  by (relation "measure (\<lambda>(r, mtch, nrange, chunk). length chunk)")
     (auto dest: getEsc_shorter intro: getEsc_tl_shorter)

declare class_loop.simps [simp del]

definition matchClass :: "char \<Rightarrow> string \<Rightarrow> string match_result" where
  "matchClass r chunk =
     (let negated = (chunk \<noteq> [] \<and> hd chunk = CHR ''^'');
          body = (if negated then tl chunk else chunk)
      in case class_loop r False 0 body of
           None \<Rightarrow> ErrBadPattern
         | Some (mtch, rest) \<Rightarrow> if mtch = negated then NoMatch else Matched rest)"

text \<open>\<open>matchChunk chunk s\<close>: the rest of \<open>s\<close> when \<open>chunk\<close> matches a prefix of it.\<close>

function matchChunk :: "string \<Rightarrow> string \<Rightarrow> string match_result" where
  "matchChunk [] s = Matched s"
| "matchChunk (c # chunk) [] = NoMatch"
| "matchChunk (c # chunk) (x # s) =
     (if c = CHR ''['' then
        (case matchClass x chunk of
           ErrBadPattern \<Rightarrow> ErrBadPattern
         | NoMatch \<Rightarrow> NoMatch
         | Matched rest \<Rightarrow> matchChunk rest s)
      else if c = CHR ''?'' then
        (if x = CHR ''/'' then NoMatch else matchChunk chunk s)
      else if c = CHR 0x5C then
        (case chunk of
           [] \<Rightarrow> ErrBadPattern
         | d # chunk' \<Rightarrow> if d = x then matchChunk chunk' s else NoMatch)
      else if c = x then matchChunk chunk s else NoMatch)"
  by pat_completeness auto
termination
  by (relation "measure (\<lambda>(chunk, s). length s)") auto

text \<open>
  One attempt of \<open>Match\<close> at a position: the last chunk (\<open>lst\<close>) must also exhaust the name.
\<close>

definition matchAt :: "string \<Rightarrow> bool \<Rightarrow> string \<Rightarrow> string match_result" where
  "matchAt chunk lst name =
     (case matchChunk chunk name of
        Matched t \<Rightarrow> if lst \<and> t \<noteq> [] then NoMatch else Matched t
      | r \<Rightarrow> r)"

text \<open>The positions a star may skip to: after each leading non-slash byte.\<close>

fun star_loop :: "string \<Rightarrow> bool \<Rightarrow> string \<Rightarrow> string match_result" where
  "star_loop chunk lst [] = NoMatch"
| "star_loop chunk lst (x # name) =
     (if x = CHR ''/'' then NoMatch
      else (case matchAt chunk lst name of NoMatch \<Rightarrow> star_loop chunk lst name | r \<Rightarrow> r))"

definition matchFrom :: "bool \<Rightarrow> string \<Rightarrow> bool \<Rightarrow> string \<Rightarrow> string match_result" where
  "matchFrom star chunk lst name =
     (case matchAt chunk lst name of
        NoMatch \<Rightarrow> if star then star_loop chunk lst name else NoMatch
      | r \<Rightarrow> r)"

lemma scan_to_star_length: "length (fst (scan_to_star b p)) + length (snd (scan_to_star b p)) = length p"
  by (induction b p rule: scan_to_star.induct) simp_all

lemma scanChunk_shorter:
  assumes "(star, chunk, rest) = scanChunk pat" and "pat \<noteq> []" and "\<not> (star \<and> chunk = [])"
  shows "length rest < length pat"
proof (cases pat)
  case Nil
  with assms(2) show ?thesis by simp
next
  case (Cons c cs)
  have rest: "rest = snd (snd (scanChunk pat))"
    using assms(1) by (metis snd_conv)
  have skip: "length (snd (skip_stars p)) \<le> length p" for p
    by (induction p) auto
  show ?thesis
  proof (cases "c = CHR ''*''")
    case True
    have "length (snd (scan_to_star False (snd (skip_stars cs)))) \<le> length (snd (skip_stars cs))"
      using scan_to_star_length[of False "snd (skip_stars cs)"] by linarith
    with True Cons skip[of cs] show ?thesis
      by (simp add: rest scanChunk_def)
  next
    case False
    then have "fst (scan_to_star False (c # cs)) \<noteq> []"
      by (cases cs) simp_all
    then have "length (snd (scan_to_star False (c # cs))) < length (c # cs)"
      using scan_to_star_length[of False "c # cs"] by (cases "fst (scan_to_star False (c # cs))") auto
    with False Cons show ?thesis
      by (simp add: rest scanChunk_def)
  qed
qed

function Match :: "string \<Rightarrow> string \<Rightarrow> bool match_result" where
  "Match pat name =
     (if pat = [] then Matched (name = [])
      else (case scanChunk pat of (star, chunk, rest) \<Rightarrow>
        if star \<and> chunk = [] then Matched (CHR ''/'' \<notin> set name)
        else (case matchFrom star chunk (rest = []) name of
                Matched t \<Rightarrow> Match rest t
              | ErrBadPattern \<Rightarrow> ErrBadPattern
              | NoMatch \<Rightarrow> Matched False)))"
  by pat_completeness auto
termination
  by (relation "measure (\<lambda>(pat, name). length pat)") (auto intro: scanChunk_shorter)

declare Match.simps [simp del]

section \<open>What a match means\<close>

text \<open>
  A star-free piece consumes one byte of the name per pattern item; \<open>item\<close> is one such item with
  the bytes it admits.
\<close>

inductive item :: "string \<Rightarrow> char \<Rightarrow> string \<Rightarrow> bool" where
  lit: "c \<noteq> CHR ''['' \<Longrightarrow> c \<noteq> CHR ''?'' \<Longrightarrow> c \<noteq> CHR 0x5C \<Longrightarrow> item (c # rest) c rest"
| esc: "item (CHR 0x5C # c # rest) c rest"
| any: "x \<noteq> CHR ''/'' \<Longrightarrow> item (CHR ''?'' # rest) x rest"
| cls: "matchClass x chunk = Matched rest \<Longrightarrow> item (CHR ''['' # chunk) x rest"

inductive globs :: "string \<Rightarrow> string \<Rightarrow> bool" where
  globs_Nil: "globs [] []"
| globs_star: "CHR ''/'' \<notin> set xs \<Longrightarrow> globs pat ys \<Longrightarrow> globs (CHR ''*'' # pat) (xs @ ys)"
| globs_item: "item pat x rest \<Longrightarrow> globs rest ys \<Longrightarrow> globs pat (x # ys)"


inductive_simps globs_Nil_iff: "globs [] s"

lemma getEsc_append: "getEsc chunk = Some (r, rest) \<Longrightarrow> getEsc (chunk @ p) = Some (r, rest @ p)"
  by (auto simp: getEsc_def split: list.splits if_splits)

lemma class_loop_append:
  "class_loop r mtch n chunk = Some (b, rest) \<Longrightarrow>
     class_loop r mtch n (chunk @ p) = Some (b, rest @ p)"
proof (induction r mtch n chunk rule: class_loop.induct)
  case (1 r mtch n chunk)
  show ?case
  proof (cases "chunk \<noteq> [] \<and> hd chunk = CHR '']'' \<and> n > 0")
    case True
    with "1.prems" show ?thesis
      by (simp add: class_loop.simps[of r _ n chunk] class_loop.simps[of r _ n "chunk @ p"])
  next
    case False
    with "1.prems" obtain lo rst where esc: "getEsc chunk = Some (lo, rst)"
      by (subst (asm) class_loop.simps) (auto split: option.splits)
    from getEsc_shorter[OF esc] have rst: "rst \<noteq> []" "chunk \<noteq> []" by auto
    have "\<not> (chunk @ p \<noteq> [] \<and> hd (chunk @ p) = CHR '']'' \<and> n > 0)"
      using False rst by simp
    then have unfold2: "class_loop r mtch n (chunk @ p) =
        (if hd rst = CHR ''-'' then
           (case getEsc (tl rst @ p) of
              None \<Rightarrow> None
            | Some (hi, rst') \<Rightarrow> class_loop r (mtch \<or> (lo \<le> r \<and> r \<le> hi)) (Suc n) rst')
         else class_loop r (mtch \<or> lo = r) (Suc n) (rst @ p))"
      using rst by (subst class_loop.simps) (auto simp: getEsc_append[OF esc])
    have unfold1: "class_loop r mtch n chunk =
        (if hd rst = CHR ''-'' then
           (case getEsc (tl rst) of
              None \<Rightarrow> None
            | Some (hi, rst') \<Rightarrow> class_loop r (mtch \<or> (lo \<le> r \<and> r \<le> hi)) (Suc n) rst')
         else class_loop r (mtch \<or> lo = r) (Suc n) rst)"
      using False by (subst class_loop.simps) (auto simp: esc)
    show ?thesis
    proof (cases "hd rst = CHR ''-''")
      case True
      with "1.prems" unfold1 obtain hi rst' where esc': "getEsc (tl rst) = Some (hi, rst')"
        by (auto split: option.splits)
      with "1.IH"(1)[OF False esc refl True esc' refl] "1.prems" True getEsc_append[OF esc', of p]
        unfold1 unfold2
      show ?thesis by simp
    next
      case False2: False
      with "1.IH"(2)[OF False esc refl False2] "1.prems" unfold1 unfold2
      show ?thesis by simp
    qed
  qed
qed

lemma class_loop_Nil: "class_loop r mtch n [] = None"
  by (simp add: class_loop.simps getEsc_def)

lemma matchClass_append:
  assumes "matchClass x chunk = Matched rest"
  shows "matchClass x (chunk @ p) = Matched (rest @ p)"
proof (cases chunk)
  case Nil
  with assms show ?thesis by (simp add: matchClass_def class_loop_Nil)
next
  case (Cons a l)
  with assms obtain m where
    "class_loop x False 0 (if a = CHR ''^'' then l else chunk) = Some (m, rest)" "m \<noteq> (a = CHR ''^'')"
    by (auto simp: matchClass_def Let_def split: option.splits if_splits)
  with Cons class_loop_append[of x False 0 l m rest p] class_loop_append[of x False 0 chunk m rest p]
  show ?thesis
    by (auto simp: matchClass_def Let_def split: if_splits)
qed

lemma matchChunk_globs:
  "matchChunk chunk s = Matched t \<Longrightarrow> globs rest t \<Longrightarrow> globs (chunk @ rest) s"
proof (induction chunk s rule: matchChunk.induct)
  case (3 c chunk x s)
  then show ?case
    by (auto split: if_splits match_result.splits list.splits
        intro!: globs_item intro: item.intros dest: matchClass_append)
qed auto

lemma matchAt_MatchedD: "matchAt chunk lst name = Matched t \<Longrightarrow> matchChunk chunk name = Matched t"
  by (auto simp: matchAt_def split: match_result.splits if_splits)

lemma star_loop_position:
  "star_loop chunk lst name = Matched t \<Longrightarrow>
     \<exists>xs ys. name = xs @ ys \<and> CHR ''/'' \<notin> set xs \<and> matchChunk chunk ys = Matched t"
proof (induction name)
  case Nil
  then show ?case by simp
next
  case (Cons x name)
  from Cons.prems have x: "x \<noteq> CHR ''/''" by auto
  consider "matchChunk chunk name = Matched t" | "star_loop chunk lst name = Matched t"
    using Cons.prems by (auto split: if_splits match_result.splits dest: matchAt_MatchedD)
  then show ?case
  proof cases
    case 1
    with x show ?thesis by (intro exI[of _ "[x]"] exI[of _ name]) simp
  next
    case 2
    with Cons.IH obtain xs ys where "name = xs @ ys" "CHR ''/'' \<notin> set xs"
      "matchChunk chunk ys = Matched t" by blast
    with x show ?thesis by (intro exI[of _ "x # xs"] exI[of _ ys]) simp
  qed
qed

lemma matchFrom_position:
  assumes "matchFrom star chunk lst name = Matched t"
  shows "\<exists>xs ys. name = xs @ ys \<and> CHR ''/'' \<notin> set xs \<and> (\<not> star \<longrightarrow> xs = []) \<and>
           matchChunk chunk ys = Matched t"
proof (cases "matchAt chunk lst name")
  case NoMatch
  with assms star_loop_position[of chunk lst name t] show ?thesis
    by (auto simp: matchFrom_def split: if_splits)
next
  case (Matched t')
  with assms matchAt_MatchedD[of chunk lst name t] show ?thesis
    by (intro exI[of _ "[]"] exI[of _ name]) (simp add: matchFrom_def)
qed (use assms in \<open>simp add: matchFrom_def\<close>)

lemma scanChunk_parts:
  assumes "scanChunk pat = (star, chunk, rest)"
  shows "\<exists>n. pat = replicate n CHR ''*'' @ chunk @ rest \<and> (star \<longleftrightarrow> n > 0)"
proof -
  have "\<exists>n. p = replicate n CHR ''*'' @ snd (skip_stars p) \<and> (fst (skip_stars p) \<longleftrightarrow> n > 0)" for p
  proof (induction p)
    case Nil
    then show ?case by simp
  next
    case (Cons c cs)
    then obtain n where "cs = replicate n CHR ''*'' @ snd (skip_stars cs)" by blast
    then show ?case
      by (cases "c = CHR ''*''") (auto intro: exI[of _ "Suc n"])
  qed
  moreover have "fst (scan_to_star b p) @ snd (scan_to_star b p) = p" for b p
    by (induction b p rule: scan_to_star.induct) simp_all
  ultimately show ?thesis
    using assms by (auto simp: scanChunk_def split: prod.splits) (metis fst_conv snd_conv)
qed

lemma scanChunk_empty:
  assumes "scanChunk pat = (star, [], rest)"
  shows "rest = []"
proof -
  have skip: "snd (skip_stars p) = [] \<or> hd (snd (skip_stars p)) \<noteq> CHR ''*''" for p
    by (induction p) auto
  have "fst (scan_to_star False q) = [] \<Longrightarrow> q = [] \<or> hd q = CHR ''*''" for q
    by (induction "False" q rule: scan_to_star.induct) (auto split: if_splits)
  then have "fst (scan_to_star False q) = [] \<Longrightarrow> q = [] \<or> hd q \<noteq> CHR ''*'' \<Longrightarrow> snd (scan_to_star False q) = []" for q
    by force
  with skip[of pat] assms show ?thesis
    by (auto simp: scanChunk_def split: prod.splits) (metis fst_conv snd_conv)
qed

lemma globs_stars:
  "n > 0 \<Longrightarrow> CHR ''/'' \<notin> set xs \<Longrightarrow> globs pat ys \<Longrightarrow> globs (replicate n CHR ''*'' @ pat) (xs @ ys)"
proof (induction n)
  case 0
  then show ?case by simp
next
  case (Suc n)
  show ?case
  proof (cases n)
    case 0
    with Suc.prems show ?thesis by (simp add: globs_star)
  next
    case (Suc m)
    with Suc.IH Suc.prems have "globs (replicate n CHR ''*'' @ pat) (xs @ ys)" by simp
    from globs_star[OF _ this, of "[]"] show ?thesis by simp
  qed
qed

text \<open>The algorithm only reports matches that the declarative reading admits.\<close>

lemma Match_sound: "Match pat name = Matched True \<Longrightarrow> globs pat name"
proof (induction pat name rule: Match.induct)
  case (1 pat name)
  show ?case
  proof (cases "pat = []")
    case True
    with "1.prems" show ?thesis by (simp add: Match.simps globs.intros)
  next
    case False
    obtain star chunk rest where scan: "scanChunk pat = (star, chunk, rest)"
      by (cases "scanChunk pat") auto
    then obtain n where pat: "pat = replicate n CHR ''*'' @ chunk @ rest" and n: "star \<longleftrightarrow> n > 0"
      using scanChunk_parts by blast
    show ?thesis
    proof (cases "star \<and> chunk = []")
      case True
      with "1.prems" False scan have "CHR ''/'' \<notin> set name" by (simp add: Match.simps)
      moreover have "rest = []"
        using True scan by (simp add: scanChunk_empty)
      ultimately show ?thesis
        using globs_stars[of n name "[]" "[]"] True n pat by (simp add: globs_Nil)
    next
      case nonempty: False
      with "1.prems" False scan obtain t where
        t: "matchFrom star chunk (rest = []) name = Matched t" "Match rest t = Matched True"
        by (subst (asm) Match.simps) (auto split: match_result.splits)
      then have "globs rest t"
        using "1.IH"[OF False scan[symmetric] refl nonempty] by blast
      moreover obtain xs ys where "name = xs @ ys" "CHR ''/'' \<notin> set xs" "\<not> star \<longrightarrow> xs = []"
        "matchChunk chunk ys = Matched t"
        using matchFrom_position[OF t(1)] by blast
      ultimately show ?thesis
        using n pat globs_stars[of n xs "chunk @ rest" ys] matchChunk_globs[of chunk ys t rest]
        by (cases star) auto
    qed
  qed
qed

section \<open>Literal patterns and trailing stars\<close>

definition literal_pattern :: "string \<Rightarrow> bool" where
  "literal_pattern p = list_all (\<lambda>c. c \<notin> {CHR ''*'', CHR ''?'', CHR ''['', CHR 0x5C}) p"

lemma scan_literal:
  "literal_pattern p \<Longrightarrow> scan_to_star False p = (p, [])"
  "literal_pattern p \<Longrightarrow> scan_to_star False (p @ ''*'') = (p, ''*'')"
  by (induction "False" p rule: scan_to_star.induct) (auto simp: literal_pattern_def)

lemma matchChunk_literal:
  "literal_pattern p \<Longrightarrow>
     matchChunk p s = (if prefix p s then Matched (drop (length p) s) else NoMatch)"
  by (induction p s rule: matchChunk.induct) (auto simp: literal_pattern_def)

lemma skip_stars_literal: "literal_pattern p \<Longrightarrow> p \<noteq> [] \<Longrightarrow> skip_stars (p @ q) = (False, p @ q)"
  by (cases p) (auto simp: literal_pattern_def)

lemma Match_literal:
  assumes "literal_pattern p"
  shows "Match p name = Matched (name = p)"
proof (cases "p = []")
  case True
  then show ?thesis by (simp add: Match.simps)
next
  case False
  then have "scanChunk p = (False, p, [])"
    using assms skip_stars_literal[of p "[]"] by (simp add: scanChunk_def scan_literal)
  with False assms show ?thesis
    by (auto simp: Match.simps[of p] Match.simps[of "[]"] matchFrom_def matchAt_def matchChunk_literal
        prefix_def)
qed

lemma Match_prefix_star:
  assumes "literal_pattern p"
  shows "Match (p @ ''*'') name =
    Matched (prefix p name \<and> CHR ''/'' \<notin> set (drop (length p) name))"
proof -
  have star: "Match ''*'' s = Matched (CHR ''/'' \<notin> set s)" for s
    by (simp add: Match.simps scanChunk_def)
  show ?thesis
  proof (cases "p = []")
    case True
    then show ?thesis by (simp add: star)
  next
    case False
    then have "scanChunk (p @ ''*'') = (False, p, ''*'')"
      using assms skip_stars_literal[of p "''*''"] by (simp add: scanChunk_def scan_literal)
    with False assms show ?thesis
      by (simp add: Match.simps[of "p @ ''*''"] star matchFrom_def matchAt_def matchChunk_literal)
  qed
qed

end
