(* ===== verification/Agent_State.thy ===== *)
theory Agent_State
  imports Machine_State Go_Path
begin

text \<open>
  \<open>agent/state.go\<close>: what a machine is (to be) running, and whether it can run one more unit. The
  loops over \<open>as.Units\<close> visit the units in the order a range order gives; \<open>HasConflict\<close> and
  \<open>hasReplace\<close> stop at the first hit, so the unit they name depends on that order while the verdict
  does not.
\<close>

record AgentState =
  as_MState :: MachineState
  as_Units :: "(string, Unit) gmap"

definition NewAgentState :: "MachineState \<Rightarrow> AgentState" where
  "NewAgentState ms = \<lparr>as_MState = ms, as_Units = []\<rparr>"

definition unitScheduled :: "AgentState \<Rightarrow> string \<Rightarrow> bool" where
  "unitScheduled ast name = gmem name (as_Units ast)"

definition globMatches :: "string \<Rightarrow> string \<Rightarrow> bool" where
  "globMatches pattern target =
     (case Match pattern target of Matched m \<Rightarrow> m | ErrBadPattern \<Rightarrow> False | NoMatch \<Rightarrow> False)"

fun hasStringInSlice :: "string list \<Rightarrow> string \<Rightarrow> bool" where
  "hasStringInSlice [] unitName = False"
| "hasStringInSlice (elem # inSlice) unitName =
     (if globMatches elem unitName then True else hasStringInSlice inSlice unitName)"

fun HasConflict_loop :: "string \<Rightarrow> string list \<Rightarrow> Unit list \<Rightarrow> bool \<times> string list" where
  "HasConflict_loop pUnitName pConflicts [] = (False, [])"
| "HasConflict_loop pUnitName pConflicts (eUnit # es) =
     (if pUnitName = u_Name eUnit then HasConflict_loop pUnitName pConflicts es
      else if hasStringInSlice (Unit_Conflicts eUnit) pUnitName then (True, [pUnitName])
      else if hasStringInSlice pConflicts (u_Name eUnit) then (True, [u_Name eUnit])
      else HasConflict_loop pUnitName pConflicts es)"

definition HasConflict :: "range_order \<Rightarrow> AgentState \<Rightarrow> string \<Rightarrow> string list \<Rightarrow> bool \<times> string list" where
  "HasConflict ord ast pUnitName pConflicts =
     HasConflict_loop pUnitName pConflicts (range_vals ord [''HasConflict''] (as_Units ast))"

fun hasReplace_loop :: "string \<Rightarrow> string list \<Rightarrow> Unit list \<Rightarrow> bool \<times> string" where
  "hasReplace_loop pUnitName pReplaces [] = (False, [])"
| "hasReplace_loop pUnitName pReplaces (eUnit # es) =
     (if pUnitName = u_Name eUnit then hasReplace_loop pUnitName pReplaces es
      else
        let foundPrepl = hasStringInSlice pReplaces (u_Name eUnit);
            foundErepl = hasStringInSlice (Unit_Replaces eUnit) pUnitName
        in if (foundPrepl \<and> foundErepl) \<or> (\<not> foundPrepl \<and> \<not> foundErepl)
           then hasReplace_loop pUnitName pReplaces es
           else (True, u_Name eUnit))"

definition hasReplace :: "range_order \<Rightarrow> AgentState \<Rightarrow> string \<Rightarrow> string list \<Rightarrow> bool \<times> string" where
  "hasReplace ord ast pUnitName pReplaces =
     hasReplace_loop pUnitName pReplaces (range_vals ord [''hasReplace''] (as_Units ast))"

definition quoted :: "string \<Rightarrow> string" where
  "quoted s = [CHR 0x22] @ s @ [CHR 0x22]"

definition AbleToRun :: "range_order \<Rightarrow> AgentState \<Rightarrow> Job \<Rightarrow> JobAction \<times> string" where
  "AbleToRun ord ast j =
     (if \<not> (case RequiredTarget j of Some tgt \<Rightarrow> MatchID (as_MState ast) tgt | None \<Rightarrow> True)
      then (JobActionUnschedule,
            ''agent ID '' @ quoted (ms_ID (as_MState ast)) @
            '' does not match required '' @ quoted (the (RequiredTarget j)))
      else if length (RequiredTargetMetadata j) \<noteq> 0 \<and>
              \<not> HasMetadata (as_MState ast) (RequiredTargetMetadata j)
      then (JobActionUnschedule, ''local Machine metadata insufficient'')
      else
        (case List.find (\<lambda>peer. \<not> unitScheduled ast peer) (Peers j) of
           Some peer \<Rightarrow> (JobActionUnschedule,
              ''required peer Unit('' @ peer @ '') is not scheduled locally'')
         | None \<Rightarrow>
             let (cExists, cJobNames) = HasConflict ord ast (j_Name j) (Conflicts j) in
             if cExists then (JobActionUnschedule,
                ''found conflict with locally-scheduled Unit(['' @ Join cJobNames '' '' @ ''])'')
             else
               let (cExists, cJobName) = hasReplace ord ast (j_Name j) (Replaces j) in
               if cExists then (JobActionReschedule,
                  ''found replace with locally-scheduled Unit('' @ cJobName @ '')'')
               else (JobActionSchedule, [])))"

definition GetReplacedUnit :: "range_order \<Rightarrow> AgentState \<Rightarrow> Job \<Rightarrow> string result" where
  "GetReplacedUnit ord ast j =
     (let (cExists, replaced) = hasReplace ord ast (j_Name j) (Replaces j) in
      if \<not> cExists then Inl (''cannot find units to be replaced for Unit('' @ j_Name j @ '')'')
      else Inr replaced)"

section \<open>What the loops decide\<close>

lemma hasStringInSlice_iff: "hasStringInSlice xs n \<longleftrightarrow> (\<exists>x\<in>set xs. globMatches x n)"
  by (induction xs) auto

text \<open>Two units conflict when they differ in name and a conflict pattern of one matches the other.\<close>

definition conflicting :: "string \<Rightarrow> string list \<Rightarrow> Unit \<Rightarrow> bool" where
  "conflicting p pConflicts e \<longleftrightarrow>
     p \<noteq> u_Name e \<and>
     (hasStringInSlice (Unit_Conflicts e) p \<or> hasStringInSlice pConflicts (u_Name e))"

text \<open>Conflicts are symmetric, whichever of the two units declares them.\<close>

definition units_conflict :: "Unit \<Rightarrow> Unit \<Rightarrow> bool" where
  "units_conflict u e = conflicting (u_Name u) (Unit_Conflicts u) e"

lemma units_conflict_sym: "units_conflict u e \<Longrightarrow> units_conflict e u"
  by (auto simp: units_conflict_def conflicting_def)

lemma units_conflict_irrefl: "u_Name u = u_Name e \<Longrightarrow> \<not> units_conflict u e"
  by (auto simp: units_conflict_def conflicting_def)

text \<open>A replacement between two units: exactly one of the two asks for it.\<close>

definition replacing :: "string \<Rightarrow> string list \<Rightarrow> Unit \<Rightarrow> bool" where
  "replacing p pReplaces e \<longleftrightarrow>
     p \<noteq> u_Name e \<and>
     hasStringInSlice pReplaces (u_Name e) \<noteq> hasStringInSlice (Unit_Replaces e) p"

lemma HasConflict_loop_iff: "fst (HasConflict_loop p pc es) \<longleftrightarrow> (\<exists>e\<in>set es. conflicting p pc e)"
  by (induction es) (auto simp: conflicting_def)

lemma hasReplace_loop_find:
  "hasReplace_loop p pr es =
     (case List.find (replacing p pr) es of Some e \<Rightarrow> (True, u_Name e) | None \<Rightarrow> (False, []))"
  by (induction es) (auto simp: replacing_def Let_def)

lemma HasConflict_iff:
  assumes "valid_order ord"
  shows "fst (HasConflict ord ast p pc) \<longleftrightarrow> (\<exists>e\<in>ran (map_of (as_Units ast)). conflicting p pc e)"
  by (simp add: HasConflict_def HasConflict_loop_iff set_range_vals[OF assms])

lemma hasReplace_iff:
  assumes "valid_order ord"
  shows "fst (hasReplace ord ast p pr) \<longleftrightarrow> (\<exists>e\<in>ran (map_of (as_Units ast)). replacing p pr e)"
proof -
  have "fst (hasReplace ord ast p pr) \<longleftrightarrow> (\<exists>e\<in>set (range_vals ord [''hasReplace''] (as_Units ast)). replacing p pr e)"
    by (auto simp: hasReplace_def hasReplace_loop_find find_None_iff split: option.splits dest: find_SomeD)
  then show ?thesis by (simp add: set_range_vals[OF assms])
qed

lemma hasReplace_names:
  assumes "valid_order ord" "hasReplace ord ast p pr = (True, n)"
  shows "\<exists>e\<in>ran (map_of (as_Units ast)). replacing p pr e \<and> n = u_Name e"
proof -
  from assms(2) obtain e where
    "List.find (replacing p pr) (range_vals ord [''hasReplace''] (as_Units ast)) = Some e" "n = u_Name e"
    by (auto simp: hasReplace_def hasReplace_loop_find split: option.splits)
  then show ?thesis
    using find_SomeD[of "replacing p pr"] by (metis set_range_vals[OF assms(1)])
qed

text \<open>The four conditions \<open>AbleToRun\<close> imposes before it looks at replacements.\<close>

definition requirements_met :: "AgentState \<Rightarrow> Job \<Rightarrow> bool" where
  "requirements_met ast j \<longleftrightarrow>
     (\<forall>tgt. RequiredTarget j = Some tgt \<longrightarrow> MatchID (as_MState ast) tgt) \<and>
     HasMetadata (as_MState ast) (RequiredTargetMetadata j) \<and>
     (\<forall>peer\<in>set (Peers j). unitScheduled ast peer) \<and>
     (\<forall>e\<in>ran (map_of (as_Units ast)). \<not> conflicting (j_Name j) (Conflicts j) e)"

definition has_replacement :: "AgentState \<Rightarrow> Job \<Rightarrow> bool" where
  "has_replacement ast j \<longleftrightarrow> (\<exists>e\<in>ran (map_of (as_Units ast)). replacing (j_Name j) (Replaces j) e)"

lemma AbleToRun_action:
  assumes "valid_order ord"
  shows "fst (AbleToRun ord ast j) =
    (if \<not> requirements_met ast j then JobActionUnschedule
     else if has_replacement ast j then JobActionReschedule else JobActionSchedule)"
proof -
  have md: "HasMetadata ms (RequiredTargetMetadata j) \<or> length (RequiredTargetMetadata j) \<noteq> 0" for ms
    by (cases "RequiredTargetMetadata j") auto
  show ?thesis
    using HasConflict_iff[OF assms, of ast "j_Name j" "Conflicts j"]
      hasReplace_iff[OF assms, of ast "j_Name j" "Replaces j"] md[of "as_MState ast"]
    by (auto simp: AbleToRun_def requirements_met_def has_replacement_def find_None_iff
        split: option.splits prod.splits if_splits dest: find_SomeD)
qed

lemma GetReplacedUnit_Inr:
  assumes "valid_order ord" "GetReplacedUnit ord ast j = Inr n"
  shows "\<exists>e\<in>ran (map_of (as_Units ast)). replacing (j_Name j) (Replaces j) e \<and> n = u_Name e"
  using assms hasReplace_names[OF assms(1)]
  by (auto simp: GetReplacedUnit_def split: prod.splits if_splits)

lemma GetReplacedUnit_total:
  assumes "valid_order ord" "has_replacement ast j"
  shows "\<exists>n. GetReplacedUnit ord ast j = Inr n"
  using assms hasReplace_iff[OF assms(1), of ast "j_Name j" "Replaces j"]
  by (auto simp: GetReplacedUnit_def has_replacement_def split: prod.splits)

end
