(* ===== verification/Engine_State.thy ===== *)
theory Engine_State
  imports Agent_State
begin

text \<open>
  \<open>engine/state.go\<close>: the engine's view of the cluster. \<open>newClusterState\<close> joins the registry's units,
  schedule and machines; \<open>agents\<close> derives what every machine would run; \<open>schedule\<close> and \<open>unschedule\<close>
  record a decision. Go reaches jobs through pointers held in the map, so a write through a pointer
  is a write to the map entry.
\<close>

record clusterState =
  cs_jobs :: "(string, Job) gmap"
  cs_gUnits :: "(string, Unit) gmap"
  cs_machines :: "(string, MachineState) gmap"

definition cs_add_unit ::
  "(string, ScheduledUnit) gmap \<Rightarrow> Unit \<Rightarrow> (string, Job) gmap \<times> (string, Unit) gmap \<Rightarrow>
   (string, Job) gmap \<times> (string, Unit) gmap" where
  "cs_add_unit sUnitMap u maps =
     (let (jMap, guMap) = maps in
      if IsGlobal u then (jMap, gput (u_Name u) u guMap)
      else
        let j = \<lparr>j_Name = u_Name u, j_State = None, j_TargetState = u_TargetState u,
                 j_TargetMachineID = [], j_Unit = u_Unit u\<rparr>;
            j = (case map_of sUnitMap (u_Name u) of
                   Some sUnit \<Rightarrow> j\<lparr>j_TargetMachineID := su_TargetMachineID sUnit, j_State := su_State sUnit\<rparr>
                 | None \<Rightarrow> j)
        in (gput (j_Name j) j jMap, guMap))"

definition newClusterState :: "Unit list \<Rightarrow> ScheduledUnit list \<Rightarrow> MachineState list \<Rightarrow> clusterState" where
  "newClusterState units sUnits machines =
     (let sUnitMap = gput_all su_Name (\<lambda>su. su) sUnits [];
          (jMap, guMap) = fold (cs_add_unit sUnitMap) units ([], []);
          mMap = gput_all ms_ID (\<lambda>ms. ms) machines []
      in \<lparr>cs_jobs = jMap, cs_gUnits = guMap, cs_machines = mMap\<rparr>)"

definition agents_add_job :: "Job \<Rightarrow> (string, AgentState) gmap \<Rightarrow> (string, AgentState) gmap" where
  "agents_add_job j ags =
     (if \<not> Scheduled j \<or> j_TargetState j = JobStateInactive then ags
      else case map_of ags (j_TargetMachineID j) of
             None \<Rightarrow> ags
           | Some ast \<Rightarrow>
               let u = \<lparr>u_Name = j_Name j, u_Unit = j_Unit j, u_TargetState = j_TargetState j\<rparr>
               in gput (j_TargetMachineID j) (ast\<lparr>as_Units := gput (j_Name j) u (as_Units ast)\<rparr>) ags)"

definition agent_add_global :: "range_order \<Rightarrow> Unit \<Rightarrow> AgentState \<Rightarrow> AgentState" where
  "agent_add_global ord gu a =
     (if \<not> HasMetadata (as_MState a) (Unit_RequiredTargetMetadata gu) then a
      else if fst (HasConflict ord a (u_Name gu) (Unit_Conflicts gu)) then a
      else a\<lparr>as_Units := gput (u_Name gu) gu (as_Units a)\<rparr>)"

text \<open>The inner loop over the agents touches each agent once, whatever the order.\<close>

definition agents_add_global :: "range_order \<Rightarrow> Unit \<Rightarrow> (string, AgentState) gmap \<Rightarrow> (string, AgentState) gmap" where
  "agents_add_global ord gu ags =
     map (\<lambda>(m, a). (m, agent_add_global (at (at ord m) (u_Name gu)) gu a)) ags"

definition agents :: "range_order \<Rightarrow> clusterState \<Rightarrow> (string, AgentState) gmap" where
  "agents ord cs =
     fold (agents_add_global ord) (range_vals ord [''agents'', ''gUnits''] (cs_gUnits cs))
       (fold agents_add_job (range_vals ord [''agents'', ''jobs''] (cs_jobs cs))
         (gput_all ms_ID NewAgentState (range_vals ord [''agents'', ''machines''] (cs_machines cs)) []))"

definition cs_schedule :: "string \<Rightarrow> string \<Rightarrow> clusterState \<Rightarrow> clusterState" where
  "cs_schedule jobName targetMachineID cs =
     (case map_of (cs_jobs cs) jobName of
        None \<Rightarrow> cs
      | Some j \<Rightarrow> cs\<lparr>cs_jobs := gput jobName (j\<lparr>j_TargetMachineID := targetMachineID\<rparr>) (cs_jobs cs)\<rparr>)"

definition cs_unschedule :: "string \<Rightarrow> clusterState \<Rightarrow> clusterState" where
  "cs_unschedule jobName cs =
     (case map_of (cs_jobs cs) jobName of
        None \<Rightarrow> cs
      | Some j \<Rightarrow> cs\<lparr>cs_jobs := gput jobName (j\<lparr>j_TargetMachineID := []\<rparr>) (cs_jobs cs)\<rparr>)"

section \<open>Well-formed clusters\<close>

definition cluster_ok :: "clusterState \<Rightarrow> bool" where
  "cluster_ok cs \<longleftrightarrow>
     gmap_ok (cs_jobs cs) \<and> (\<forall>k j. map_of (cs_jobs cs) k = Some j \<longrightarrow> j_Name j = k) \<and>
     gmap_ok (cs_gUnits cs) \<and> (\<forall>k u. map_of (cs_gUnits cs) k = Some u \<longrightarrow> u_Name u = k) \<and>
     gmap_ok (cs_machines cs) \<and> (\<forall>k ms. map_of (cs_machines cs) k = Some ms \<longrightarrow> ms_ID ms = k)"

lemma cs_add_unit_ok:
  assumes "gmap_ok jm" "\<And>k j. map_of jm k = Some j \<Longrightarrow> j_Name j = k"
    "gmap_ok gm" "\<And>k u. map_of gm k = Some u \<Longrightarrow> u_Name u = k"
    "cs_add_unit sm u (jm, gm) = (jm', gm')"
  shows "gmap_ok jm' \<and> (\<forall>k j. map_of jm' k = Some j \<longrightarrow> j_Name j = k) \<and>
    gmap_ok gm' \<and> (\<forall>k u. map_of gm' k = Some u \<longrightarrow> u_Name u = k)"
  using assms by (auto simp: cs_add_unit_def Let_def split: if_splits option.splits)

lemma cs_add_units_ok:
  assumes "gmap_ok jm" "\<And>k j. map_of jm k = Some j \<Longrightarrow> j_Name j = k"
    "gmap_ok gm" "\<And>k u. map_of gm k = Some u \<Longrightarrow> u_Name u = k"
    "fold (cs_add_unit sm) us (jm, gm) = (jm', gm')"
  shows "gmap_ok jm' \<and> (\<forall>k j. map_of jm' k = Some j \<longrightarrow> j_Name j = k) \<and>
    gmap_ok gm' \<and> (\<forall>k u. map_of gm' k = Some u \<longrightarrow> u_Name u = k)"
  using assms
proof (induction us arbitrary: jm gm)
  case Nil
  then show ?case by simp
next
  case (Cons u us)
  obtain jm1 gm1 where step: "cs_add_unit sm u (jm, gm) = (jm1, gm1)" by fastforce
  with cs_add_unit_ok[OF Cons.prems(1-4) step] Cons.prems(5) Cons.IH[of jm1 gm1]
  show ?case by simp
qed

lemma newClusterState_ok: "cluster_ok (newClusterState units sUnits machines)"
proof -
  obtain jm gm where maps: "fold (cs_add_unit (gput_all su_Name (\<lambda>su. su) sUnits [])) units ([], []) = (jm, gm)"
    by fastforce
  have "map_of (gput_all ms_ID (\<lambda>ms. ms) machines []) k = Some ms \<Longrightarrow> ms_ID ms = k" for k ms
    using map_of_gput_all_SomeD[of ms_ID "\<lambda>ms. ms" machines "[]" k ms] by auto
  with cs_add_units_ok[of "[]" "[]", OF _ _ _ _ maps] maps show ?thesis
    by (simp add: newClusterState_def Let_def cluster_ok_def)
qed

lemma cluster_ok_schedule [simp, intro]: "cluster_ok cs \<Longrightarrow> cluster_ok (cs_schedule n m cs)"
  by (auto simp: cluster_ok_def cs_schedule_def split: option.splits if_splits)

lemma cluster_ok_unschedule [simp, intro]: "cluster_ok cs \<Longrightarrow> cluster_ok (cs_unschedule n cs)"
  by (auto simp: cluster_ok_def cs_unschedule_def split: option.splits if_splits)

section \<open>The schedule a cluster state stands for\<close>

text \<open>
  Abstractly a cluster state is a partial function from job names to the machine each job is
  scheduled to; \<open>schedule\<close> and \<open>unschedule\<close> are updates of it.
\<close>

definition abs_schedule :: "clusterState \<Rightarrow> (string \<rightharpoonup> string)" where
  "abs_schedule cs = (\<lambda>n. case map_of (cs_jobs cs) n of
     Some j \<Rightarrow> if Scheduled j then Some (j_TargetMachineID j) else None
   | None \<Rightarrow> None)"

lemma abs_schedule_schedule:
  "map_of (cs_jobs cs) n \<noteq> None \<Longrightarrow> m \<noteq> [] \<Longrightarrow>
     abs_schedule (cs_schedule n m cs) = (abs_schedule cs)(n \<mapsto> m)"
  by (auto simp: abs_schedule_def cs_schedule_def Scheduled_def fun_eq_iff split: option.splits)

lemma abs_schedule_unschedule: "abs_schedule (cs_unschedule n cs) = (abs_schedule cs)(n := None)"
  by (auto simp: abs_schedule_def cs_unschedule_def Scheduled_def fun_eq_iff split: option.splits)

lemma cs_schedule_frame [simp]:
  "dom (map_of (cs_jobs (cs_schedule n m cs))) = dom (map_of (cs_jobs cs))"
  "cs_gUnits (cs_schedule n m cs) = cs_gUnits cs"
  "cs_machines (cs_schedule n m cs) = cs_machines cs"
  by (auto simp: cs_schedule_def split: option.splits)

lemma cs_unschedule_frame [simp]:
  "dom (map_of (cs_jobs (cs_unschedule n cs))) = dom (map_of (cs_jobs cs))"
  "cs_gUnits (cs_unschedule n cs) = cs_gUnits cs"
  "cs_machines (cs_unschedule n cs) = cs_machines cs"
  by (auto simp: cs_unschedule_def split: option.splits)

section \<open>What the derived agents run\<close>

text \<open>
  An agent map is sound for a cluster when its keys are machines of the cluster, and every unit on
  an agent is either a job scheduled there or a global unit whose metadata requirement the machine
  meets.
\<close>

definition agent_units_ok :: "clusterState \<Rightarrow> string \<Rightarrow> AgentState \<Rightarrow> bool" where
  "agent_units_ok cs m a \<longleftrightarrow>
     map_of (cs_machines cs) m = Some (as_MState a) \<and> ms_ID (as_MState a) = m \<and>
     gmap_ok (as_Units a) \<and>
     (\<forall>n u. map_of (as_Units a) n = Some u \<longrightarrow> u_Name u = n \<and>
        ((\<exists>j. map_of (cs_jobs cs) n = Some j \<and> j_TargetMachineID j = m \<and> Scheduled j \<and>
              j_TargetState j \<noteq> JobStateInactive \<and> u_Unit u = j_Unit j) \<or>
         (map_of (cs_gUnits cs) n = Some u \<and>
          HasMetadata (as_MState a) (Unit_RequiredTargetMetadata u))))"

definition agents_sound :: "clusterState \<Rightarrow> (string, AgentState) gmap \<Rightarrow> bool" where
  "agents_sound cs ags \<longleftrightarrow> gmap_ok ags \<and> (\<forall>m a. map_of ags m = Some a \<longrightarrow> agent_units_ok cs m a)"

lemma agents_sound_add_job:
  assumes "agents_sound cs ags" "map_of (cs_jobs cs) (j_Name j) = Some j"
  shows "agents_sound cs (agents_add_job j ags) \<and> dom (map_of (agents_add_job j ags)) = dom (map_of ags)"
  using assms
  by (auto simp: agents_sound_def agents_add_job_def Let_def agent_units_ok_def split: option.splits if_splits)

lemma map_of_map_val: "map_of (map (\<lambda>(k, a). (k, f k a)) ags) m = map_option (f m) (map_of ags m)"
  by (induction ags) auto

lemma agents_sound_add_global:
  assumes "agents_sound cs ags" "map_of (cs_gUnits cs) (u_Name gu) = Some gu"
  shows "agents_sound cs (agents_add_global ord gu ags) \<and>
    dom (map_of (agents_add_global ord gu ags)) = dom (map_of ags)"
proof -
  have "agent_units_ok cs m a \<Longrightarrow> agent_units_ok cs m (agent_add_global o' gu a)" for m a o'
    using assms(2) by (auto simp: agent_units_ok_def agent_add_global_def split: if_splits)
  moreover have "gmap_ok (agents_add_global ord gu ags)"
    using assms(1)
    by (simp add: agents_sound_def gmap_ok_def agents_add_global_def comp_def case_prod_unfold)
  ultimately show ?thesis
    using assms(1) by (auto simp: agents_sound_def agents_add_global_def map_of_map_val)
qed

lemma agents_sound_fold:
  assumes "\<And>x ags. x \<in> set xs \<Longrightarrow> agents_sound cs ags \<Longrightarrow>
      agents_sound cs (f x ags) \<and> dom (map_of (f x ags)) = dom (map_of ags)"
    and "agents_sound cs ags"
  shows "agents_sound cs (fold f xs ags) \<and> dom (map_of (fold f xs ags)) = dom (map_of ags)"
  using assms by (induction xs arbitrary: ags) auto

lemma ranE_key:
  "\<lbrakk>x \<in> ran m; \<And>k. m k = Some x \<Longrightarrow> P\<rbrakk> \<Longrightarrow> P"
  by (auto simp: ran_def)

theorem agents_spec:
  assumes "valid_order ord" "cluster_ok cs"
  shows "agents_sound cs (agents ord cs) \<and> dom (map_of (agents ord cs)) = dom (map_of (cs_machines cs))"
proof -
  let ?ms = "range_vals ord [''agents'', ''machines''] (cs_machines cs)"
  let ?base = "gput_all ms_ID NewAgentState ?ms []"
  have ms: "set ?ms = ran (map_of (cs_machines cs))" by (rule set_range_vals[OF assms(1)])
  have key: "map_of (cs_machines cs) (ms_ID x) = Some x" if "x \<in> set ?ms" for x
    using that assms(2) unfolding ms by (auto simp: cluster_ok_def elim!: ranE_key)
  have base: "agents_sound cs ?base"
    using map_of_gput_all_SomeD[of ms_ID NewAgentState ?ms "[]"] key
    by (fastforce simp: agents_sound_def agent_units_ok_def NewAgentState_def)
  have "ms_ID ` ran (map_of (cs_machines cs)) = dom (map_of (cs_machines cs))"
    using assms(2) by (force simp: cluster_ok_def ran_def image_iff)
  then have dom: "dom (map_of ?base) = dom (map_of (cs_machines cs))"
    by (simp add: dom_gput_all ms)
  have jobs: "map_of (cs_jobs cs) (j_Name j) = Some j" if "j \<in> set (range_vals ord p (cs_jobs cs))" for j p
    using that assms(2) by (auto simp: set_range_vals[OF assms(1)] cluster_ok_def elim!: ranE_key)
  have gus: "map_of (cs_gUnits cs) (u_Name u) = Some u" if "u \<in> set (range_vals ord p (cs_gUnits cs))" for u p
    using that assms(2) by (auto simp: set_range_vals[OF assms(1)] cluster_ok_def elim!: ranE_key)
  let ?js = "range_vals ord [''agents'', ''jobs''] (cs_jobs cs)"
  have mid: "agents_sound cs (fold agents_add_job ?js ?base) \<and>
      dom (map_of (fold agents_add_job ?js ?base)) = dom (map_of ?base)"
    by (rule agents_sound_fold[OF _ base]) (rule agents_sound_add_job, assumption, erule jobs)
  show ?thesis
    unfolding agents_def dom[symmetric] mid[THEN conjunct2, symmetric]
    by (rule agents_sound_fold[OF _ mid[THEN conjunct1]])
      (rule agents_sound_add_global, assumption, erule gus)
qed

section \<open>One agent at a time\<close>

text \<open>The unit a job puts on its agent, and the two loops seen from the agent of machine \<open>m\<close>.\<close>

definition unit_of_job :: "Job \<Rightarrow> Unit" where
  "unit_of_job j = \<lparr>u_Name = j_Name j, u_Unit = j_Unit j, u_TargetState = j_TargetState j\<rparr>"

definition placed_on :: "string \<Rightarrow> Job \<Rightarrow> bool" where
  "placed_on m j \<longleftrightarrow> Scheduled j \<and> j_TargetState j \<noteq> JobStateInactive \<and> j_TargetMachineID j = m"

definition place_job :: "string \<Rightarrow> Job \<Rightarrow> AgentState \<Rightarrow> AgentState" where
  "place_job m j a = (if placed_on m j then a\<lparr>as_Units := gput (j_Name j) (unit_of_job j) (as_Units a)\<rparr> else a)"

lemma map_of_agents_add_job: "map_of (agents_add_job j ags) m = map_option (place_job m j) (map_of ags m)"
  by (cases "map_of ags m")
    (auto simp: agents_add_job_def place_job_def placed_on_def unit_of_job_def Let_def split: option.splits)

lemma map_of_agents_jobs: "map_of (fold agents_add_job js ags) m = map_option (fold (place_job m) js) (map_of ags m)"
  by (induction js arbitrary: ags) (simp_all add: map_of_agents_add_job option.map_comp comp_def option.map_id)

lemma map_of_agents_globals:
  "map_of (fold (agents_add_global ord) gus ags) m =
     map_option (fold (\<lambda>gu. agent_add_global (at (at ord m) (u_Name gu)) gu) gus) (map_of ags m)"
  by (induction gus arbitrary: ags)
    (simp_all add: agents_add_global_def map_of_map_val option.map_comp comp_def option.map_id)

lemma place_jobs_units:
  "as_Units (fold (place_job m) js a) = gput_all j_Name unit_of_job (filter (placed_on m) js) (as_Units a)"
  "as_MState (fold (place_job m) js a) = as_MState a"
  by (induction js arbitrary: a) (simp_all add: place_job_def)

lemma agents_decompose:
  assumes "map_of (agents ord cs) m = Some a"
  obtains ms where "map_of (gput_all ms_ID NewAgentState (range_vals ord [''agents'', ''machines''] (cs_machines cs)) []) m =
      Some ms"
    "a = fold (\<lambda>gu. agent_add_global (at (at ord m) (u_Name gu)) gu) (range_vals ord [''agents'', ''gUnits''] (cs_gUnits cs))
      (fold (place_job m) (range_vals ord [''agents'', ''jobs''] (cs_jobs cs)) ms)"
  using assms by (auto simp: agents_def map_of_agents_globals map_of_agents_jobs)

lemma add_globals_keep:
  assumes "n \<notin> u_Name ` set gus"
  shows "map_of (as_Units (fold (\<lambda>gu. agent_add_global (f gu) gu) gus a)) n = map_of (as_Units a) n"
  using assms by (induction gus arbitrary: a) (auto simp: agent_add_global_def)

lemma range_vals_names:
  assumes "valid_order ord" "\<And>k v. map_of m k = Some v \<Longrightarrow> nm v = k"
  shows "nm ` set (range_vals ord p m) = dom (map_of m)"
proof -
  have "nm ` ran (map_of m) = dom (map_of m)"
  proof (intro equalityI subsetI)
    fix k assume "k \<in> nm ` ran (map_of m)"
    then show "k \<in> dom (map_of m)" using assms(2) by (auto simp: ran_def)
  next
    fix k assume "k \<in> dom (map_of m)"
    then obtain v where "map_of m k = Some v" by blast
    then show "k \<in> nm ` ran (map_of m)" using assms(2) by (metis imageI ranI)
  qed
  then show ?thesis by (simp add: set_range_vals[OF assms(1)])
qed

text \<open>Every active job scheduled to a live machine is among the units of that machine's agent.\<close>

lemma agents_have_jobs:
  assumes "valid_order ord" "cluster_ok cs" "dom (map_of (cs_jobs cs)) \<inter> dom (map_of (cs_gUnits cs)) = {}"
    "map_of (agents ord cs) m = Some a" "map_of (cs_jobs cs) n = Some j" "placed_on m j"
  shows "map_of (as_Units a) n = Some (unit_of_job j)"
proof -
  let ?js = "range_vals ord [''agents'', ''jobs''] (cs_jobs cs)"
  let ?gus = "range_vals ord [''agents'', ''gUnits''] (cs_gUnits cs)"
  obtain ms where a: "a = fold (\<lambda>gu. agent_add_global (at (at ord m) (u_Name gu)) gu) ?gus (fold (place_job m) ?js ms)"
    by (rule agents_decompose[OF assms(4)])
  have name: "j_Name j = n" using assms(2,5) by (simp add: cluster_ok_def)
  have gnames: "u_Name ` set ?gus = dom (map_of (cs_gUnits cs))"
    by (rule range_vals_names) (use assms(1,2) in \<open>auto simp: cluster_ok_def\<close>)
  have "n \<in> dom (map_of (cs_jobs cs))" using assms(5) by blast
  then have "n \<notin> u_Name ` set ?gus" unfolding gnames using assms(3) by blast
  then have "map_of (as_Units a) n = map_of (as_Units (fold (place_job m) ?js ms)) n"
    unfolding a by (rule add_globals_keep)
  also have "\<dots> = Some (unit_of_job j)"
  proof -
    have "map j_Name ?js = ord [''agents'', ''jobs''] (gkeys (cs_jobs cs))"
      unfolding range_vals_def map_map
    proof (rule map_idI)
      fix k assume "k \<in> set (ord [''agents'', ''jobs''] (gkeys (cs_jobs cs)))"
      then have "k \<in> dom (map_of (cs_jobs cs))" using assms(1) by (simp add: order_simps)
      then show "(j_Name \<circ> (\<lambda>k. the (map_of (cs_jobs cs) k))) k = k" using assms(2) by (auto simp: cluster_ok_def)
    qed
    then have "distinct (map j_Name ?js)" using assms(1,2) by (simp add: order_simps cluster_ok_def)
    then have d: "distinct (map j_Name (filter (placed_on m) ?js))" by (rule distinct_map_filter)
    have "j \<in> set (filter (placed_on m) ?js)"
      using assms(5,6) by (auto simp: set_range_vals[OF assms(1)] intro: ranI)
    from map_of_gput_all_distinct[OF d this] show ?thesis by (simp add: place_jobs_units name)
  qed
  finally show ?thesis .
qed

text \<open>A global unit placed by the last loop conflicts with nothing else on its agent.\<close>

definition globals_peaceful :: "(string, Unit) gmap \<Rightarrow> AgentState \<Rightarrow> bool" where
  "globals_peaceful gm a \<longleftrightarrow>
     (\<forall>g\<in>ran (map_of (as_Units a)). \<forall>e\<in>ran (map_of (as_Units a)).
        u_Name g \<in> dom (map_of gm) \<longrightarrow> \<not> units_conflict g e)"

lemma agent_add_global_peaceful:
  assumes "valid_order ord" "globals_peaceful gm a"
  shows "globals_peaceful gm (agent_add_global ord gu a)"
proof -
  have "\<not> units_conflict gu e"
    if "\<not> fst (HasConflict ord a (u_Name gu) (Unit_Conflicts gu))" "e \<in> ran (map_of (as_Units a))" for e
    using that HasConflict_iff[OF assms(1)] by (auto simp: units_conflict_def)
  moreover have "ran ((map_of (as_Units a))(u_Name gu \<mapsto> gu)) \<subseteq> insert gu (ran (map_of (as_Units a)))"
    by (auto simp: ran_def)
  ultimately have "\<not> units_conflict g e"
    if "\<not> fst (HasConflict ord a (u_Name gu) (Unit_Conflicts gu))" "u_Name g \<in> dom (map_of gm)"
      "g \<in> ran ((map_of (as_Units a))(u_Name gu \<mapsto> gu))" "e \<in> ran ((map_of (as_Units a))(u_Name gu \<mapsto> gu))" for g e
    using that assms(2) units_conflict_irrefl[of gu gu] units_conflict_sym[of g e]
    unfolding globals_peaceful_def by blast
  then show ?thesis
    using assms(2) by (simp add: globals_peaceful_def agent_add_global_def)
qed

lemma agents_peaceful:
  assumes "valid_order ord" "cluster_ok cs" "dom (map_of (cs_jobs cs)) \<inter> dom (map_of (cs_gUnits cs)) = {}"
    "map_of (agents ord cs) m = Some a"
  shows "globals_peaceful (cs_gUnits cs) a"
proof -
  let ?js = "range_vals ord [''agents'', ''jobs''] (cs_jobs cs)"
  let ?gus = "range_vals ord [''agents'', ''gUnits''] (cs_gUnits cs)"
  obtain ms where ms: "map_of (gput_all ms_ID NewAgentState (range_vals ord [''agents'', ''machines''] (cs_machines cs)) []) m = Some ms"
    and a: "a = fold (\<lambda>gu. agent_add_global (at (at ord m) (u_Name gu)) gu) ?gus (fold (place_job m) ?js ms)"
    by (rule agents_decompose[OF assms(4)])
  have "as_Units ms = []"
    using map_of_gput_all_SomeD[OF ms] by (auto simp: NewAgentState_def)
  have "u_Name e \<notin> dom (map_of (cs_gUnits cs))"
    if "e \<in> ran (map_of (as_Units (fold (place_job m) ?js ms)))" for e
  proof -
    from that obtain n where "map_of (gput_all j_Name unit_of_job (filter (placed_on m) ?js) []) n = Some e"
      by (auto simp: place_jobs_units \<open>as_Units ms = []\<close> ran_def)
    then obtain j where "j \<in> ran (map_of (cs_jobs cs))" "u_Name e = j_Name j"
      using map_of_gput_all_SomeD by (fastforce simp: set_range_vals[OF assms(1)] unit_of_job_def)
    then have "u_Name e \<in> dom (map_of (cs_jobs cs))"
      using assms(2) by (auto simp: cluster_ok_def elim!: ranE_key)
    with assms(3) show ?thesis by blast
  qed
  then have "globals_peaceful (cs_gUnits cs) (fold (place_job m) ?js ms)"
    unfolding globals_peaceful_def by blast
  moreover have "globals_peaceful gm b \<Longrightarrow>
      globals_peaceful gm (fold (\<lambda>gu. agent_add_global (at (at ord m) (u_Name gu)) gu) gus b)" for gm gus b
    by (induction gus arbitrary: b) (simp_all add: agent_add_global_peaceful assms(1))
  ultimately show ?thesis unfolding a by blast
qed

end
