(* ===== verification/Scheduler.thy ===== *)
theory Scheduler
  imports Engine_State
begin

text \<open>
  \<open>engine/scheduler.go\<close>: the \<open>Scheduler\<close> interface as a record of functions, its contract as the
  locale \<open>scheduler\<close>, and \<open>leastLoadedScheduler\<close>, which meets it. \<open>sortableAgentStates.Less\<close> is a
  total order on agents with distinct machine IDs, so the result of \<open>sort.Sort\<close> does not depend on
  the sorting routine (\<open>sortedAgents_unique\<close>).
\<close>

record Scheduler =
  sch_Decide :: "range_order \<Rightarrow> clusterState \<Rightarrow> Job \<Rightarrow> string result"
  sch_DecideReschedule :: "range_order \<Rightarrow> clusterState \<Rightarrow> Job \<Rightarrow> string result"

definition sas_Less :: "AgentState \<Rightarrow> AgentState \<Rightarrow> bool" where
  "sas_Less a b =
     (let niUnits = length (as_Units a); njUnits = length (as_Units b)
      in niUnits < njUnits \<or> (niUnits = njUnits \<and> ms_ID (as_MState a) < ms_ID (as_MState b)))"

definition sortedAgents :: "range_order \<Rightarrow> clusterState \<Rightarrow> AgentState list" where
  "sortedAgents ord clust =
     insertionSort sas_Less (range_vals ord [''sortedAgents''] (agents ord clust))"

definition Decide :: "range_order \<Rightarrow> clusterState \<Rightarrow> Job \<Rightarrow> string result" where
  "Decide ord clust j =
     (let ags = sortedAgents ord clust in
      if length ags = 0 then Inl ''zero agents available''
      else case List.find (\<lambda>ast. fst (AbleToRun (at ord (ms_ID (as_MState ast))) ast j) \<noteq> JobActionUnschedule) ags of
             None \<Rightarrow> Inl ''no agents able to run job''
           | Some target \<Rightarrow> Inr (ms_ID (as_MState target)))"

definition DecideReschedule :: "range_order \<Rightarrow> clusterState \<Rightarrow> Job \<Rightarrow> string result" where
  "DecideReschedule ord clust j =
     (let ags = sortedAgents ord clust in
      if length ags = 0 then Inl ''zero agents available''
      else case List.find (\<lambda>ast. ms_ID (as_MState ast) \<noteq> j_TargetMachineID j) ags of
             None \<Rightarrow> Inl ''no agents able to run job''
           | Some target \<Rightarrow> Inr (ms_ID (as_MState target)))"

definition leastLoadedScheduler :: Scheduler where
  "leastLoadedScheduler = \<lparr>sch_Decide = Decide, sch_DecideReschedule = DecideReschedule\<rparr>"

section \<open>The order on agents\<close>

lemma sas_Less_asym: "sas_Less a b \<Longrightarrow> \<not> sas_Less b a"
  by (auto simp: sas_Less_def Let_def)

lemma sas_Less_cotrans: "\<not> sas_Less b a \<Longrightarrow> \<not> sas_Less c b \<Longrightarrow> \<not> sas_Less c a"
  by (auto simp: sas_Less_def Let_def not_less)

interpretation agent_sort: go_sort sas_Less "insertionSort sas_Less"
  by (rule insertionSort_go_sort) (erule sas_Less_asym, erule (1) sas_Less_cotrans)

lemma agents_gmap_ok [simp]: "valid_order ord \<Longrightarrow> cluster_ok cs \<Longrightarrow> gmap_ok (agents ord cs)"
  using agents_spec[of ord cs] by (simp add: agents_sound_def)

lemma agents_key:
  assumes "valid_order ord" "cluster_ok cs" "a \<in> ran (map_of (agents ord cs))"
  shows "map_of (agents ord cs) (ms_ID (as_MState a)) = Some a"
  using agents_spec[OF assms(1,2)] assms(3)
  by (auto simp: agents_sound_def agent_units_ok_def elim!: ranE_key)

lemma set_sortedAgents:
  "valid_order ord \<Longrightarrow> set (sortedAgents ord cs) = ran (map_of (agents ord cs))"
  by (simp add: sortedAgents_def agent_sort.srt_set set_range_vals)

lemma sortedAgents_least:
  "sortedAgents ord cs = pre @ a # post \<Longrightarrow> b \<in> set post \<Longrightarrow> \<not> sas_Less b a"
  using agent_sort.srt_sorted[of "range_vals ord [''sortedAgents''] (agents ord cs)"]
  by (auto simp: sortedAgents_def sorted_wrt_append)

text \<open>Any sorting routine that meets the \<open>sort.Sort\<close> contract gives the same list of agents.\<close>

theorem sortedAgents_unique:
  assumes "valid_order ord" "cluster_ok cs" "go_sort sas_Less srt"
  shows "srt (range_vals ord [''sortedAgents''] (agents ord cs)) = sortedAgents ord cs"
proof -
  let ?l = "range_vals ord [''sortedAgents''] (agents ord cs)"
  have "set ?l = ran (map_of (agents ord cs))" by (rule set_range_vals[OF assms(1)])
  then have key: "map_of (agents ord cs) (ms_ID (as_MState a)) = Some a" if "a \<in> set ?l" for a
    using that agents_key[OF assms(1,2)] by simp
  have "sas_Less a b \<or> sas_Less b a" if "a \<in> set ?l" "b \<in> set ?l" "a \<noteq> b" for a b
  proof -
    have "ms_ID (as_MState a) \<noteq> ms_ID (as_MState b)" using key[OF that(1)] key[OF that(2)] that(3) by auto
    then show ?thesis by (auto simp: sas_Less_def Let_def not_less)
  qed
  then show ?thesis
    unfolding sortedAgents_def
    by (intro sorted_wrt_unique[where lt = sas_Less])
      (simp_all add: go_sort.srt_mset[OF assms(3)] go_sort.srt_sorted[OF assms(3)]
        go_sort.srt_set[OF assms(3)] agent_sort.srt_mset agent_sort.srt_sorted)
qed

section \<open>The scheduler contract\<close>

text \<open>
  What the reconciler relies on. A decision is a live machine: \<open>Decide\<close> picks one whose agent meets
  the job's requirements and fails only if there is none; \<open>DecideReschedule\<close> picks one other than
  the current target and fails only if there is none.
\<close>

locale scheduler =
  fixes sched :: Scheduler
  assumes Decide_able:
    "\<lbrakk>valid_order ord; cluster_ok cs; sch_Decide sched ord cs j = Inr m\<rbrakk> \<Longrightarrow>
       \<exists>a. map_of (agents ord cs) m = Some a \<and> requirements_met a j"
    and Decide_none:
    "\<lbrakk>valid_order ord; cluster_ok cs; sch_Decide sched ord cs j = Inl e\<rbrakk> \<Longrightarrow>
       \<forall>a \<in> ran (map_of (agents ord cs)). \<not> requirements_met a j"
    and Reschedule_other:
    "\<lbrakk>valid_order ord; cluster_ok cs; sch_DecideReschedule sched ord cs j = Inr m\<rbrakk> \<Longrightarrow>
       m \<in> dom (map_of (cs_machines cs)) \<and> m \<noteq> j_TargetMachineID j"
    and Reschedule_none:
    "\<lbrakk>valid_order ord; cluster_ok cs; sch_DecideReschedule sched ord cs j = Inl e\<rbrakk> \<Longrightarrow>
       dom (map_of (cs_machines cs)) \<subseteq> {j_TargetMachineID j}"
begin

lemma Decide_live:
  "\<lbrakk>valid_order ord; cluster_ok cs; sch_Decide sched ord cs j = Inr m\<rbrakk> \<Longrightarrow>
     m \<in> dom (map_of (cs_machines cs))"
  using Decide_able agents_spec by blast

end

lemma able_iff:
  "valid_order ord \<Longrightarrow> fst (AbleToRun ord a j) \<noteq> JobActionUnschedule \<longleftrightarrow> requirements_met a j"
  by (simp add: AbleToRun_action)

lemma Decide_find:
  assumes "valid_order ord"
  shows "Decide ord cs j = (case List.find (\<lambda>a. requirements_met a j) (sortedAgents ord cs) of
      None \<Rightarrow> if sortedAgents ord cs = [] then Inl ''zero agents available'' else Inl ''no agents able to run job''
    | Some a \<Rightarrow> Inr (ms_ID (as_MState a)))"
  using assms by (auto simp: Decide_def able_iff Let_def)

lemma DecideReschedule_find:
  "DecideReschedule ord cs j =
    (case List.find (\<lambda>a. ms_ID (as_MState a) \<noteq> j_TargetMachineID j) (sortedAgents ord cs) of
      None \<Rightarrow> if sortedAgents ord cs = [] then Inl ''zero agents available'' else Inl ''no agents able to run job''
    | Some a \<Rightarrow> Inr (ms_ID (as_MState a)))"
  by (auto simp: DecideReschedule_def Let_def)

lemma Decide_least:
  assumes "valid_order ord" "cluster_ok cs" "Decide ord cs j = Inr m"
  shows "\<exists>a. map_of (agents ord cs) m = Some a \<and> requirements_met a j \<and>
    (\<forall>b \<in> ran (map_of (agents ord cs)). requirements_met b j \<longrightarrow> \<not> sas_Less b a)"
proof -
  from assms(3) obtain a where
    f: "List.find (\<lambda>a. requirements_met a j) (sortedAgents ord cs) = Some a" and m: "m = ms_ID (as_MState a)"
    by (auto simp: Decide_find[OF assms(1)] split: option.splits if_splits)
  obtain pre post where sp: "sortedAgents ord cs = pre @ a # post" and
    pre: "\<forall>b\<in>set pre. \<not> requirements_met b j" and able: "requirements_met a j"
    using find_split[OF f] by blast
  have "a \<in> ran (map_of (agents ord cs))" using sp by (simp flip: set_sortedAgents[OF assms(1)])
  with agents_key[OF assms(1,2)] m have "map_of (agents ord cs) m = Some a" by simp
  moreover have "\<not> sas_Less b a" if "b \<in> ran (map_of (agents ord cs))" "requirements_met b j" for b
  proof -
    have "b = a \<or> b \<in> set post" using that pre sp by (auto simp flip: set_sortedAgents[OF assms(1)])
    then show ?thesis using sortedAgents_least[OF sp] sas_Less_asym by blast
  qed
  ultimately show ?thesis using able by blast
qed

lemma Decide_none_able:
  assumes "valid_order ord" "Decide ord cs j = Inl e"
  shows "\<forall>a \<in> ran (map_of (agents ord cs)). \<not> requirements_met a j"
proof -
  have "List.find (\<lambda>a. requirements_met a j) (sortedAgents ord cs) = None"
    using assms by (auto simp: Decide_find split: option.splits)
  then show ?thesis by (simp add: find_None_iff set_sortedAgents[OF assms(1)])
qed

lemma DecideReschedule_least:
  assumes "valid_order ord" "cluster_ok cs" "DecideReschedule ord cs j = Inr m"
  shows "\<exists>a. map_of (agents ord cs) m = Some a \<and> m \<noteq> j_TargetMachineID j \<and>
    (\<forall>b \<in> ran (map_of (agents ord cs)). ms_ID (as_MState b) \<noteq> j_TargetMachineID j \<longrightarrow> \<not> sas_Less b a)"
proof -
  from assms(3) obtain a where
    f: "List.find (\<lambda>a. ms_ID (as_MState a) \<noteq> j_TargetMachineID j) (sortedAgents ord cs) = Some a"
    and m: "m = ms_ID (as_MState a)"
    by (auto simp: DecideReschedule_find split: option.splits if_splits)
  obtain pre post where sp: "sortedAgents ord cs = pre @ a # post" and
    pre: "\<forall>b\<in>set pre. \<not> ms_ID (as_MState b) \<noteq> j_TargetMachineID j" and
    other: "ms_ID (as_MState a) \<noteq> j_TargetMachineID j"
    using find_split[OF f] by blast
  have "a \<in> ran (map_of (agents ord cs))" using sp by (simp flip: set_sortedAgents[OF assms(1)])
  with agents_key[OF assms(1,2)] m have "map_of (agents ord cs) m = Some a" by simp
  moreover have "\<not> sas_Less b a"
    if "b \<in> ran (map_of (agents ord cs))" "ms_ID (as_MState b) \<noteq> j_TargetMachineID j" for b
  proof -
    have "b = a \<or> b \<in> set post" using that pre sp by (auto simp flip: set_sortedAgents[OF assms(1)])
    then show ?thesis using sortedAgents_least[OF sp] sas_Less_asym by blast
  qed
  ultimately show ?thesis using m other by blast
qed

lemma DecideReschedule_none_other:
  assumes "valid_order ord" "cluster_ok cs" "DecideReschedule ord cs j = Inl e"
  shows "dom (map_of (cs_machines cs)) \<subseteq> {j_TargetMachineID j}"
proof
  fix m assume "m \<in> dom (map_of (cs_machines cs))"
  then obtain a where a: "map_of (agents ord cs) m = Some a"
    using agents_spec[OF assms(1,2)] by (metis domD)
  have "List.find (\<lambda>a. ms_ID (as_MState a) \<noteq> j_TargetMachineID j) (sortedAgents ord cs) = None"
    using assms(3) by (auto simp: DecideReschedule_find split: option.splits)
  moreover have "a \<in> set (sortedAgents ord cs)" using a by (auto simp: set_sortedAgents[OF assms(1)] ran_def)
  ultimately have "ms_ID (as_MState a) = j_TargetMachineID j" by (auto simp: find_None_iff)
  moreover have "ms_ID (as_MState a) = m"
    using agents_spec[OF assms(1,2)] a by (auto simp: agents_sound_def agent_units_ok_def)
  ultimately show "m \<in> {j_TargetMachineID j}" by simp
qed

interpretation lls: scheduler leastLoadedScheduler
proof
  fix ord cs j m e
  assume ok: "valid_order ord" "cluster_ok cs"
  show "sch_Decide leastLoadedScheduler ord cs j = Inr m \<Longrightarrow>
      \<exists>a. map_of (agents ord cs) m = Some a \<and> requirements_met a j"
    using Decide_least[OF ok, of j m] by (auto simp: leastLoadedScheduler_def)
  show "sch_Decide leastLoadedScheduler ord cs j = Inl e \<Longrightarrow>
      \<forall>a \<in> ran (map_of (agents ord cs)). \<not> requirements_met a j"
    using Decide_none_able[OF ok(1), of cs j e] by (simp add: leastLoadedScheduler_def)
  show "sch_DecideReschedule leastLoadedScheduler ord cs j = Inr m \<Longrightarrow>
      m \<in> dom (map_of (cs_machines cs)) \<and> m \<noteq> j_TargetMachineID j"
    using DecideReschedule_least[OF ok, of j m] agents_spec[OF ok] by (auto simp: leastLoadedScheduler_def)
  show "sch_DecideReschedule leastLoadedScheduler ord cs j = Inl e \<Longrightarrow>
      dom (map_of (cs_machines cs)) \<subseteq> {j_TargetMachineID j}"
    using DecideReschedule_none_other[OF ok] by (simp add: leastLoadedScheduler_def)
qed

end
