(* ===== verification/Engine_Reconcile.thy ===== *)
theory Engine_Reconcile
  imports Scheduler
begin

text \<open>
  \<open>engine/reconciler.go\<close>: one pass of the engine over the cluster. The goroutine of
  \<open>calculateClusterTasks\<close> is a function on a run state: the cluster state it updates, the tasks it
  has put on the channel and whether it has returned early. \<open>stopAt\<close> is the number of tasks that
  are sent before the stop channel closes (\<open>None\<close>: it stays open).
\<close>

definition taskTypeUnscheduleUnit :: string where
  "taskTypeUnscheduleUnit = ''UnscheduleUnit''"

definition taskTypeAttemptScheduleUnit :: string where
  "taskTypeAttemptScheduleUnit = ''AttemptScheduleUnit''"

lemma taskType_distinct [simp]:
  "taskTypeUnscheduleUnit \<noteq> taskTypeAttemptScheduleUnit"
  "taskTypeAttemptScheduleUnit \<noteq> taskTypeUnscheduleUnit"
  by (simp_all add: taskTypeUnscheduleUnit_def taskTypeAttemptScheduleUnit_def)

record task =
  t_Type :: string
  t_Reason :: string
  t_JobName :: string
  t_MachineID :: string

record run =
  r_clust :: clusterState
  r_tasks :: "task list"
  r_done :: bool

definition send :: "nat option \<Rightarrow> string \<Rightarrow> string \<Rightarrow> string \<Rightarrow> string \<Rightarrow> run \<Rightarrow> bool \<times> run" where
  "send stopAt typ reason jName machID r =
     (if (case stopAt of None \<Rightarrow> True | Some n \<Rightarrow> length (r_tasks r) < n)
      then (True, r\<lparr>r_tasks := r_tasks r @
              [\<lparr>t_Type = typ, t_Reason = reason, t_JobName = jName, t_MachineID = machID\<rparr>]\<rparr>)
      else (False, r))"

definition decide :: "range_order \<Rightarrow> clusterState \<Rightarrow> Job \<Rightarrow> JobAction \<times> string" where
  "decide ord clust j =
     (if j_TargetState j = JobStateInactive then (JobActionUnschedule, ''target state inactive'')
      else case map_of (agents ord clust) (j_TargetMachineID j) of
             None \<Rightarrow> (JobActionUnschedule, ''target Machine('' @ j_TargetMachineID j @ '') went away'')
           | Some ast \<Rightarrow>
               let (act, ableReason) = AbleToRun ord ast j in
               if act \<noteq> JobActionSchedule
               then (act, ''target Machine('' @ j_TargetMachineID j @ '') unable to run unit: '' @ ableReason)
               else (JobActionSchedule, []))"

text \<open>
  One iteration of the loop of \<open>handle_reschedule\<close>: \<open>jk\<close> and \<open>ck\<close> are the map keys of the two jobs,
  and \<open>j\<close> and \<open>cj\<close> what the pointers stored there point to now.
\<close>

definition handle_reschedule_step ::
  "range_order \<Rightarrow> Scheduler \<Rightarrow> nat option \<Rightarrow> AgentState \<Rightarrow> string \<Rightarrow> string \<Rightarrow> string \<Rightarrow> bool \<times> run \<Rightarrow> bool \<times> run" where
  "handle_reschedule_step ord sched stopAt ast jk reason ck st =
     (let (isRescheduled, r) = st;
          cj = the (map_of (cs_jobs (r_clust r)) ck);
          j = the (map_of (cs_jobs (r_clust r)) jk)
      in if \<not> Scheduled cj then st
         else if j_Name j \<noteq> j_Name cj then st
         else case GetReplacedUnit (at ord ck) ast j of
                Inl err \<Rightarrow> st
              | Inr replacedUnit \<Rightarrow>
                  let (sent, r) = send stopAt taskTypeUnscheduleUnit reason replacedUnit (j_TargetMachineID j) r
                  in if \<not> sent then (isRescheduled, r)
                     else case sch_DecideReschedule sched (at ord ck) (r_clust r) j of
                            Inl err \<Rightarrow> (isRescheduled, r)
                          | Inr dec \<Rightarrow>
                              let (sent, r) = send stopAt taskTypeAttemptScheduleUnit reason replacedUnit dec r
                              in if \<not> sent then (isRescheduled, r)
                                 else
                                   let clust = cs_schedule replacedUnit dec (r_clust r);
                                       j = the (map_of (cs_jobs clust) jk);
                                       clust = cs_schedule (j_Name j) (j_TargetMachineID j) clust
                                   in (True, r\<lparr>r_clust := clust\<rparr>))"

definition handle_reschedule ::
  "range_order \<Rightarrow> Scheduler \<Rightarrow> nat option \<Rightarrow> string \<Rightarrow> string \<Rightarrow> run \<Rightarrow> bool \<times> run" where
  "handle_reschedule ord sched stopAt jk reason r =
     (let j = the (map_of (cs_jobs (r_clust r)) jk) in
      case map_of (agents ord (r_clust r)) (j_TargetMachineID j) of
        None \<Rightarrow> (False, r)
      | Some ast \<Rightarrow>
          fold (handle_reschedule_step ord sched stopAt ast jk reason)
            (ord [''handle_reschedule''] (gkeys (cs_jobs (r_clust r)))) (False, r))"

definition unschedule_step :: "range_order \<Rightarrow> Scheduler \<Rightarrow> nat option \<Rightarrow> string \<Rightarrow> run \<Rightarrow> run" where
  "unschedule_step ord sched stopAt jk r =
     (if r_done r then r
      else
        let j = the (map_of (cs_jobs (r_clust r)) jk) in
        if \<not> Scheduled j then r
        else
          let (act, reason) = decide (at (at ord jk) ''decide'') (r_clust r) j;
              (rescheduled, r) =
                (if act = JobActionReschedule
                 then handle_reschedule (at (at ord jk) ''handle'') sched stopAt jk reason r
                 else (False, r))
          in if rescheduled then r
             else if act \<noteq> JobActionUnschedule then r
             else
               let (sent, r) = send stopAt taskTypeUnscheduleUnit reason (j_Name j) (j_TargetMachineID j) r
               in if \<not> sent then r\<lparr>r_done := True\<rparr>
                  else r\<lparr>r_clust := cs_unschedule (j_Name j) (r_clust r)\<rparr>)"

definition schedule_step :: "range_order \<Rightarrow> Scheduler \<Rightarrow> nat option \<Rightarrow> string \<Rightarrow> run \<Rightarrow> run" where
  "schedule_step ord sched stopAt jk r =
     (if r_done r then r
      else
        let j = the (map_of (cs_jobs (r_clust r)) jk) in
        if Scheduled j \<or> j_TargetState j = JobStateInactive then r
        else case sch_Decide sched (at ord jk) (r_clust r) j of
               Inl err \<Rightarrow> r
             | Inr dec \<Rightarrow>
                 let reason = ''target state '' @ j_TargetState j @ '' and unit not scheduled'';
                     (sent, r) = send stopAt taskTypeAttemptScheduleUnit reason (j_Name j) dec r
                 in if \<not> sent then r\<lparr>r_done := True\<rparr>
                    else r\<lparr>r_clust := cs_schedule (j_Name j) dec (r_clust r)\<rparr>)"

definition calculateClusterTasks :: "range_order \<Rightarrow> Scheduler \<Rightarrow> nat option \<Rightarrow> clusterState \<Rightarrow> run" where
  "calculateClusterTasks ord sched stopAt clust =
     (let r = fold (unschedule_step (at ord ''unschedule'') sched stopAt)
                (ord [''unscheduleJobs''] (gkeys (cs_jobs clust)))
                \<lparr>r_clust = clust, r_tasks = [], r_done = False\<rparr>
      in fold (schedule_step (at ord ''schedule'') sched stopAt)
           (ord [''scheduleJobs''] (gkeys (cs_jobs (r_clust r)))) r)"

section \<open>The pass as a sequence of events\<close>

definition can_send :: "nat option \<Rightarrow> run \<Rightarrow> bool" where
  "can_send stopAt r = (case stopAt of None \<Rightarrow> True | Some n \<Rightarrow> length (r_tasks r) < n)"

definition push_task :: "string \<Rightarrow> string \<Rightarrow> string \<Rightarrow> string \<Rightarrow> run \<Rightarrow> run" where
  "push_task typ reason n m r =
     r\<lparr>r_tasks := r_tasks r @ [\<lparr>t_Type = typ, t_Reason = reason, t_JobName = n, t_MachineID = m\<rparr>]\<rparr>"

lemma send_eq:
  "send stopAt typ reason n m r =
     (if can_send stopAt r then (True, push_task typ reason n m r) else (False, r))"
  by (simp add: send_def can_send_def push_task_def)

lemma push_task_simps [simp]:
  "r_clust (push_task typ reason n m r) = r_clust r"
  "r_done (push_task typ reason n m r) = r_done r"
  "r_tasks (push_task typ reason n m r) =
     r_tasks r @ [\<lparr>t_Type = typ, t_Reason = reason, t_JobName = n, t_MachineID = m\<rparr>]"
  by (simp_all add: push_task_def)

lemma can_send_None [simp]: "can_send None r"
  by (simp add: can_send_def)

text \<open>
  What visiting the job under key \<open>k\<close> can do, with the conditions the code has checked. \<open>half_moved\<close>
  is the visit that unschedules a replaced unit and then finds no machine for it (or is stopped).
\<close>

inductive visit_event :: "nat option \<Rightarrow> string \<Rightarrow> run \<Rightarrow> run \<Rightarrow> bool"
  for stopAt :: "nat option" and k :: string where
  idle: "\<lbrakk>map_of (cs_jobs (r_clust r)) k = Some j; \<not> Scheduled j\<rbrakk> \<Longrightarrow> visit_event stopAt k r r"
| finished: "r_done r \<Longrightarrow> visit_event stopAt k r r"
| kept: "\<lbrakk>map_of (cs_jobs (r_clust r)) k = Some j; Scheduled j; j_TargetState j \<noteq> JobStateInactive;
     valid_order o1; map_of (agents o1 (r_clust r)) (j_TargetMachineID j) = Some a; requirements_met a j\<rbrakk>
   \<Longrightarrow> visit_event stopAt k r r"
| unscheduled: "\<lbrakk>map_of (cs_jobs (r_clust r)) k = Some j; Scheduled j;
     j_TargetState j = JobStateInactive \<or> j_TargetMachineID j \<notin> dom (map_of (cs_machines (r_clust r))) \<or>
     (valid_order o1 \<and> map_of (agents o1 (r_clust r)) (j_TargetMachineID j) = Some a \<and> \<not> requirements_met a j);
     can_send stopAt r; r1 = push_task taskTypeUnscheduleUnit reason k (j_TargetMachineID j) r\<rbrakk>
   \<Longrightarrow> visit_event stopAt k r (r1\<lparr>r_clust := cs_unschedule k (r_clust r)\<rparr>)"
| stopped: "\<not> can_send stopAt r \<Longrightarrow> visit_event stopAt k r (r\<lparr>r_done := True\<rparr>)"
| moved: "\<lbrakk>map_of (cs_jobs (r_clust r)) k = Some j; Scheduled j; j_TargetState j \<noteq> JobStateInactive;
     valid_order o1; map_of (agents o1 (r_clust r)) (j_TargetMachineID j) = Some a;
     e \<in> ran (map_of (as_Units a)); replacing k (Replaces j) e; can_send stopAt r;
     r1 = push_task taskTypeUnscheduleUnit reason (u_Name e) (j_TargetMachineID j) r; can_send stopAt r1;
     m \<in> dom (map_of (cs_machines (r_clust r))); m \<noteq> j_TargetMachineID j;
     r2 = push_task taskTypeAttemptScheduleUnit reason (u_Name e) m r1\<rbrakk>
   \<Longrightarrow> visit_event stopAt k r (r2\<lparr>r_clust := cs_schedule (u_Name e) m (r_clust r)\<rparr>)"
| half_moved: "\<lbrakk>map_of (cs_jobs (r_clust r)) k = Some j; Scheduled j; j_TargetState j \<noteq> JobStateInactive;
     valid_order o1; map_of (agents o1 (r_clust r)) (j_TargetMachineID j) = Some a;
     e \<in> ran (map_of (as_Units a)); replacing k (Replaces j) e; can_send stopAt r;
     r1 = push_task taskTypeUnscheduleUnit reason (u_Name e) (j_TargetMachineID j) r;
     dom (map_of (cs_machines (r_clust r))) \<subseteq> {j_TargetMachineID j} \<or> \<not> can_send stopAt r1\<rbrakk>
   \<Longrightarrow> visit_event stopAt k r r1"

inductive place_event :: "nat option \<Rightarrow> string \<Rightarrow> run \<Rightarrow> run \<Rightarrow> bool"
  for stopAt :: "nat option" and k :: string where
  skipped: "\<lbrakk>map_of (cs_jobs (r_clust r)) k = Some j; Scheduled j \<or> j_TargetState j = JobStateInactive\<rbrakk>
   \<Longrightarrow> place_event stopAt k r r"
| finished: "r_done r \<Longrightarrow> place_event stopAt k r r"
| unplaced: "\<lbrakk>map_of (cs_jobs (r_clust r)) k = Some j; \<not> Scheduled j; j_TargetState j \<noteq> JobStateInactive;
     valid_order o1; \<forall>a \<in> ran (map_of (agents o1 (r_clust r))). \<not> requirements_met a j\<rbrakk>
   \<Longrightarrow> place_event stopAt k r r"
| stopped: "\<not> can_send stopAt r \<Longrightarrow> place_event stopAt k r (r\<lparr>r_done := True\<rparr>)"
| placed: "\<lbrakk>map_of (cs_jobs (r_clust r)) k = Some j; \<not> Scheduled j; j_TargetState j \<noteq> JobStateInactive;
     valid_order o1; map_of (agents o1 (r_clust r)) m = Some a; requirements_met a j; can_send stopAt r;
     r1 = push_task taskTypeAttemptScheduleUnit reason k m r\<rbrakk>
   \<Longrightarrow> place_event stopAt k r (r1\<lparr>r_clust := cs_schedule k m (r_clust r)\<rparr>)"

section \<open>The code performs these events\<close>

lemma cs_schedule_self:
  "map_of (cs_jobs cs) k = Some j \<Longrightarrow> cs_schedule k (j_TargetMachineID j) cs = cs"
  by (simp add: cs_schedule_def gput_same)

lemma cluster_ok_name: "cluster_ok cs \<Longrightarrow> map_of (cs_jobs cs) k = Some j \<Longrightarrow> j_Name j = k"
  by (simp add: cluster_ok_def)

lemma handle_step_other:
  assumes "cluster_ok (r_clust r)" "map_of (cs_jobs (r_clust r)) jk = Some j"
    "map_of (cs_jobs (r_clust r)) ck = Some cj" "ck \<noteq> jk"
  shows "handle_reschedule_step ord sched stopAt ast jk reason ck (b, r) = (b, r)"
  using assms cluster_ok_name[OF assms(1,2)] cluster_ok_name[OF assms(1,3)]
  by (simp add: handle_reschedule_step_def)

lemma handle_step_frame:
  assumes "handle_reschedule_step ord sched stopAt ast jk reason ck (b, r) = (b', r')" "cluster_ok (r_clust r)"
  shows "cluster_ok (r_clust r') \<and> dom (map_of (cs_jobs (r_clust r'))) = dom (map_of (cs_jobs (r_clust r)))"
  using assms
  by (simp add: handle_reschedule_step_def send_eq Let_def split: if_splits sum.splits; clarsimp)

lemma handle_fold_others:
  assumes "cluster_ok (r_clust r)" "jk \<in> dom (map_of (cs_jobs (r_clust r)))"
    "set xs \<subseteq> dom (map_of (cs_jobs (r_clust r)))" "jk \<notin> set xs"
  shows "fold (handle_reschedule_step ord sched stopAt ast jk reason) xs (b, r) = (b, r)"
  using assms by (induction xs) (auto simp: handle_step_other)

lemma handle_reschedule_single:
  assumes "valid_order ord" "cluster_ok (r_clust r)" "map_of (cs_jobs (r_clust r)) jk = Some j"
    "map_of (agents ord (r_clust r)) (j_TargetMachineID j) = Some ast"
  shows "handle_reschedule ord sched stopAt jk reason r =
    handle_reschedule_step ord sched stopAt ast jk reason jk (False, r)"
proof -
  let ?f = "handle_reschedule_step ord sched stopAt ast jk reason"
  let ?xs = "ord [''handle_reschedule''] (gkeys (cs_jobs (r_clust r)))"
  have "jk \<in> set ?xs" using assms(1,3) by (auto simp: order_simps)
  then obtain as bs where xs: "?xs = as @ jk # bs" by (meson split_list)
  have sub: "set ?xs = dom (map_of (cs_jobs (r_clust r)))" using assms(1) by (simp add: order_simps)
  have "distinct ?xs" using assms(1,2) by (simp add: order_simps cluster_ok_def)
  then have notin: "jk \<notin> set as" "jk \<notin> set bs" by (auto simp: xs)
  obtain b' r' where st: "?f jk (False, r) = (b', r')" by fastforce
  have fst: "fold ?f as (False, r) = (False, r)"
    by (rule handle_fold_others[OF assms(2) _ _ notin(1)]) (use assms(3) sub xs in auto)
  have snd: "fold ?f bs (b', r') = (b', r')"
    by (rule handle_fold_others[OF handle_step_frame[OF st assms(2), THEN conjunct1] _ _ notin(2)])
      (use assms(3) sub xs handle_step_frame[OF st assms(2)] in auto)
  show ?thesis by (simp add: handle_reschedule_def assms(3,4) xs fst st snd)
qed

lemma decide_cases:
  assumes "valid_order ord" "decide ord cs j = (act, reason)"
  obtains (inactive) "j_TargetState j = JobStateInactive" "act = JobActionUnschedule"
  | (away) "j_TargetState j \<noteq> JobStateInactive" "map_of (agents ord cs) (j_TargetMachineID j) = None"
      "act = JobActionUnschedule"
  | (present) a where "j_TargetState j \<noteq> JobStateInactive"
      "map_of (agents ord cs) (j_TargetMachineID j) = Some a"
      "act = (if \<not> requirements_met a j then JobActionUnschedule
              else if has_replacement a j then JobActionReschedule else JobActionSchedule)"
  using assms AbleToRun_action[OF assms(1), of "the (map_of (agents ord cs) (j_TargetMachineID j))" j]
  by (cases "map_of (agents ord cs) (j_TargetMachineID j)")
    (auto simp: decide_def Let_def split: if_splits prod.splits)

lemma agents_dom: "valid_order ord \<Longrightarrow> cluster_ok cs \<Longrightarrow> map_of (agents ord cs) m = None \<longleftrightarrow> m \<notin> dom (map_of (cs_machines cs))"
  using agents_spec[of ord cs] by (metis domIff)

lemma agents_live:
  "valid_order ord \<Longrightarrow> cluster_ok cs \<Longrightarrow> map_of (agents ord cs) m = Some a \<Longrightarrow> m \<in> dom (map_of (cs_machines cs))"
  using agents_dom[of ord cs m] by auto

lemma replaced_other: "replacing p pr e \<Longrightarrow> u_Name e \<noteq> p"
  by (auto simp: replacing_def)

lemma cs_schedule_other: "n \<noteq> k \<Longrightarrow> map_of (cs_jobs (cs_schedule n m cs)) k = map_of (cs_jobs cs) k"
  by (simp add: cs_schedule_def split: option.split)

context scheduler
begin

lemma handle_reschedule_event:
  assumes ok: "valid_order ord" "cluster_ok (r_clust r)"
    and j: "map_of (cs_jobs (r_clust r)) k = Some j" "Scheduled j" "j_TargetState j \<noteq> JobStateInactive"
    and h: "handle_reschedule ord sched stopAt k reason r = (b, r')"
  shows "visit_event stopAt k r r' \<or> (\<not> b \<and> r' = r)"
proof (cases "map_of (agents ord (r_clust r)) (j_TargetMachineID j)")
  case None
  then show ?thesis using h j by (simp add: handle_reschedule_def)
next
  case (Some ast)
  have name: "j_Name j = k" by (rule cluster_ok_name[OF ok(2) j(1)])
  have h': "handle_reschedule_step ord sched stopAt ast k reason k (False, r) = (b, r')"
    using h handle_reschedule_single[OF ok j(1) Some] by simp
  show ?thesis
  proof (cases "GetReplacedUnit (at ord k) ast j")
    case (Inl err)
    with h' j show ?thesis by (simp add: handle_reschedule_step_def)
  next
    case (Inr n)
    then obtain e where e: "e \<in> ran (map_of (as_Units ast))" "replacing k (Replaces j) e" "n = u_Name e"
      using GetReplacedUnit_Inr[OF valid_order_at[OF ok(1)]] name by blast
    let ?r1 = "push_task taskTypeUnscheduleUnit reason n (j_TargetMachineID j) r"
    show ?thesis
    proof (cases "\<not> can_send stopAt r")
      case True
      with h' j Inr show ?thesis by (simp add: handle_reschedule_step_def send_eq)
    next
      case False
      show ?thesis
      proof (cases "sch_DecideReschedule sched (at ord k) (r_clust r) j")
        case (Inl err)
        then have "dom (map_of (cs_machines (r_clust r))) \<subseteq> {j_TargetMachineID j}"
          using Reschedule_none[OF valid_order_at[OF ok(1)] ok(2)] by blast
        moreover have "r' = ?r1" using h' j Inr False Inl by (simp add: handle_reschedule_step_def send_eq)
        ultimately show ?thesis
          using visit_event.half_moved[OF j ok(1) Some e(1,2), of stopAt ?r1 reason] False e(3) by simp
      next
        case dec: (Inr m)
        note live = Reschedule_other[OF valid_order_at[OF ok(1)] ok(2) dec]
        show ?thesis
        proof (cases "can_send stopAt ?r1")
          case True
          have "map_of (cs_jobs (cs_schedule n m (r_clust r))) k = Some j"
            using replaced_other[OF e(2)] e(3) j(1) by (simp add: cs_schedule_other)
          then have "r' = (push_task taskTypeAttemptScheduleUnit reason n m ?r1)
              \<lparr>r_clust := cs_schedule n m (r_clust r)\<rparr>"
            using h' j Inr False dec True name
            by (simp add: handle_reschedule_step_def send_eq cs_schedule_self Let_def)
          then show ?thesis
            using visit_event.moved[OF j ok(1) Some e(1,2), of stopAt ?r1 reason m] False True live e(3) by simp
        next
          case stop: False
          then have "r' = ?r1" using h' j Inr False dec by (simp add: handle_reschedule_step_def send_eq)
          then show ?thesis
            using visit_event.half_moved[OF j ok(1) Some e(1,2), of stopAt ?r1 reason] False stop e(3) by simp
        qed
      qed
    qed
  qed
qed

lemma unschedule_step_event:
  assumes ok: "valid_order ord" "cluster_ok (r_clust r)" and k: "map_of (cs_jobs (r_clust r)) k = Some j"
  shows "visit_event stopAt k r (unschedule_step ord sched stopAt k r)"
proof (cases "r_done r \<or> \<not> Scheduled j")
  case True
  then show ?thesis using k by (auto simp: unschedule_step_def intro: visit_event.intros)
next
  case False
  let ?od = "at (at ord k) ''decide''"
  have od: "valid_order ?od" and oh: "valid_order (at (at ord k) ''handle'')" using ok by auto
  obtain act reason where d: "decide ?od (r_clust r) j = (act, reason)" by fastforce
  have name: "j_Name j = k" by (rule cluster_ok_name[OF ok(2) k])
  have uns: "unschedule_step ord sched stopAt k r =
      (if can_send stopAt r
       then (push_task taskTypeUnscheduleUnit reason k (j_TargetMachineID j) r)\<lparr>r_clust := cs_unschedule k (r_clust r)\<rparr>
       else r\<lparr>r_done := True\<rparr>)" if "act = JobActionUnschedule"
    using False k d that name by (simp add: unschedule_step_def send_eq)
  from od d show ?thesis
  proof (cases rule: decide_cases)
    case inactive
    with uns False k show ?thesis by (auto intro!: visit_event.stopped visit_event.unscheduled)
  next
    case away
    then have "j_TargetMachineID j \<notin> dom (map_of (cs_machines (r_clust r)))"
      using agents_dom[OF od ok(2)] by blast
    with uns False k away(3) show ?thesis by (auto intro!: visit_event.stopped visit_event.unscheduled)
  next
    case (present a)
    show ?thesis
    proof (cases "requirements_met a j")
      case False
      with present uns \<open>\<not> (r_done r \<or> \<not> Scheduled j)\<close> k od show ?thesis
        using visit_event.unscheduled[OF k _ _ _ refl, of ?od a stopAt reason] by (auto intro: visit_event.stopped)
    next
      case True
      have kept: "visit_event stopAt k r r"
        using visit_event.kept[OF k _ present(1) od present(2) True] False by blast
      obtain b r' where h: "handle_reschedule (at (at ord k) ''handle'') sched stopAt k reason r = (b, r')"
        by fastforce
      have "unschedule_step ord sched stopAt k r = (if act = JobActionReschedule then r' else r)"
        using False k d present(3) True h by (auto simp: unschedule_step_def split: if_splits)
      then show ?thesis
        using kept handle_reschedule_event[OF oh ok(2) k _ present(1) h] False by auto
    qed
  qed
qed

lemma schedule_step_event:
  assumes ok: "valid_order ord" "cluster_ok (r_clust r)" and k: "map_of (cs_jobs (r_clust r)) k = Some j"
  shows "place_event stopAt k r (schedule_step ord sched stopAt k r)"
proof (cases "r_done r \<or> Scheduled j \<or> j_TargetState j = JobStateInactive")
  case True
  then show ?thesis using k by (auto simp: schedule_step_def intro: place_event.intros)
next
  case False
  have o1: "valid_order (at ord k)" using ok by auto
  have name: "j_Name j = k" by (rule cluster_ok_name[OF ok(2) k])
  show ?thesis
  proof (cases "sch_Decide sched (at ord k) (r_clust r) j")
    case (Inl err)
    with False k show ?thesis
      using place_event.unplaced[OF k _ _ o1 Decide_none[OF o1 ok(2) Inl]] by (simp add: schedule_step_def)
  next
    case (Inr m)
    then obtain a where a: "map_of (agents (at ord k) (r_clust r)) m = Some a" "requirements_met a j"
      using Decide_able[OF o1 ok(2)] by blast
    with False k Inr name show ?thesis
      using place_event.placed[OF k _ _ o1 a _ refl, of stopAt] place_event.stopped[of stopAt r k]
      by (simp add: schedule_step_def send_eq Let_def)
  qed
qed

end

section \<open>Invariants of a pass\<close>

text \<open>A pass changes nothing of a cluster but the target machines of its jobs.\<close>

definition same_but_targets :: "clusterState \<Rightarrow> clusterState \<Rightarrow> bool" where
  "same_but_targets cs cs' \<longleftrightarrow>
     cs_gUnits cs' = cs_gUnits cs \<and> cs_machines cs' = cs_machines cs \<and>
     (\<forall>k. map_option (j_TargetMachineID_update (\<lambda>_. [])) (map_of (cs_jobs cs') k) =
          map_option (j_TargetMachineID_update (\<lambda>_. [])) (map_of (cs_jobs cs) k))"

lemma same_but_targets_refl [simp]: "same_but_targets cs cs"
  by (simp add: same_but_targets_def)

lemma same_but_targets_trans: "same_but_targets a b \<Longrightarrow> same_but_targets b c \<Longrightarrow> same_but_targets a c"
  by (simp add: same_but_targets_def)

lemma same_but_targets_schedule [simp]: "same_but_targets cs (cs_schedule n m cs)"
  by (auto simp: same_but_targets_def cs_schedule_def split: option.split)

lemma same_but_targets_unschedule [simp]: "same_but_targets cs (cs_unschedule n cs)"
  by (auto simp: same_but_targets_def cs_unschedule_def split: option.split)

lemma same_but_targets_dom:
  assumes "same_but_targets cs cs'"
  shows "dom (map_of (cs_jobs cs')) = dom (map_of (cs_jobs cs))"
proof -
  have "map_of (cs_jobs cs') k = None \<longleftrightarrow> map_of (cs_jobs cs) k = None" for k
    using assms by (metis same_but_targets_def map_option_is_None)
  then show ?thesis by (auto simp: dom_def)
qed

lemma visit_event_frame:
  "visit_event stopAt k r r' \<Longrightarrow> cluster_ok (r_clust r) \<Longrightarrow>
     cluster_ok (r_clust r') \<and> same_but_targets (r_clust r) (r_clust r')"
  by (induction rule: visit_event.induct) auto

lemma place_event_frame:
  "place_event stopAt k r r' \<Longrightarrow> cluster_ok (r_clust r) \<Longrightarrow>
     cluster_ok (r_clust r') \<and> same_but_targets (r_clust r) (r_clust r')"
  by (induction rule: place_event.induct) auto

text \<open>A job is settled when it is unscheduled, or is to run and sits on a machine that is there.\<close>

definition settled :: "clusterState \<Rightarrow> string \<Rightarrow> bool" where
  "settled cs k \<longleftrightarrow> (\<forall>j. map_of (cs_jobs cs) k = Some j \<longrightarrow> Scheduled j \<longrightarrow>
     j_TargetState j \<noteq> JobStateInactive \<and> j_TargetMachineID j \<in> dom (map_of (cs_machines cs)))"

lemma settled_unschedule: "settled cs k \<or> n = k \<Longrightarrow> settled (cs_unschedule n cs) k"
  by (auto simp: settled_def cs_unschedule_def Scheduled_def split: option.split if_splits)

lemma settled_schedule:
  "settled cs k \<Longrightarrow> m \<in> dom (map_of (cs_machines cs)) \<Longrightarrow>
     (\<And>j. n = k \<Longrightarrow> map_of (cs_jobs cs) k = Some j \<Longrightarrow> j_TargetState j \<noteq> JobStateInactive) \<Longrightarrow>
     settled (cs_schedule n m cs) k"
  by (auto simp: settled_def cs_schedule_def Scheduled_def split: option.split if_splits)

text \<open>
  A unit on an agent that is a job of the cluster is a scheduled, active one; so rescheduling
  a replaced unit moves an active job.
\<close>

lemma agent_unit_active:
  assumes "valid_order ord" "cluster_ok cs" "map_of (agents ord cs) m = Some a" "e \<in> ran (map_of (as_Units a))"
    "map_of (cs_jobs cs) (u_Name e) = Some j" "map_of (cs_gUnits cs) (u_Name e) = None"
  shows "j_TargetState j \<noteq> JobStateInactive \<and> j_TargetMachineID j = m \<and> Scheduled j"
proof -
  obtain n where n: "map_of (as_Units a) n = Some e" using assms(4) by (auto simp: ran_def)
  have "agent_units_ok cs m a" using agents_spec[OF assms(1,2)] assms(3) by (auto simp: agents_sound_def)
  with n assms(5,6) show ?thesis by (fastforce simp: agent_units_ok_def)
qed

text \<open>No unit name is both a job and a global unit; \<open>newClusterState\<close> gives that for distinct unit names.\<close>

definition names_disjoint :: "clusterState \<Rightarrow> bool" where
  "names_disjoint cs \<longleftrightarrow> dom (map_of (cs_jobs cs)) \<inter> dom (map_of (cs_gUnits cs)) = {}"

lemma names_disjoint_same: "same_but_targets cs cs' \<Longrightarrow> names_disjoint cs' = names_disjoint cs"
  using same_but_targets_dom[of cs cs'] by (simp add: names_disjoint_def same_but_targets_def)

lemma settled_push [simp]: "settled (r_clust (push_task t rs n m r)) k = settled (r_clust r) k"
  by simp

lemma visit_event_keeps_settled:
  assumes "visit_event stopAt k r r'" "cluster_ok (r_clust r)" "names_disjoint (r_clust r)"
    and "settled (r_clust r) k'"
  shows "settled (r_clust r') k'"
  using assms
proof (induction rule: visit_event.induct)
  case (moved r j o1 a e r1 reason m r2)
  have "j'\<in>{j'. map_of (cs_jobs (r_clust r)) (u_Name e) = Some j'} \<Longrightarrow> j_TargetState j' \<noteq> JobStateInactive" for j'
  proof -
    assume "j' \<in> {j'. map_of (cs_jobs (r_clust r)) (u_Name e) = Some j'}"
    then have j': "map_of (cs_jobs (r_clust r)) (u_Name e) = Some j'" by simp
    moreover have "map_of (cs_gUnits (r_clust r)) (u_Name e) = None"
      using j' moved.prems(2) by (auto simp: names_disjoint_def dom_def)
    ultimately show ?thesis
      using agent_unit_active[OF moved.hyps(4) moved.prems(1) moved.hyps(5,6)] by blast
  qed
  then show ?case using moved by (auto intro!: settled_schedule)
qed (auto intro: settled_unschedule)

lemma visit_event_settles:
  assumes "visit_event stopAt k r r'" "cluster_ok (r_clust r)" "\<not> r_done r'"
  shows "settled (r_clust r') k"
  using assms
proof (induction rule: visit_event.induct)
  case (kept r j o1 a)
  with agents_live[OF kept.hyps(4) kept.prems(1) kept.hyps(5)] show ?case by (simp add: settled_def)
next
  case (moved r j o1 a e r1 reason m r2)
  with agents_live[OF moved.hyps(4) moved.prems(1) moved.hyps(5)] replaced_other[OF moved.hyps(7)]
  show ?case by (simp add: settled_def cs_schedule_other)
next
  case (half_moved r j o1 a e r1 reason)
  with agents_live[OF half_moved.hyps(4) half_moved.prems(1) half_moved.hyps(5)]
  show ?case by (simp add: settled_def)
next
  case (unscheduled r j o1 a r1 reason)
  show ?case by (simp add: settled_unschedule)
qed (simp_all add: settled_def)

lemma place_event_keeps_settled:
  assumes "place_event stopAt k r r'" "cluster_ok (r_clust r)" "settled (r_clust r) k'"
  shows "settled (r_clust r') k'"
  using assms
proof (induction rule: place_event.induct)
  case (placed r j o1 m a r1 reason)
  with agents_live[OF placed.hyps(4) placed.prems(1) placed.hyps(5)]
  show ?case by (auto intro!: settled_schedule)
qed auto

lemma visit_event_done: "visit_event None k r r' \<Longrightarrow> r_done r' = r_done r"
  by (induction rule: visit_event.induct) auto

context scheduler
begin

lemma unschedule_pass:
  assumes "valid_order ord" "cluster_ok (r_clust r)" "names_disjoint (r_clust r)"
    "set ks \<subseteq> dom (map_of (cs_jobs (r_clust r)))" "\<not> r_done r"
    "r' = fold (unschedule_step ord sched None) ks r"
  shows "cluster_ok (r_clust r') \<and> same_but_targets (r_clust r) (r_clust r') \<and> \<not> r_done r' \<and>
    (\<forall>k. settled (r_clust r) k \<or> k \<in> set ks \<longrightarrow> settled (r_clust r') k)"
  using assms
proof (induction ks arbitrary: r)
  case Nil
  then show ?case by simp
next
  case (Cons k ks)
  let ?r1 = "unschedule_step ord sched None k r"
  obtain j where "map_of (cs_jobs (r_clust r)) k = Some j" using Cons.prems(4) by auto
  note ev = unschedule_step_event[OF Cons.prems(1,2) this, of None]
  note fr = visit_event_frame[OF ev Cons.prems(2)]
  have "\<not> r_done ?r1" using visit_event_done[OF ev] Cons.prems(5) by simp
  with Cons.IH[OF Cons.prems(1), of ?r1] fr Cons.prems
  have "cluster_ok (r_clust r') \<and> same_but_targets (r_clust ?r1) (r_clust r') \<and> \<not> r_done r' \<and>
    (\<forall>k. settled (r_clust ?r1) k \<or> k \<in> set ks \<longrightarrow> settled (r_clust r') k)"
    by (simp add: names_disjoint_same[OF fr[THEN conjunct2]] same_but_targets_dom[OF fr[THEN conjunct2]])
  then show ?case
    using fr same_but_targets_trans visit_event_keeps_settled[OF ev Cons.prems(2,3)]
      visit_event_settles[OF ev Cons.prems(2) \<open>\<not> r_done ?r1\<close>] by auto
qed

lemma schedule_pass:
  assumes "valid_order ord" "cluster_ok (r_clust r)" "set ks \<subseteq> dom (map_of (cs_jobs (r_clust r)))"
    "r' = fold (schedule_step ord sched stopAt) ks r"
  shows "cluster_ok (r_clust r') \<and> same_but_targets (r_clust r) (r_clust r') \<and>
    (\<forall>k. settled (r_clust r) k \<longrightarrow> settled (r_clust r') k)"
  using assms
proof (induction ks arbitrary: r)
  case Nil
  then show ?case by simp
next
  case (Cons k ks)
  let ?r1 = "schedule_step ord sched stopAt k r"
  obtain j where "map_of (cs_jobs (r_clust r)) k = Some j" using Cons.prems(3) by auto
  note ev = schedule_step_event[OF Cons.prems(1,2) this, of stopAt]
  note fr = place_event_frame[OF ev Cons.prems(2)]
  with Cons.IH[OF Cons.prems(1), of ?r1] Cons.prems
  have "cluster_ok (r_clust r') \<and> same_but_targets (r_clust ?r1) (r_clust r') \<and>
    (\<forall>k. settled (r_clust ?r1) k \<longrightarrow> settled (r_clust r') k)"
    by (simp add: same_but_targets_dom[OF fr[THEN conjunct2]])
  then show ?case
    using fr same_but_targets_trans place_event_keeps_settled[OF ev Cons.prems(2)] by auto
qed

lemma pass_settles:
  assumes "valid_order ord" "cluster_ok cs" "names_disjoint cs"
    "r = calculateClusterTasks ord sched None cs"
  shows "cluster_ok (r_clust r) \<and> same_but_targets cs (r_clust r) \<and> (\<forall>k. settled (r_clust r) k)"
proof -
  let ?r0 = "\<lparr>r_clust = cs, r_tasks = [], r_done = False\<rparr>"
  let ?ks = "ord [''unscheduleJobs''] (gkeys (cs_jobs cs))"
  define r1 where "r1 = fold (unschedule_step (at ord ''unschedule'') sched None) ?ks ?r0"
  have ks: "set ?ks = dom (map_of (cs_jobs cs))" using assms(1) by (simp add: order_simps)
  have p1: "cluster_ok (r_clust r1) \<and> same_but_targets cs (r_clust r1) \<and> \<not> r_done r1 \<and>
      (\<forall>k. settled cs k \<or> k \<in> set ?ks \<longrightarrow> settled (r_clust r1) k)"
    using unschedule_pass[of "at ord ''unschedule''" ?r0 ?ks r1] assms ks by (simp add: r1_def)
  have all: "settled (r_clust r1) k" for k
    using p1 ks by (cases "k \<in> set ?ks") (auto simp: settled_def)
  have "r = fold (schedule_step (at ord ''schedule'') sched None)
      (ord [''scheduleJobs''] (gkeys (cs_jobs (r_clust r1)))) r1"
    using assms(4) by (simp add: calculateClusterTasks_def r1_def Let_def)
  with schedule_pass[of "at ord ''schedule''" r1 _ r None] p1 all assms(1) same_but_targets_trans
  show ?thesis by (fastforce simp: order_simps)
qed

end

section \<open>The tasks and the cluster state agree\<close>

text \<open>
  Executing the emitted tasks on the schedule the pass started from. Tasks for names that are not
  jobs of the cluster (a replaced global unit) have no entry in the schedule.
\<close>

definition replay_task :: "string set \<Rightarrow> task \<Rightarrow> (string \<rightharpoonup> string) \<Rightarrow> (string \<rightharpoonup> string)" where
  "replay_task J t f =
     (if t_JobName t \<notin> J then f
      else if t_Type t = taskTypeUnscheduleUnit then f(t_JobName t := None)
      else if t_Type t = taskTypeAttemptScheduleUnit then f(t_JobName t \<mapsto> t_MachineID t)
      else f)"

definition replayed :: "run \<Rightarrow> run \<Rightarrow> bool" where
  "replayed r r' \<longleftrightarrow> (\<exists>ts. r_tasks r' = r_tasks r @ ts \<and>
     abs_schedule (r_clust r') =
       fold (replay_task (dom (map_of (cs_jobs (r_clust r))))) ts (abs_schedule (r_clust r)))"

lemma replayed_refl [simp]: "replayed r r"
  by (simp add: replayed_def)

lemma replayed_trans:
  assumes "replayed a b" "replayed b c" "same_but_targets (r_clust a) (r_clust b)"
  shows "replayed a c"
  using assms same_but_targets_dom[OF assms(3)] by (auto simp: replayed_def)

lemma replayed_done [simp]: "replayed r (r\<lparr>r_done := b\<rparr>)"
  by (auto simp: replayed_def)

lemma cs_schedule_absent: "map_of (cs_jobs cs) n = None \<Longrightarrow> cs_schedule n m cs = cs"
  by (simp add: cs_schedule_def)

lemma replayed_move:
  assumes "m \<noteq> []"
    "r2 = push_task taskTypeAttemptScheduleUnit rs2 n m (push_task taskTypeUnscheduleUnit rs1 n m0 r)"
  shows "replayed r (r2\<lparr>r_clust := cs_schedule n m (r_clust r)\<rparr>)"
  using assms by (auto simp: replayed_def replay_task_def abs_schedule_schedule cs_schedule_absent domIff)

lemma replayed_place:
  assumes "m \<noteq> []" "map_of (cs_jobs (r_clust r)) n \<noteq> None"
  shows "replayed r ((push_task taskTypeAttemptScheduleUnit rs n m r)\<lparr>r_clust := cs_schedule n m (r_clust r)\<rparr>)"
  using assms by (auto simp: replayed_def replay_task_def abs_schedule_schedule)

lemma replayed_unschedule:
  assumes "map_of (cs_jobs (r_clust r)) n \<noteq> None"
  shows "replayed r ((push_task taskTypeUnscheduleUnit rs n m r)\<lparr>r_clust := cs_unschedule n (r_clust r)\<rparr>)"
  using assms by (auto simp: replayed_def replay_task_def abs_schedule_unschedule)

text \<open>Several machines, each with a name: then a replaced unit always finds another machine.\<close>

definition several_machines :: "clusterState \<Rightarrow> bool" where
  "several_machines cs \<longleftrightarrow> [] \<notin> dom (map_of (cs_machines cs)) \<and>
     (\<exists>m1 \<in> dom (map_of (cs_machines cs)). \<exists>m2 \<in> dom (map_of (cs_machines cs)). m1 \<noteq> m2)"

lemma visit_event_replayed:
  assumes "visit_event None k r r'" "several_machines (r_clust r)"
  shows "replayed r r'"
  using assms
proof (induction rule: visit_event.induct)
  case (moved r j o1 a e r1 reason m r2)
  then have "m \<noteq> []" by (auto simp: several_machines_def)
  from replayed_move[OF this] moved show ?case by simp
next
  case (half_moved r j o1 a e r1 reason)
  then have False unfolding several_machines_def by (metis can_send_None singletonD subsetD)
  then show ?case ..
qed (auto simp: replayed_unschedule)

lemma place_event_replayed:
  assumes "place_event stopAt k r r'" "cluster_ok (r_clust r)" "[] \<notin> dom (map_of (cs_machines (r_clust r)))"
  shows "replayed r r'"
  using assms
proof (induction rule: place_event.induct)
  case (placed r j o1 m a r1 reason)
  with agents_live[OF placed.hyps(4) placed.prems(1) placed.hyps(5)]
  show ?case by (auto intro!: replayed_place)
qed auto

lemma several_machines_same: "same_but_targets cs cs' \<Longrightarrow> several_machines cs' = several_machines cs"
  by (simp add: same_but_targets_def several_machines_def)

context scheduler
begin

lemma unschedule_pass_replayed:
  assumes "valid_order ord" "cluster_ok (r_clust r)" "several_machines (r_clust r)"
    "set ks \<subseteq> dom (map_of (cs_jobs (r_clust r)))"
  shows "replayed r (fold (unschedule_step ord sched None) ks r)"
  using assms
proof (induction ks arbitrary: r)
  case (Cons k ks)
  let ?r1 = "unschedule_step ord sched None k r"
  obtain j where "map_of (cs_jobs (r_clust r)) k = Some j" using Cons.prems(4) by auto
  note ev = unschedule_step_event[OF Cons.prems(1,2) this, of None]
  note fr = visit_event_frame[OF ev Cons.prems(2)]
  have "replayed ?r1 (fold (unschedule_step ord sched None) ks ?r1)"
    using Cons.IH[OF Cons.prems(1), of ?r1] fr Cons.prems
    by (simp add: several_machines_same[OF fr[THEN conjunct2]] same_but_targets_dom[OF fr[THEN conjunct2]])
  then show ?case
    using replayed_trans[OF visit_event_replayed[OF ev Cons.prems(3)]] fr by auto
qed simp

lemma schedule_pass_replayed:
  assumes "valid_order ord" "cluster_ok (r_clust r)" "[] \<notin> dom (map_of (cs_machines (r_clust r)))"
    "set ks \<subseteq> dom (map_of (cs_jobs (r_clust r)))"
  shows "replayed r (fold (schedule_step ord sched stopAt) ks r)"
  using assms
proof (induction ks arbitrary: r)
  case (Cons k ks)
  let ?r1 = "schedule_step ord sched stopAt k r"
  obtain j where "map_of (cs_jobs (r_clust r)) k = Some j" using Cons.prems(4) by auto
  note ev = schedule_step_event[OF Cons.prems(1,2) this, of stopAt]
  note fr = place_event_frame[OF ev Cons.prems(2)]
  have "cs_machines (r_clust ?r1) = cs_machines (r_clust r)" using fr by (simp add: same_but_targets_def)
  then have "replayed ?r1 (fold (schedule_step ord sched stopAt) ks ?r1)"
    using Cons.IH[OF Cons.prems(1), of ?r1] fr Cons.prems
    by (simp add: same_but_targets_dom[OF fr[THEN conjunct2]])
  then show ?case
    using replayed_trans[OF place_event_replayed[OF ev Cons.prems(2,3)]] fr by auto
qed simp

lemma pass_replays:
  assumes "valid_order ord" "cluster_ok cs" "names_disjoint cs" "several_machines cs"
    "r = calculateClusterTasks ord sched None cs"
  shows "abs_schedule (r_clust r) =
    fold (replay_task (dom (map_of (cs_jobs cs)))) (r_tasks r) (abs_schedule cs)"
proof -
  let ?r0 = "\<lparr>r_clust = cs, r_tasks = [], r_done = False\<rparr>"
  let ?ks = "ord [''unscheduleJobs''] (gkeys (cs_jobs cs))"
  define r1 where "r1 = fold (unschedule_step (at ord ''unschedule'') sched None) ?ks ?r0"
  have ks: "set ?ks = dom (map_of (cs_jobs cs))" using assms(1) by (simp add: order_simps)
  have p1: "cluster_ok (r_clust r1) \<and> same_but_targets cs (r_clust r1)"
    using unschedule_pass[of "at ord ''unschedule''" ?r0 ?ks r1] assms ks by (simp add: r1_def)
  have q1: "replayed ?r0 r1"
    using unschedule_pass_replayed[of "at ord ''unschedule''" ?r0 ?ks] assms ks by (simp add: r1_def)
  have "replayed r1 r"
    using schedule_pass_replayed[of "at ord ''schedule''" r1 "ord [''scheduleJobs''] (gkeys (cs_jobs (r_clust r1)))" None]
      p1 assms(1,4,5) several_machines_same[of cs "r_clust r1"]
    by (simp add: calculateClusterTasks_def r1_def[symmetric] order_simps several_machines_def)
  then have "replayed ?r0 r" using replayed_trans[OF q1] p1 by simp
  then show ?thesis by (simp add: replayed_def)
qed

end

section \<open>Stopping early\<close>

text \<open>
  Closing the stop channel after \<open>n\<close> tasks leaves exactly the first \<open>n\<close> tasks of the undisturbed
  pass. \<open>halted\<close> relates the two runs once the stopped one has used up its tasks.
\<close>

definition appends :: "run \<Rightarrow> run \<Rightarrow> bool" where
  "appends r r' \<longleftrightarrow> (\<exists>ts. r_tasks r' = r_tasks r @ ts)"

definition halted :: "nat \<Rightarrow> run \<Rightarrow> run \<Rightarrow> bool" where
  "halted n r r' \<longleftrightarrow> length (r_tasks r) = n \<and> r_tasks r = take n (r_tasks r')"

definition in_step :: "nat \<Rightarrow> run \<Rightarrow> run \<Rightarrow> bool" where
  "in_step n r r' \<longleftrightarrow> (r = r' \<and> length (r_tasks r) \<le> n) \<or> halted n r r'"

lemma appends_refl [simp]: "appends r r"
  by (simp add: appends_def)

lemma appends_trans: "appends a b \<Longrightarrow> appends b c \<Longrightarrow> appends a c"
  by (auto simp: appends_def)

lemma halted_appends: "halted n r r' \<Longrightarrow> r_tasks s = r_tasks r \<Longrightarrow> appends r' s' \<Longrightarrow> halted n s s'"
proof -
  assume h: "halted n r r'" and a: "r_tasks s = r_tasks r" "appends r' s'"
  from h have "length (take n (r_tasks r')) = n" unfolding halted_def by metis
  then have "n \<le> length (r_tasks r')" by simp
  with h a show ?thesis by (auto simp: halted_def appends_def)
qed

lemma handle_step_appends:
  "appends r (snd (handle_reschedule_step ord sched stopAt ast jk reason ck (b, r)))"
  by (auto simp: handle_reschedule_step_def send_eq Let_def appends_def split: sum.splits)

lemma handle_step_full:
  "length (r_tasks r) = n \<Longrightarrow>
     handle_reschedule_step ord sched (Some n) ast jk reason ck (b, r) = (b, r)"
  by (auto simp: handle_reschedule_step_def send_eq can_send_def Let_def split: sum.splits)

lemma handle_step_in_step:
  assumes "length (r_tasks r) < n"
    "handle_reschedule_step ord sched (Some n) ast jk reason ck (b, r) = (b1, r1)"
    "handle_reschedule_step ord sched None ast jk reason ck (b, r) = (b2, r2)"
  shows "(b1 = b2 \<and> r1 = r2 \<and> length (r_tasks r1) \<le> n) \<or> halted n r1 r2"
  using assms
  by (cases "n = Suc (length (r_tasks r))")
    (auto simp: handle_reschedule_step_def send_eq can_send_def halted_def Let_def
      split: sum.splits if_splits)

lemma handle_fold_full:
  "length (r_tasks r) = n \<Longrightarrow>
     fold (handle_reschedule_step ord sched (Some n) ast jk reason) cks (b, r) = (b, r)"
  by (induction cks) (simp_all add: handle_step_full)

lemma handle_fold_appends:
  "appends r (snd (fold (handle_reschedule_step ord sched stopAt ast jk reason) cks (b, r)))"
proof (induction cks arbitrary: b r)
  case (Cons c cs)
  show ?case
    using Cons handle_step_appends[of r ord sched stopAt ast jk reason c b] appends_trans
    by (cases "handle_reschedule_step ord sched stopAt ast jk reason c (b, r)") force
qed simp

lemma handle_fold_in_step:
  assumes "length (r_tasks r) \<le> n"
  shows "in_step n (snd (fold (handle_reschedule_step ord sched (Some n) ast jk reason) cks (b, r)))
     (snd (fold (handle_reschedule_step ord sched None ast jk reason) cks (b, r)))"
  using assms
proof (induction cks arbitrary: b r)
  case Nil
  then show ?case by (simp add: in_step_def)
next
  case (Cons c cs)
  let ?f = "\<lambda>st. handle_reschedule_step ord sched st ast jk reason"
  show ?case
  proof (cases "length (r_tasks r) = n")
    case True
    have "halted n r r" using True by (simp add: halted_def)
    then have "halted n r (snd (fold (?f None) (c # cs) (b, r)))"
      using halted_appends handle_fold_appends by blast
    then show ?thesis
      using handle_fold_full[OF True, of ord sched ast jk reason "c # cs" b] by (simp add: in_step_def)
  next
    case False
    then have lt: "length (r_tasks r) < n" using Cons.prems by simp
    obtain b1 r1 b2 r2 where st: "?f (Some n) c (b, r) = (b1, r1)" "?f None c (b, r) = (b2, r2)" by fastforce
    from handle_step_in_step[OF lt st] show ?thesis
    proof
      assume "b1 = b2 \<and> r1 = r2 \<and> length (r_tasks r1) \<le> n"
      with st Cons.IH[of r1 b1] show ?thesis by auto
    next
      assume h: "halted n r1 r2"
      then have "fold (?f (Some n)) cs (b1, r1) = (b1, r1)"
        unfolding halted_def by (intro handle_fold_full) blast
      moreover have "halted n r1 (snd (fold (?f None) cs (b2, r2)))"
        using halted_appends[OF h] handle_fold_appends by blast
      ultimately show ?thesis using st by (simp add: in_step_def)
    qed
  qed
qed

lemma handle_appends: "appends r (snd (handle_reschedule ord sched stopAt jk reason r))"
  by (simp add: handle_reschedule_def Let_def handle_fold_appends split: option.splits)

lemma handle_full:
  "length (r_tasks r) = n \<Longrightarrow> handle_reschedule ord sched (Some n) jk reason r = (False, r)"
  by (simp add: handle_reschedule_def Let_def handle_fold_full split: option.splits)

lemma handle_in_step:
  "length (r_tasks r) \<le> n \<Longrightarrow>
     in_step n (snd (handle_reschedule ord sched (Some n) jk reason r))
       (snd (handle_reschedule ord sched None jk reason r))"
  by (simp add: handle_reschedule_def Let_def handle_fold_in_step in_step_def[of n r r] split: option.splits)

lemma unschedule_step_reschedule:
  assumes "\<not> r_done r" "j = the (map_of (cs_jobs (r_clust r)) k)" "Scheduled j"
    "decide (at (at ord k) ''decide'') (r_clust r) j = (JobActionReschedule, reason)"
  shows "unschedule_step ord sched stopAt k r =
    snd (handle_reschedule (at (at ord k) ''handle'') sched stopAt k reason r)"
  using assms by (auto simp: unschedule_step_def Let_def split: prod.splits)

lemma unschedule_step_plain:
  assumes "act \<noteq> JobActionReschedule" "decide (at (at ord k) ''decide'') (r_clust r) j = (act, reason)"
    "j = the (map_of (cs_jobs (r_clust r)) k)"
  shows "unschedule_step ord sched stopAt k r =
    (if r_done r \<or> \<not> Scheduled j \<or> act \<noteq> JobActionUnschedule then r
     else if can_send stopAt r
     then (push_task taskTypeUnscheduleUnit reason (j_Name j) (j_TargetMachineID j) r)
            \<lparr>r_clust := cs_unschedule (j_Name j) (r_clust r)\<rparr>
     else r\<lparr>r_done := True\<rparr>)"
  using assms by (auto simp: unschedule_step_def send_eq Let_def)

text \<open>The three facts about a step that the simulation needs.\<close>

definition stoppable :: "(nat option \<Rightarrow> run \<Rightarrow> run) \<Rightarrow> bool" where
  "stoppable f \<longleftrightarrow>
     (\<forall>r. appends r (f None r)) \<and>
     (\<forall>n r. length (r_tasks r) = n \<longrightarrow> r_tasks (f (Some n) r) = r_tasks r) \<and>
     (\<forall>n r. length (r_tasks r) < n \<longrightarrow> in_step n (f (Some n) r) (f None r))"

lemma stoppable_unschedule: "stoppable (\<lambda>stopAt. unschedule_step ord sched stopAt k)"
proof -
  have "appends r (unschedule_step ord sched None k r) \<and>
      (length (r_tasks r) = n \<longrightarrow> r_tasks (unschedule_step ord sched (Some n) k r) = r_tasks r) \<and>
      (length (r_tasks r) < n \<longrightarrow>
         in_step n (unschedule_step ord sched (Some n) k r) (unschedule_step ord sched None k r))" for n r
  proof -
    let ?j = "the (map_of (cs_jobs (r_clust r)) k)"
    obtain act reason where d: "decide (at (at ord k) ''decide'') (r_clust r) ?j = (act, reason)" by fastforce
    show ?thesis
    proof (cases "act = JobActionReschedule \<and> \<not> r_done r \<and> Scheduled ?j")
      case True
      then have d': "decide (at (at ord k) ''decide'') (r_clust r) ?j = (JobActionReschedule, reason)"
        using d by simp
      show ?thesis
        using True unschedule_step_reschedule[OF _ refl _ d'] by (simp add: handle_appends handle_full handle_in_step)
    next
      case idle: False
      show ?thesis
      proof (cases "act = JobActionReschedule")
        case True
        then have "unschedule_step ord sched s k r = r" for s
          using idle by (auto simp: unschedule_step_def)
        then show ?thesis by (simp add: in_step_def)
      next
        case False
        show ?thesis
          unfolding unschedule_step_plain[OF False d refl]
          by (auto simp: can_send_def appends_def in_step_def)
      qed
    qed
  qed
  then show ?thesis by (simp add: stoppable_def)
qed

lemma stoppable_schedule: "stoppable (\<lambda>stopAt. schedule_step ord sched stopAt k)"
  by (auto simp: stoppable_def schedule_step_def send_eq can_send_def appends_def in_step_def Let_def
      split: sum.splits)

lemma stoppable_in_step:
  assumes "stoppable f" "in_step n r r'"
  shows "in_step n (f (Some n) r) (f None r')"
proof (cases "r = r' \<and> length (r_tasks r) < n")
  case True
  with assms(1) show ?thesis by (auto simp: stoppable_def)
next
  case False
  with assms(2) have h: "halted n r r'" by (auto simp: in_step_def halted_def)
  with assms(1) have "r_tasks (f (Some n) r) = r_tasks r" "appends r' (f None r')"
    by (auto simp: stoppable_def halted_def)
  from halted_appends[OF h this] show ?thesis by (simp add: in_step_def)
qed

lemma stoppable_fold:
  assumes "\<And>k. stoppable (f k)" "in_step n r r'"
  shows "in_step n (fold (\<lambda>k. f k (Some n)) ks r) (fold (\<lambda>k. f k None) ks r')"
  using assms(2) by (induction ks arbitrary: r r') (simp_all add: stoppable_in_step[OF assms(1)])

lemma stoppable_halted:
  assumes "stoppable f" "halted n r r'"
  shows "halted n (f (Some n) r) r'" "halted n r (f None r')"
  using assms halted_appends[OF assms(2)] by (auto simp: stoppable_def halted_def)

lemma stoppable_fold_halted:
  assumes "\<And>k. stoppable (f k)" "halted n r r'"
  shows "halted n (fold (\<lambda>k. f k (Some n)) ks r) (fold (\<lambda>k. f k None) ks' r')"
proof -
  have "halted n (fold (\<lambda>k. f k (Some n)) ks r) r'"
    using assms(2) by (induction ks arbitrary: r) (simp_all add: stoppable_halted[OF assms(1)])
  then show ?thesis
    by (induction ks' arbitrary: r') (simp_all add: stoppable_halted[OF assms(1)])
qed

lemma pass_stop_prefix:
  "r_tasks (calculateClusterTasks ord sched (Some n) cs) = take n (r_tasks (calculateClusterTasks ord sched None cs))"
proof -
  let ?r0 = "\<lparr>r_clust = cs, r_tasks = [], r_done = False\<rparr>"
  let ?ks = "ord [''unscheduleJobs''] (gkeys (cs_jobs cs))"
  let ?ks2 = "\<lambda>r. ord [''scheduleJobs''] (gkeys (cs_jobs (r_clust r)))"
  let ?f = "\<lambda>k stopAt. unschedule_step (at ord ''unschedule'') sched stopAt k"
  let ?g = "\<lambda>k stopAt. schedule_step (at ord ''schedule'') sched stopAt k"
  define p q where "p = fold (\<lambda>k. ?f k (Some n)) ?ks ?r0" and "q = fold (\<lambda>k. ?f k None) ?ks ?r0"
  have "in_step n p q"
    unfolding p_def q_def by (rule stoppable_fold) (simp_all add: stoppable_unschedule in_step_def)
  then have "in_step n (fold (\<lambda>k. ?g k (Some n)) (?ks2 p) p) (fold (\<lambda>k. ?g k None) (?ks2 q) q)"
  proof (cases "p = q \<and> length (r_tasks p) \<le> n")
    case True
    then show ?thesis
      using stoppable_fold[where f = ?g, OF stoppable_schedule \<open>in_step n p q\<close>] by simp
  next
    case False
    with \<open>in_step n p q\<close> have "halted n p q" by (auto simp: in_step_def)
    then show ?thesis
      using stoppable_fold_halted[where f = ?g, OF stoppable_schedule] unfolding in_step_def by blast
  qed
  moreover have "calculateClusterTasks ord sched (Some n) cs = fold (\<lambda>k. ?g k (Some n)) (?ks2 p) p"
    "calculateClusterTasks ord sched None cs = fold (\<lambda>k. ?g k None) (?ks2 q) q"
    by (simp_all add: calculateClusterTasks_def p_def q_def Let_def)
  ultimately show ?thesis by (auto simp: in_step_def halted_def)
qed

section \<open>The cluster state a pass starts from\<close>

lemma cs_add_unit_doms:
  assumes "cs_add_unit sm u (jm, gm) = (jm', gm')"
  shows "(dom (map_of jm') = dom (map_of jm) \<and> dom (map_of gm') = insert (u_Name u) (dom (map_of gm))) \<or>
    (dom (map_of gm') = dom (map_of gm) \<and> dom (map_of jm') = insert (u_Name u) (dom (map_of jm)))"
  using assms by (auto simp: cs_add_unit_def Let_def split: if_splits option.splits)

lemma cs_add_units_disjoint:
  assumes "distinct (map u_Name us)" "u_Name ` set us \<inter> (dom (map_of jm) \<union> dom (map_of gm)) = {}"
    "dom (map_of jm) \<inter> dom (map_of gm) = {}" "fold (cs_add_unit sm) us (jm, gm) = (jm', gm')"
  shows "dom (map_of jm') \<inter> dom (map_of gm') = {}"
  using assms
proof (induction us arbitrary: jm gm)
  case (Cons u us)
  obtain jm1 gm1 where step: "cs_add_unit sm u (jm, gm) = (jm1, gm1)" by fastforce
  note d = cs_add_unit_doms[OF step]
  have un: "dom (map_of jm1) \<union> dom (map_of gm1) = insert (u_Name u) (dom (map_of jm) \<union> dom (map_of gm))"
    using d by (elim disjE conjE) simp_all
  have fresh: "u_Name u \<notin> dom (map_of jm) \<union> dom (map_of gm)" using Cons.prems(2) by simp
  have "u_Name ` set us \<inter> (dom (map_of jm1) \<union> dom (map_of gm1)) = {}"
    unfolding un using Cons.prems(1,2) by (simp add: Int_insert_right)
  moreover have "dom (map_of jm1) \<inter> dom (map_of gm1) = {}"
    using d fresh Cons.prems(3) by (elim disjE conjE) simp_all
  ultimately show ?case using Cons.IH[of jm1 gm1] Cons.prems(1,4) step by simp
qed simp

lemma newClusterState_disjoint:
  assumes "distinct (map u_Name units)"
  shows "names_disjoint (newClusterState units sUnits machines)"
proof -
  obtain jm gm where "fold (cs_add_unit (gput_all su_Name (\<lambda>su. su) sUnits [])) units ([], []) = (jm, gm)"
    by fastforce
  with cs_add_units_disjoint[OF assms _ _ this] show ?thesis
    by (simp add: names_disjoint_def newClusterState_def)
qed

lemma newClusterState_machines:
  "dom (map_of (cs_machines (newClusterState units sUnits machines))) = ms_ID ` set machines"
  by (auto simp: newClusterState_def Let_def dom_gput_all split: prod.splits)

end
