(* ===== verification/Fleet_Examples.thy ===== *)
theory Fleet_Examples
  imports Engine_Reconcile
begin

text \<open>
  Concrete machines, units and clusters on which the properties of the library are instantiated,
  and the identity and reversing range orders.
\<close>

definition keep_order :: range_order where "keep_order = (\<lambda>p xs. xs)"
definition rev_order :: range_order where "rev_order = (\<lambda>p xs. rev xs)"

lemma valid_keep_order [simp]: "valid_order keep_order"
  by (simp add: keep_order_def)

lemma valid_rev_order [simp]: "valid_order rev_order"
  by (simp add: rev_order_def)

definition ex_machine :: "string \<Rightarrow> (string, string) gmap \<Rightarrow> MachineState" where
  "ex_machine i md = \<lparr>ms_ID = i, ms_PublicIP = [], ms_Metadata = md, ms_Capabilities = [], ms_Version = []\<rparr>"

definition ex_option :: "string \<Rightarrow> string \<Rightarrow> UnitOption" where
  "ex_option n v = \<lparr>uo_Section = ''X-Fleet'', uo_Name = n, uo_Value = v\<rparr>"

definition ex_unit :: "string \<Rightarrow> UnitOption list \<Rightarrow> Unit" where
  "ex_unit n opts = \<lparr>u_Name = n, u_Unit = NewUnitFromOptions opts, u_TargetState = JobStateLaunched\<rparr>"

definition ex_sched :: "string \<Rightarrow> string \<Rightarrow> ScheduledUnit" where
  "ex_sched n m = \<lparr>su_Name = n, su_State = None, su_TargetMachineID = m\<rparr>"

definition unit_web :: Unit where "unit_web = ex_unit ''web.service'' []"
definition unit_db :: Unit where "unit_db = ex_unit ''db.service'' [ex_option ''Conflicts'' ''web*'']"
definition unit_log :: Unit where "unit_log = ex_unit ''log.service'' [ex_option ''Global'' ''true'']"
definition unit_new :: Unit where "unit_new = ex_unit ''new.service'' [ex_option ''Replaces'' ''web.service'']"

definition mach_1 :: MachineState where "mach_1 = ex_machine ''m1'' [(''region'', ''us'')]"
definition mach_2 :: MachineState where "mach_2 = ex_machine ''m2'' []"

text \<open>One machine-bound unit scheduled, one that conflicts with it waiting, and a global unit.\<close>

definition ex_units :: "Unit list" where "ex_units = [unit_web, unit_db, unit_log]"
definition ex_sUnits :: "ScheduledUnit list" where "ex_sUnits = [ex_sched ''web.service'' ''m1'']"
definition ex_machines :: "MachineState list" where "ex_machines = [mach_1, mach_2]"

definition ex_cluster :: clusterState where
  "ex_cluster = newClusterState ex_units ex_sUnits ex_machines"

definition ex_db_job :: Job where
  "ex_db_job = job_of_unit unit_db"

text \<open>A unit and its replacement on the same machine; with one machine in the cluster and with two.\<close>

definition ex_replace_one :: clusterState where
  "ex_replace_one = newClusterState [unit_web, unit_new]
     [ex_sched ''web.service'' ''m1'', ex_sched ''new.service'' ''m1''] [mach_1]"

definition ex_replace_two :: clusterState where
  "ex_replace_two = newClusterState [unit_web, unit_new]
     [ex_sched ''web.service'' ''m1'', ex_sched ''new.service'' ''m1''] [mach_1, mach_2]"

lemmas ex_defs = ex_machine_def ex_option_def ex_unit_def ex_sched_def unit_web_def unit_db_def unit_log_def
  unit_new_def mach_1_def mach_2_def ex_units_def ex_sUnits_def ex_machines_def

end
