(* ===== verification/Props_Engine.thy ===== *)
theory Props_Engine
  imports Fleet_Examples
begin

text \<open>
  The properties of the engine: how the cluster state is built, what the scheduler decides, and
  what a reconciliation pass does. Each rests on the events of \<open>Engine_Reconcile\<close> and on the
  interpretation of the scheduler contract by \<open>leastLoadedScheduler\<close>.
\<close>

section \<open>A reconciliation pass\<close>

text \<open>
  C3. After an undisturbed pass of the engine over any registry content, whatever the orders in
  which the maps are visited, every job that is still scheduled has an active target state and
  sits on a machine of the cluster; nothing but the target machines of jobs has changed.
\<close>

theorem engine_pass_settles:
  assumes "valid_order ord" "distinct (map u_Name units)"
    and "cs = newClusterState units sUnits machines"
    and "r = calculateClusterTasks ord leastLoadedScheduler None cs"
  shows "same_but_targets cs (r_clust r) \<and>
    (\<forall>k j. map_of (cs_jobs (r_clust r)) k = Some j \<longrightarrow> Scheduled j \<longrightarrow>
      j_TargetState j \<noteq> JobStateInactive \<and> j_TargetMachineID j \<in> ms_ID ` set machines)"
proof -
  have "same_but_targets cs (r_clust r) \<and> (\<forall>k. settled (r_clust r) k)"
    unfolding assms(3,4)
    using lls.pass_settles[OF assms(1) newClusterState_ok newClusterState_disjoint[OF assms(2)] refl] by blast
  moreover from this have "dom (map_of (cs_machines (r_clust r))) = ms_ID ` set machines"
    using newClusterState_machines[of units sUnits machines] assms(3) by (simp add: same_but_targets_def)
  ultimately show ?thesis unfolding settled_def by metis
qed

theorem engine_pass_settles_witness:
  "same_but_targets ex_cluster (r_clust (calculateClusterTasks rev_order leastLoadedScheduler None ex_cluster)) \<and>
   map (\<lambda>(n, j). (n, j_TargetMachineID j))
     (cs_jobs (r_clust (calculateClusterTasks rev_order leastLoadedScheduler None ex_cluster))) =
     [(''web.service'', ''m1''), (''db.service'', ''m2'')]"
proof
  show "same_but_targets ex_cluster (r_clust (calculateClusterTasks rev_order leastLoadedScheduler None ex_cluster))"
    using engine_pass_settles[of rev_order ex_units ex_cluster ex_sUnits ex_machines]
    by (simp add: ex_cluster_def ex_defs)
qed code_simp

text \<open>
  C7. With at least two machines, executing the tasks of an undisturbed pass on the schedule it
  started from gives exactly the schedule in the cluster state it ends with: no decision is sent
  without being recorded and none is recorded without being sent.
\<close>

theorem engine_tasks_replay:
  assumes "valid_order ord" "distinct (map u_Name units)"
    and "[] \<notin> ms_ID ` set machines" "card (ms_ID ` set machines) \<ge> 2"
    and "cs = newClusterState units sUnits machines"
    and "r = calculateClusterTasks ord leastLoadedScheduler None cs"
  shows "abs_schedule (r_clust r) =
    fold (replay_task (dom (map_of (cs_jobs cs)))) (r_tasks r) (abs_schedule cs)"
proof -
  from assms(4) obtain m1 m2 where "m1 \<in> ms_ID ` set machines" "m2 \<in> ms_ID ` set machines" "m1 \<noteq> m2"
    by (meson card_2_iff' obtain_subset_with_card_n subsetD)
  then have "several_machines cs"
    unfolding several_machines_def assms(5) newClusterState_machines using assms(3) by blast
  with lls.pass_replays[OF assms(1) newClusterState_ok newClusterState_disjoint[OF assms(2)]] assms(5,6)
  show ?thesis by simp
qed

theorem engine_tasks_replay_witness:
  "abs_schedule (r_clust (calculateClusterTasks keep_order leastLoadedScheduler None ex_replace_two)) =
     fold (replay_task (dom (map_of (cs_jobs ex_replace_two))))
       (r_tasks (calculateClusterTasks keep_order leastLoadedScheduler None ex_replace_two))
       (abs_schedule ex_replace_two)"
  using engine_tasks_replay[of keep_order "[unit_web, unit_new]" "[mach_1, mach_2]" ex_replace_two
      "[ex_sched ''web.service'' ''m1'', ex_sched ''new.service'' ''m1'']"]
  by (simp add: ex_replace_two_def ex_defs)

text \<open>
  Closing the stop channel after \<open>n\<close> tasks have been sent leaves exactly the first \<open>n\<close> tasks of
  the undisturbed pass: the engine never sends a different task because it is being stopped.
\<close>

theorem engine_stop_prefix:
  "r_tasks (calculateClusterTasks ord sched (Some n) cs) = take n (r_tasks (calculateClusterTasks ord sched None cs))"
  by (rule pass_stop_prefix)

section \<open>The scheduler\<close>

lemma ran_empty_dom: "ran m = {} \<longleftrightarrow> dom m = {}"
proof -
  have "m = Map.empty \<longleftrightarrow> (\<forall>x y. m x \<noteq> Some y)" by (auto simp: fun_eq_iff not_Some_eq)
  then show ?thesis by (auto simp: ran_def)
qed

lemma agents_sas_total:
  assumes "valid_order ord" "cluster_ok cs" "a \<in> ran (map_of (agents ord cs))" "b \<in> ran (map_of (agents ord cs))" "a \<noteq> b"
  shows "sas_Less a b \<or> sas_Less b a"
proof -
  have "ms_ID (as_MState a) \<noteq> ms_ID (as_MState b)"
    using agents_key[OF assms(1,2,3)] agents_key[OF assms(1,2,4)] assms(5) by auto
  then show ?thesis by (auto simp: sas_Less_def Let_def not_less)
qed

text \<open>
  C15. \<open>Decide\<close> picks machine \<open>m\<close> exactly when the agent of \<open>m\<close> meets the job's requirements and is
  before every other agent that does, in the order by number of units and then machine ID.
\<close>

theorem Decide_least_loaded:
  assumes "valid_order ord" "cluster_ok cs"
  shows "Decide ord cs j = Inr m \<longleftrightarrow>
    (\<exists>a. map_of (agents ord cs) m = Some a \<and> requirements_met a j \<and>
       (\<forall>b\<in>ran (map_of (agents ord cs)). requirements_met b j \<and> b \<noteq> a \<longrightarrow> sas_Less a b))"
    (is "_ \<longleftrightarrow> ?best m")
proof
  assume "Decide ord cs j = Inr m"
  then obtain a where a: "map_of (agents ord cs) m = Some a" "requirements_met a j"
    "\<forall>b \<in> ran (map_of (agents ord cs)). requirements_met b j \<longrightarrow> \<not> sas_Less b a"
    using Decide_least[OF assms] by blast
  moreover have "a \<in> ran (map_of (agents ord cs))" using a(1) by (rule ranI)
  ultimately show "?best m" using agents_sas_total[OF assms] by blast
next
  assume "?best m"
  then obtain a where a: "map_of (agents ord cs) m = Some a" "requirements_met a j"
    "\<forall>b\<in>ran (map_of (agents ord cs)). requirements_met b j \<and> b \<noteq> a \<longrightarrow> sas_Less a b" by blast
  have ra: "a \<in> ran (map_of (agents ord cs))" using a(1) by (rule ranI)
  then obtain m' where m': "Decide ord cs j = Inr m'"
    using Decide_none_able[OF assms(1), of cs j] a(2) by (cases "Decide ord cs j") blast+
  then obtain a' where a': "map_of (agents ord cs) m' = Some a'" "requirements_met a' j"
    "\<forall>b \<in> ran (map_of (agents ord cs)). requirements_met b j \<longrightarrow> \<not> sas_Less b a'"
    using Decide_least[OF assms] by blast
  have "a' \<in> ran (map_of (agents ord cs))" using a'(1) by (rule ranI)
  then have "a' = a" using a(2,3) a'(2,3) ra by blast
  moreover have "ms_ID (as_MState a') = m'" "ms_ID (as_MState a) = m"
    using agents_spec[OF assms] a(1) a'(1) by (auto simp: agents_sound_def agent_units_ok_def)
  ultimately show "Decide ord cs j = Inr m" using m' by simp
qed

theorem Decide_least_loaded_witness:
  "Decide keep_order ex_cluster ex_db_job = Inr ''m2'' \<and>
   (\<exists>a. map_of (agents keep_order ex_cluster) ''m2'' = Some a \<and> requirements_met a ex_db_job \<and>
      (\<forall>b\<in>ran (map_of (agents keep_order ex_cluster)). requirements_met b ex_db_job \<and> b \<noteq> a \<longrightarrow> sas_Less a b))"
proof -
  have d: "Decide keep_order ex_cluster ex_db_job = Inr ''m2''" by code_simp
  have "cluster_ok ex_cluster" by (simp add: ex_cluster_def newClusterState_ok)
  with d show ?thesis using Decide_least_loaded[of keep_order ex_cluster ex_db_job "''m2''"] by simp
qed

text \<open>
  \<open>Decide\<close> fails exactly when no agent of the cluster meets the job's requirements, and then
  tells an empty cluster from one without a fitting machine.
\<close>

theorem Decide_fails_iff:
  assumes "valid_order ord" "cluster_ok cs"
  shows "Decide ord cs j = Inl e \<longleftrightarrow>
    (\<forall>a\<in>ran (map_of (agents ord cs)). \<not> requirements_met a j) \<and>
    e = (if cs_machines cs = [] then ''zero agents available'' else ''no agents able to run job'')"
proof -
  have "sortedAgents ord cs = [] \<longleftrightarrow> ran (map_of (agents ord cs)) = {}"
    by (simp flip: set_sortedAgents[OF assms(1)])
  also have "\<dots> \<longleftrightarrow> dom (map_of (agents ord cs)) = {}" by (rule ran_empty_dom)
  also have "\<dots> \<longleftrightarrow> cs_machines cs = []"
    using agents_spec[OF assms] by (simp only: gmap_Nil_iff)
  finally have "sortedAgents ord cs = [] \<longleftrightarrow> cs_machines cs = []" .
  then show ?thesis
    by (auto simp: Decide_find[OF assms(1)] find_None_iff set_sortedAgents[OF assms(1)]
        split: option.split dest: find_SomeD)
qed

theorem Decide_fails_iff_witness:
  "Decide keep_order (newClusterState ex_units ex_sUnits []) ex_db_job = Inl ''zero agents available''"
  using Decide_fails_iff[of keep_order "newClusterState ex_units ex_sUnits []" ex_db_job "''zero agents available''"]
    agents_spec[of keep_order "newClusterState ex_units ex_sUnits []"]
  by (auto simp: newClusterState_ok newClusterState_machines ran_def dom_def fun_eq_iff)
    (simp add: newClusterState_def split: prod.splits)+

text \<open>
  C17. \<open>DecideReschedule\<close> picks the first agent in the same order whose machine is not the job's
  current target, and fails exactly when there is no other machine.
\<close>

theorem DecideReschedule_other_machine:
  assumes "valid_order ord" "cluster_ok cs"
  shows "case DecideReschedule ord cs j of
      Inr m \<Rightarrow> m \<noteq> j_TargetMachineID j \<and> (\<exists>a. map_of (agents ord cs) m = Some a \<and>
        (\<forall>b\<in>ran (map_of (agents ord cs)). ms_ID (as_MState b) \<noteq> j_TargetMachineID j \<longrightarrow> \<not> sas_Less b a))
    | Inl e \<Rightarrow> dom (map_of (cs_machines cs)) \<subseteq> {j_TargetMachineID j}"
  using DecideReschedule_least[OF assms, of j] DecideReschedule_none_other[OF assms, of j]
  by (auto split: sum.split)

theorem DecideReschedule_other_machine_witness:
  "DecideReschedule keep_order ex_replace_one (the (map_of (cs_jobs ex_replace_one) ''web.service'')) =
     Inl ''no agents able to run job'' \<and>
   dom (map_of (cs_machines ex_replace_one)) \<subseteq>
     {j_TargetMachineID (the (map_of (cs_jobs ex_replace_one) ''web.service''))}"
proof -
  have d: "DecideReschedule keep_order ex_replace_one (the (map_of (cs_jobs ex_replace_one) ''web.service'')) =
     Inl ''no agents able to run job''" by code_simp
  have "cluster_ok ex_replace_one" by (simp add: ex_replace_one_def newClusterState_ok)
  with d show ?thesis
    using DecideReschedule_other_machine[of keep_order ex_replace_one "the (map_of (cs_jobs ex_replace_one) ''web.service'')"]
    by simp
qed

text \<open>
  The order of the agents does not depend on the sorting routine: every routine that meets the
  \<open>sort.Sort\<close> contract for \<open>sortableAgentStates\<close> returns the list \<open>sortedAgents\<close>.
\<close>

theorem sortedAgents_any_sort:
  assumes "valid_order ord" "cluster_ok cs" "go_sort sas_Less srt"
  shows "srt (range_vals ord [''sortedAgents''] (agents ord cs)) = sortedAgents ord cs"
  using assms by (rule sortedAgents_unique)

theorem sortedAgents_any_sort_witness:
  "insertionSort sas_Less (range_vals rev_order [''sortedAgents''] (agents rev_order ex_cluster)) =
     sortedAgents rev_order ex_cluster \<and>
   map (\<lambda>a. ms_ID (as_MState a)) (sortedAgents rev_order ex_cluster) = [''m2'', ''m1'']"
proof
  show "insertionSort sas_Less (range_vals rev_order [''sortedAgents''] (agents rev_order ex_cluster)) =
     sortedAgents rev_order ex_cluster"
    using sortedAgents_any_sort[OF valid_rev_order _ agent_sort.go_sort_axioms, of ex_cluster]
    by (simp add: ex_cluster_def newClusterState_ok)
qed code_simp

text \<open>
  C8. The agents derived from a cluster are its machines; each carries every active job scheduled
  to it and otherwise only global units whose metadata requirement it meets, and no global unit
  conflicts with another unit of its agent, whatever the order of the loops.
\<close>

theorem agents_exact:
  assumes "valid_order ord" "distinct (map u_Name units)" "cs = newClusterState units sUnits machines"
  shows "dom (map_of (agents ord cs)) = ms_ID ` set machines \<and>
    (\<forall>m a. map_of (agents ord cs) m = Some a \<longrightarrow>
       agent_units_ok cs m a \<and> globals_peaceful (cs_gUnits cs) a \<and>
       (\<forall>n j. map_of (cs_jobs cs) n = Some j \<longrightarrow> placed_on m j \<longrightarrow> map_of (as_Units a) n = Some (unit_of_job j)))"
proof -
  have ok: "cluster_ok cs" and dis: "dom (map_of (cs_jobs cs)) \<inter> dom (map_of (cs_gUnits cs)) = {}"
    using assms(3) newClusterState_ok newClusterState_disjoint[OF assms(2)] by (simp_all add: names_disjoint_def)
  have "dom (map_of (agents ord cs)) = ms_ID ` set machines" "agents_sound cs (agents ord cs)"
    using agents_spec[OF assms(1) ok] assms(3) newClusterState_machines[of units sUnits machines] by simp_all
  then show ?thesis
    using agents_peaceful[OF assms(1) ok dis] agents_have_jobs[OF assms(1) ok dis]
    unfolding agents_sound_def by blast
qed

theorem agents_exact_witness:
  "dom (map_of (agents rev_order ex_cluster)) = {''m1'', ''m2''} \<and>
   map (\<lambda>(m, a). (m, gkeys (as_Units a))) (agents rev_order ex_cluster) =
     [(''m2'', [''log.service'']), (''m1'', [''web.service'', ''log.service''])]"
proof
  show "dom (map_of (agents rev_order ex_cluster)) = {''m1'', ''m2''}"
    using agents_exact[of rev_order ex_units ex_cluster ex_sUnits ex_machines]
    by (simp add: ex_cluster_def ex_defs)
qed code_simp

section \<open>Replaced units\<close>



end
