(* ===== verification/Unit_Manager.thy ===== *)
theory Unit_Manager
  imports Unit_File Pkg_Util
begin

text \<open>
  \<open>unit/manager.go\<close>, \<open>unit/generator.go\<close>, \<open>unit/fake.go\<close>: the interface between fleet and the init
  system, as a record of functions over the manager's state, its contract as the locale
  \<open>unit_manager\<close>, the in-memory manager used by tests, and the generator that turns unit states into
  heartbeats. Calls that return only an error have type \<open>string option\<close> (\<open>None\<close>: no error).
\<close>

record 's UnitManager =
  um_Load :: "string \<Rightarrow> UnitFile \<Rightarrow> 's \<Rightarrow> string option \<times> 's"
  um_Unload :: "string \<Rightarrow> 's \<Rightarrow> string option \<times> 's"
  um_ReloadUnitFiles :: "'s \<Rightarrow> string option \<times> 's"
  um_TriggerStart :: "string \<Rightarrow> 's \<Rightarrow> string option \<times> 's"
  um_TriggerStop :: "string \<Rightarrow> 's \<Rightarrow> string option \<times> 's"
  um_Units :: "'s \<Rightarrow> string list result"
  um_GetUnitStates :: "range_order \<Rightarrow> unsafeSet \<Rightarrow> 's \<Rightarrow> (string, UnitState) gmap result"
  um_GetUnitState :: "string \<Rightarrow> 's \<Rightarrow> UnitState option result"

section \<open>The contract\<close>

text \<open>
  \<open>loaded s\<close> is what the manager has on disk: for every unit name the hash the manager knows for it.
  A successful \<open>Load\<close> and \<open>Unload\<close> update it at one name, the triggers and the reload leave it alone,
  and \<open>Units\<close> and \<open>GetUnitStates\<close> report it.
\<close>

locale unit_manager =
  fixes um :: "'s UnitManager"
    and loaded :: "'s \<Rightarrow> (string \<rightharpoonup> string)"
    and valid_name :: "string \<Rightarrow> bool"
  assumes Load_ok: "\<lbrakk>valid_name n; um_Load um n uf s = (None, s')\<rbrakk> \<Longrightarrow>
      loaded s' = (loaded s)(n \<mapsto> Hash_String (uf_Hash uf))"
    and Unload_ok: "um_Unload um n s = (None, s') \<Longrightarrow> loaded s' = (loaded s)(n := None)"
    and Reload_frame: "um_ReloadUnitFiles um s = (e, s') \<Longrightarrow> loaded s' = loaded s"
    and Start_frame: "um_TriggerStart um n s = (e, s') \<Longrightarrow> loaded s' = loaded s"
    and Stop_frame: "um_TriggerStop um n s = (e, s') \<Longrightarrow> loaded s' = loaded s"
    and Units_ok: "um_Units um s = Inr ns \<Longrightarrow> set ns = dom (loaded s)"
    and GetUnitStates_ok: "\<lbrakk>valid_order ord; us_inv f; us_elems f \<subseteq> dom (loaded s);
        um_GetUnitStates um ord f s = Inr m\<rbrakk> \<Longrightarrow>
      gmap_ok m \<and> (\<forall>n. map_option us_UnitHash (map_of m n) = (if n \<in> us_elems f then loaded s n else None))"
begin

text \<open>Asking for the states of all units reports exactly what is loaded.\<close>

lemma GetUnitStates_all:
  assumes "valid_order ord" "um_Units um s = Inr ns" "um_GetUnitStates um ord (NewUnsafeSet ns) s = Inr m"
  shows "gmap_ok m" "map_option us_UnitHash (map_of m n) = loaded s n"
proof -
  have f: "us_inv (NewUnsafeSet ns)" "us_elems (NewUnsafeSet ns) = dom (loaded s)"
    using NewUnsafeSet_spec[of ns] Units_ok[OF assms(2)] by simp_all
  from GetUnitStates_ok[OF assms(1) f(1) _ assms(3)] f(2)
  show "gmap_ok m" "map_option us_UnitHash (map_of m n) = loaded s n"
    by (auto simp: domIff)
qed

end

section \<open>The fake manager\<close>

record FakeUnitManager =
  fum_u :: "(string, bool) gmap"

definition NewFakeUnitManager :: FakeUnitManager where
  "NewFakeUnitManager = \<lparr>fum_u = []\<rparr>"

definition fum_Load :: "string \<Rightarrow> UnitFile \<Rightarrow> FakeUnitManager \<Rightarrow> string option \<times> FakeUnitManager" where
  "fum_Load name u fum = (None, fum\<lparr>fum_u := gput name False (fum_u fum)\<rparr>)"

definition fum_ReloadUnitFiles :: "FakeUnitManager \<Rightarrow> string option \<times> FakeUnitManager" where
  "fum_ReloadUnitFiles fum = (None, fum)"

definition fum_Unload :: "string \<Rightarrow> FakeUnitManager \<Rightarrow> string option \<times> FakeUnitManager" where
  "fum_Unload name fum = (None, fum\<lparr>fum_u := gdel name (fum_u fum)\<rparr>)"

definition fum_TriggerStart :: "string \<Rightarrow> FakeUnitManager \<Rightarrow> string option \<times> FakeUnitManager" where
  "fum_TriggerStart name fum = (None, fum)"

definition fum_TriggerStop :: "string \<Rightarrow> FakeUnitManager \<Rightarrow> string option \<times> FakeUnitManager" where
  "fum_TriggerStop name fum = (None, fum)"

definition fum_Units :: "range_order \<Rightarrow> FakeUnitManager \<Rightarrow> string list result" where
  "fum_Units ord fum = Inr (ord [''Units''] (gkeys (fum_u fum)))"

definition fum_GetUnitState :: "string \<Rightarrow> FakeUnitManager \<Rightarrow> UnitState option result" where
  "fum_GetUnitState name fum =
     (case map_of (fum_u fum) name of
        Some _ \<Rightarrow> Inr (Some \<lparr>us_LoadState = ''loaded'', us_ActiveState = ''active'', us_SubState = ''running'',
                         us_MachineID = [], us_UnitHash = [], us_UnitName = []\<rparr>)
      | None \<Rightarrow> Inr None)"

definition fum_GetUnitStates ::
  "range_order \<Rightarrow> unsafeSet \<Rightarrow> FakeUnitManager \<Rightarrow> (string, UnitState) gmap result" where
  "fum_GetUnitStates ord filt fum =
     Inr (fold (\<lambda>name states.
             if gmem name (fum_u fum)
             then gput name \<lparr>us_LoadState = ''loaded'', us_ActiveState = ''active'', us_SubState = ''running'',
                             us_MachineID = [], us_UnitHash = [], us_UnitName = name\<rparr> states
             else states) (us_Values ord filt) [])"

section \<open>The state generator\<close>

record UnitStateHeartbeat =
  ush_Name :: string
  ush_State :: "UnitState option"

record UnitStateGenerator =
  g_subscribed :: tsafeSet
  g_lastSubscribed :: "tsafeSet option"

definition NewUnitStateGenerator :: UnitStateGenerator where
  "NewUnitStateGenerator = \<lparr>g_subscribed = NewThreadsafeSet [], g_lastSubscribed = None\<rparr>"

definition Subscribe :: "string \<Rightarrow> UnitStateGenerator \<Rightarrow> UnitStateGenerator" where
  "Subscribe name g = g\<lparr>g_subscribed := ts_Add name (g_subscribed g)\<rparr>"

definition Unsubscribe :: "string \<Rightarrow> UnitStateGenerator \<Rightarrow> UnitStateGenerator" where
  "Unsubscribe name g = g\<lparr>g_subscribed := ts_Remove name (g_subscribed g)\<rparr>"

text \<open>\<open>Generate\<close> returns the heartbeats the goroutine puts on the channel, in that order.\<close>

definition Generate ::
  "range_order \<Rightarrow> 's UnitManager \<Rightarrow> 's \<Rightarrow> UnitStateGenerator \<Rightarrow> UnitStateHeartbeat list result \<times> UnitStateGenerator" where
  "Generate ord um s g =
     (let lastSubscribed = map_option (ts_Copy (at ord ''last'')) (g_lastSubscribed g);
          subscribed = ts_Copy (at ord ''subscribed'') (g_subscribed g);
          g = g\<lparr>g_lastSubscribed := Some subscribed\<rparr>
      in case um_GetUnitStates um (at ord ''states'') (ts_us subscribed) s of
           Inl err \<Rightarrow> (Inl err, g)
         | Inr reportable \<Rightarrow>
             (Inr (map (\<lambda>name. \<lparr>ush_Name = name, ush_State = map_of reportable name\<rparr>)
                     (ord [''reportable''] (gkeys reportable)) @
                   (case lastSubscribed of
                      None \<Rightarrow> []
                    | Some l \<Rightarrow> map (\<lambda>name. \<lparr>ush_Name = name, ush_State = None\<rparr>)
                        (ts_Values (at ord ''gone'')
                          (ts_Sub (at ord ''sub'') l (ts_Values (at ord ''now'') subscribed))))), g))"

definition generator_inv :: "UnitStateGenerator \<Rightarrow> bool" where
  "generator_inv g \<longleftrightarrow> us_inv (ts_us (g_subscribed g)) \<and>
     (\<forall>l. g_lastSubscribed g = Some l \<longrightarrow> us_inv (ts_us l))"

abbreviation subscribed_names :: "UnitStateGenerator \<Rightarrow> string set" where
  "subscribed_names g \<equiv> us_elems (ts_us (g_subscribed g))"

lemma generator_inv_ops [simp]:
  "generator_inv NewUnitStateGenerator"
  "generator_inv g \<Longrightarrow> generator_inv (Subscribe n g)"
  "generator_inv g \<Longrightarrow> generator_inv (Unsubscribe n g)"
  using tset.inv_empty
  by (simp_all add: generator_inv_def NewUnitStateGenerator_def Subscribe_def Unsubscribe_def
      tset.inv_add tset.inv_remove)

lemma subscribed_names_ops:
  "subscribed_names NewUnitStateGenerator = {}"
  "generator_inv g \<Longrightarrow> subscribed_names (Subscribe n g) = insert n (subscribed_names g)"
  "generator_inv g \<Longrightarrow> subscribed_names (Unsubscribe n g) = subscribed_names g - {n}"
  using tset.elems_empty
  by (simp_all add: generator_inv_def NewUnitStateGenerator_def Subscribe_def Unsubscribe_def
      tset.elems_add tset.elems_remove)

text \<open>
  The heartbeats of one run: one with the reported state for every unit the manager reported, and
  one without a state for exactly the units dropped from the subscription since the last run.
\<close>

lemma Generate_beats:
  assumes "valid_order ord" "generator_inv g" "Generate ord um s g = (Inr beats, g')"
  shows "\<exists>reportable subscribed.
    um_GetUnitStates um (at ord ''states'') subscribed s = Inr reportable \<and>
    us_elems subscribed = subscribed_names g \<and>
    (\<forall>n st. \<lparr>ush_Name = n, ush_State = Some st\<rparr> \<in> set beats \<longleftrightarrow> map_of reportable n = Some st) \<and>
    (\<forall>n. \<lparr>ush_Name = n, ush_State = None\<rparr> \<in> set beats \<longleftrightarrow>
       (\<exists>l. g_lastSubscribed g = Some l \<and> n \<in> us_elems (ts_us l) - subscribed_names g))"
proof -
  let ?sub = "ts_Copy (at ord ''subscribed'') (g_subscribed g)"
  from assms(3) obtain rep where rep: "um_GetUnitStates um (at ord ''states'') (ts_us ?sub) s = Inr rep"
    by (auto simp: Generate_def Let_def split: sum.splits)
  have inv: "us_inv (ts_us ?sub)" "us_elems (ts_us ?sub) = subscribed_names g"
    using assms(1,2) tset.inv_copy tset.elems_copy by (auto simp: generator_inv_def)
  let ?gone = "\<lambda>l. ts_Values (at ord ''gone'')
      (ts_Sub (at ord ''sub'') (ts_Copy (at ord ''last'') l) (ts_Values (at ord ''now'') ?sub))"
  have gone: "set (?gone l) = us_elems (ts_us l) - subscribed_names g" if "g_lastSubscribed g = Some l" for l
    using that assms(1,2) inv
    by (simp add: generator_inv_def tset.sub_copy_elems tset.inv_copy tset.elems_copy)
  have beats: "beats = map (\<lambda>name. \<lparr>ush_Name = name, ush_State = map_of rep name\<rparr>)
      (ord [''reportable''] (gkeys rep)) @
      (case g_lastSubscribed g of None \<Rightarrow> []
       | Some l \<Rightarrow> map (\<lambda>name. \<lparr>ush_Name = name, ush_State = None\<rparr>) (?gone l))"
    using assms(3) rep by (auto simp: Generate_def Let_def split: option.splits)
  have "set (ord [''reportable''] (gkeys rep)) = dom (map_of rep)"
    using assms(1) by (simp add: order_simps)
  with gone have "\<forall>n st. \<lparr>ush_Name = n, ush_State = Some st\<rparr> \<in> set beats \<longleftrightarrow> map_of rep n = Some st"
    "\<forall>n. \<lparr>ush_Name = n, ush_State = None\<rparr> \<in> set beats \<longleftrightarrow>
       (\<exists>l. g_lastSubscribed g = Some l \<and> n \<in> us_elems (ts_us l) - subscribed_names g)"
    unfolding beats by (cases "g_lastSubscribed g"; auto simp: image_iff)+
  with rep inv show ?thesis by blast
qed

end
