(* ===== verification/Registry_Interface.thy ===== *)
theory Registry_Interface
  imports Job_Model Machine_State
begin

text \<open>
  \<open>registry/interface.go\<close>: the \<open>Registry\<close> interface as a record of functions over the state of the
  registry, in the order the source lists the methods. A call that can fail returns the error
  beside the new state; the reads leave the state alone.
\<close>

record 'r Registry =
  reg_ClearUnitHeartbeat :: "string \<Rightarrow> 'r \<Rightarrow> 'r"
  reg_CreateMachineState :: "MachineState \<Rightarrow> Duration \<Rightarrow> 'r \<Rightarrow> 64 word result \<times> 'r"
  reg_CreateUnit :: "Unit \<Rightarrow> 'r \<Rightarrow> string option \<times> 'r"
  reg_DestroyUnit :: "string \<Rightarrow> 'r \<Rightarrow> string option \<times> 'r"
  reg_UnitHeartbeat :: "string \<Rightarrow> string \<Rightarrow> Duration \<Rightarrow> 'r \<Rightarrow> string option \<times> 'r"
  reg_Machines :: "'r \<Rightarrow> MachineState list result"
  reg_RemoveMachineState :: "string \<Rightarrow> 'r \<Rightarrow> string option \<times> 'r"
  reg_RemoveUnitState :: "string \<Rightarrow> 'r \<Rightarrow> string option \<times> 'r"
  reg_SaveUnitState :: "string \<Rightarrow> UnitState \<Rightarrow> Duration \<Rightarrow> 'r \<Rightarrow> 'r"
  reg_ScheduleUnit :: "string \<Rightarrow> string \<Rightarrow> 'r \<Rightarrow> string option \<times> 'r"
  reg_SetUnitTargetState :: "string \<Rightarrow> JobState \<Rightarrow> 'r \<Rightarrow> string option \<times> 'r"
  reg_SetMachineState :: "MachineState \<Rightarrow> Duration \<Rightarrow> 'r \<Rightarrow> 64 word result \<times> 'r"
  reg_MachineState :: "string \<Rightarrow> 'r \<Rightarrow> MachineState result"
  reg_UnscheduleUnit :: "string \<Rightarrow> string \<Rightarrow> 'r \<Rightarrow> string option \<times> 'r"
  reg_SetMachineMetadata :: "string \<Rightarrow> string \<Rightarrow> string \<Rightarrow> 'r \<Rightarrow> string option \<times> 'r"
  reg_DeleteMachineMetadata :: "string \<Rightarrow> string \<Rightarrow> 'r \<Rightarrow> string option \<times> 'r"
  reg_IsRegistryReady :: "'r \<Rightarrow> bool"
  reg_UseEtcdRegistry :: "'r \<Rightarrow> bool"
  reg_Schedule :: "'r \<Rightarrow> ScheduledUnit list result"
  reg_ScheduledUnit :: "string \<Rightarrow> 'r \<Rightarrow> ScheduledUnit option result"
  reg_Unit :: "string \<Rightarrow> 'r \<Rightarrow> Unit option result"
  reg_Units :: "'r \<Rightarrow> Unit list result"
  reg_UnitState :: "string \<Rightarrow> 'r \<Rightarrow> UnitState option result"
  reg_UnitStates :: "'r \<Rightarrow> UnitState list result"

text \<open>
  The \<open>ClusterRegistry\<close> interface: the version the engines of the cluster agree on. The version of
  the newest daemon is not used by the parts modelled here.
\<close>

record 'r ClusterRegistry =
  cr_EngineVersion :: "'r \<Rightarrow> int result"
  cr_UpdateEngineVersion :: "int \<Rightarrow> int \<Rightarrow> 'r \<Rightarrow> string option \<times> 'r"

end
