(* ===== verification/Agent.thy ===== *)
theory Agent
  imports Agent_State Unit_Manager Registry_Interface
begin

text \<open>
  \<open>agent/agent.go\<close>, \<open>agent/cache.go\<close>, \<open>agent/task.go\<close>: the agent's cache of target states, its
  operations on the unit manager and the registry, its view of the current units, and the manager
  that executes tasks until one fails. The unit manager and the registry are the records of
  functions the agent holds as interfaces; their states are components of the agent.
\<close>

section \<open>The cache\<close>

type_synonym agentCache = "(string, JobState) gmap"

definition setTargetState :: "string \<Rightarrow> JobState \<Rightarrow> agentCache \<Rightarrow> agentCache" where
  "setTargetState jobName state ac = gput jobName state ac"

definition dropTargetState :: "string \<Rightarrow> agentCache \<Rightarrow> agentCache" where
  "dropTargetState jobName ac = gdel jobName ac"

definition launchedJobs :: "range_order \<Rightarrow> agentCache \<Rightarrow> string list" where
  "launchedJobs ord ac =
     filter (\<lambda>j. map_of ac j = Some JobStateLaunched) (ord [''launchedJobs''] (gkeys ac))"

definition loadedJobs :: "range_order \<Rightarrow> agentCache \<Rightarrow> string list" where
  "loadedJobs ord ac =
     filter (\<lambda>j. map_of ac j = Some JobStateLoaded) (ord [''loadedJobs''] (gkeys ac))"

section \<open>The agent\<close>

record ('s, 'r) Agent =
  a_registry :: 'r
  a_um :: 's
  a_uGen :: UnitStateGenerator
  a_Machine :: MachineState
  a_ttl :: Duration
  a_cache :: agentCache

definition Agent_New :: "'s \<Rightarrow> UnitStateGenerator \<Rightarrow> 'r \<Rightarrow> MachineState \<Rightarrow> Duration \<Rightarrow> ('s, 'r) Agent" where
  "Agent_New mgr uGen reg mach ttl =
     \<lparr>a_registry = reg, a_um = mgr, a_uGen = uGen, a_Machine = mach, a_ttl = ttl, a_cache = []\<rparr>"

text \<open>The heartbeat of every launched job; the goroutines are run in the order the loop spawns them.\<close>

definition heartbeat :: "range_order \<Rightarrow> 'r Registry \<Rightarrow> ('s, 'r) Agent \<Rightarrow> ('s, 'r) Agent" where
  "heartbeat ord reg a =
     fold (\<lambda>j a. a\<lparr>a_registry := snd (reg_UnitHeartbeat reg j (ms_ID (a_Machine a)) (a_ttl a) (a_registry a))\<rparr>)
       (launchedJobs ord (a_cache a)) a"

text \<open>Go division of 64-bit signed integers truncates towards zero.\<close>

definition quo64 :: "Duration \<Rightarrow> int \<Rightarrow> Duration" where
  "quo64 x n = word_of_int (sgn (sint x) * (\<bar>sint x\<bar> div n))"

definition heartbeatInterval :: "Duration \<Rightarrow> Duration" where
  "heartbeatInterval ttl = (if 10000000000 <s ttl then quo64 (ttl * 4) 5 else quo64 ttl 2)"

definition reloadUnitFiles :: "'s UnitManager \<Rightarrow> ('s, 'r) Agent \<Rightarrow> string option \<times> ('s, 'r) Agent" where
  "reloadUnitFiles um a = (let (err, s) = um_ReloadUnitFiles um (a_um a) in (err, a\<lparr>a_um := s\<rparr>))"

definition loadUnit :: "'s UnitManager \<Rightarrow> Unit \<Rightarrow> ('s, 'r) Agent \<Rightarrow> string option \<times> ('s, 'r) Agent" where
  "loadUnit um u a =
     (let a = a\<lparr>a_cache := setTargetState (u_Name u) JobStateLoaded (a_cache a)\<rparr>;
          a = a\<lparr>a_uGen := Subscribe (u_Name u) (a_uGen a)\<rparr>;
          (err, s) = um_Load um (u_Name u) (u_Unit u) (a_um a)
      in (err, a\<lparr>a_um := s\<rparr>))"

definition unloadUnit ::
  "'s UnitManager \<Rightarrow> 'r Registry \<Rightarrow> string \<Rightarrow> ('s, 'r) Agent \<Rightarrow> string option \<times> ('s, 'r) Agent" where
  "unloadUnit um reg unitName a =
     (let a = a\<lparr>a_registry := reg_ClearUnitHeartbeat reg unitName (a_registry a)\<rparr>;
          a = a\<lparr>a_cache := dropTargetState unitName (a_cache a)\<rparr>;
          (errStop, s) = um_TriggerStop um unitName (a_um a);
          a = a\<lparr>a_um := s\<rparr>;
          a = a\<lparr>a_uGen := Unsubscribe unitName (a_uGen a)\<rparr>
      in if errStop = None
         then let (errUnload, s) = um_Unload um unitName (a_um a) in (errUnload, a\<lparr>a_um := s\<rparr>)
         else (None, a))"

definition startUnit ::
  "'s UnitManager \<Rightarrow> 'r Registry \<Rightarrow> string \<Rightarrow> ('s, 'r) Agent \<Rightarrow> string option \<times> ('s, 'r) Agent" where
  "startUnit um reg unitName a =
     (let a = a\<lparr>a_cache := setTargetState unitName JobStateLaunched (a_cache a)\<rparr>;
          machID = ms_ID (a_Machine a);
          a = a\<lparr>a_registry := snd (reg_UnitHeartbeat reg unitName machID (a_ttl a) (a_registry a))\<rparr>;
          (err, s) = um_TriggerStart um unitName (a_um a)
      in (err, a\<lparr>a_um := s\<rparr>))"

definition stopUnit ::
  "'s UnitManager \<Rightarrow> 'r Registry \<Rightarrow> string \<Rightarrow> ('s, 'r) Agent \<Rightarrow> string option \<times> ('s, 'r) Agent" where
  "stopUnit um reg unitName a =
     (let a = a\<lparr>a_cache := setTargetState unitName JobStateLoaded (a_cache a)\<rparr>;
          a = a\<lparr>a_registry := reg_ClearUnitHeartbeat reg unitName (a_registry a)\<rparr>;
          (err, s) = um_TriggerStop um unitName (a_um a)
      in (err, a\<lparr>a_um := s\<rparr>))"

record unitState =
  as_state :: JobState
  as_hash :: string

type_synonym unitStates = "(string, unitState) gmap"

definition agent_units :: "range_order \<Rightarrow> 's UnitManager \<Rightarrow> ('s, 'r) Agent \<Rightarrow> unitStates result" where
  "agent_units ord um a =
     (let launched = fold us_Add (launchedJobs ord (a_cache a)) (NewUnsafeSet []);
          ldd = fold us_Add (loadedJobs ord (a_cache a)) (NewUnsafeSet [])
      in case um_Units um (a_um a) of
           Inl err \<Rightarrow> Inl (''failed fetching loaded units from UnitManager: '' @ err)
         | Inr units \<Rightarrow>
             let filt = fold us_Add units (NewUnsafeSet []) in
             case um_GetUnitStates um ord filt (a_um a) of
               Inl err \<Rightarrow> Inl (''failed fetching unit states from UnitManager: '' @ err)
             | Inr uStates \<Rightarrow>
                 Inr (fold (\<lambda>uName states.
                   let js = (if us_Contains ldd uName then JobStateLoaded
                             else if us_Contains launched uName then JobStateLaunched
                             else JobStateInactive)
                   in gput uName \<lparr>as_state = js, as_hash = us_UnitHash (the (map_of uStates uName))\<rparr> states)
                   (ord [''units''] (gkeys uStates)) []))"

section \<open>Tasks\<close>

definition taskTypeLoadUnit :: string where "taskTypeLoadUnit = ''LoadUnit''"
definition taskTypeUnloadUnit :: string where "taskTypeUnloadUnit = ''UnloadUnit''"
definition taskTypeStartUnit :: string where "taskTypeStartUnit = ''StartUnit''"
definition taskTypeStopUnit :: string where "taskTypeStopUnit = ''StopUnit''"
definition taskTypeReloadUnitFiles :: string where "taskTypeReloadUnitFiles = ''ReloadUnitFiles''"

lemmas taskType_defs = taskTypeLoadUnit_def taskTypeUnloadUnit_def taskTypeStartUnit_def
  taskTypeStopUnit_def taskTypeReloadUnitFiles_def

lemma agent_taskType_distinct [simp]:
  "taskTypeLoadUnit \<noteq> taskTypeUnloadUnit" "taskTypeLoadUnit \<noteq> taskTypeStartUnit" "taskTypeLoadUnit \<noteq> taskTypeStopUnit" "taskTypeLoadUnit \<noteq> taskTypeReloadUnitFiles"
  "taskTypeUnloadUnit \<noteq> taskTypeLoadUnit" "taskTypeUnloadUnit \<noteq> taskTypeStartUnit" "taskTypeUnloadUnit \<noteq> taskTypeStopUnit" "taskTypeUnloadUnit \<noteq> taskTypeReloadUnitFiles"
  "taskTypeStartUnit \<noteq> taskTypeLoadUnit" "taskTypeStartUnit \<noteq> taskTypeUnloadUnit" "taskTypeStartUnit \<noteq> taskTypeStopUnit" "taskTypeStartUnit \<noteq> taskTypeReloadUnitFiles"
  "taskTypeStopUnit \<noteq> taskTypeLoadUnit" "taskTypeStopUnit \<noteq> taskTypeUnloadUnit" "taskTypeStopUnit \<noteq> taskTypeStartUnit" "taskTypeStopUnit \<noteq> taskTypeReloadUnitFiles"
  "taskTypeReloadUnitFiles \<noteq> taskTypeLoadUnit" "taskTypeReloadUnitFiles \<noteq> taskTypeUnloadUnit" "taskTypeReloadUnitFiles \<noteq> taskTypeStartUnit" "taskTypeReloadUnitFiles \<noteq> taskTypeStopUnit"
  by (simp_all add: taskType_defs)

definition taskReasonScheduledButUnloaded :: string where
  "taskReasonScheduledButUnloaded = ''unit scheduled here but not loaded''"
definition taskReasonLoadedButNotScheduled :: string where
  "taskReasonLoadedButNotScheduled = ''unit loaded but not scheduled here''"
definition taskReasonLoadedButHashDiffers :: string where
  "taskReasonLoadedButHashDiffers = ''unit loaded but hash differs to expected''"
definition taskReasonLoadedDesiredStateLaunched :: string where
  "taskReasonLoadedDesiredStateLaunched = ''unit currently loaded but desired state is launched''"
definition taskReasonLaunchedDesiredStateLoaded :: string where
  "taskReasonLaunchedDesiredStateLoaded = ''unit currently launched but desired state is loaded''"
definition taskReasonPurgingAgent :: string where
  "taskReasonPurgingAgent = ''purging agent''"
definition taskReasonAlwaysReloadUnitFiles :: string where
  "taskReasonAlwaysReloadUnitFiles = ''always reload unit files''"

record agentTask =
  at_typ :: string
  at_reason :: string
  at_unit :: "Unit option"

definition taskTypeSortOrder :: "string \<Rightarrow> int" where
  \<comment> \<open>a missing key reads as 0\<close>
  "taskTypeSortOrder typ =
     (case map_of [(taskTypeUnloadUnit, 1), (taskTypeLoadUnit, 2), (taskTypeReloadUnitFiles, 3),
                   (taskTypeStopUnit, 4), (taskTypeStartUnit, 5)] typ of
        Some n \<Rightarrow> n | None \<Rightarrow> 0)"

definition tasks_Less :: "agentTask \<Rightarrow> agentTask \<Rightarrow> bool" where
  "tasks_Less a b = (taskTypeSortOrder (at_typ a) < taskTypeSortOrder (at_typ b))"

text \<open>\<open>mapTaskToFunc\<close> and the call of the function it returns; an unknown type is an error of the task.\<close>

definition runTask ::
  "'s UnitManager \<Rightarrow> 'r Registry \<Rightarrow> agentTask \<Rightarrow> ('s, 'r) Agent \<Rightarrow> string option \<times> ('s, 'r) Agent" where
  "runTask um reg t a =
     (if at_typ t = taskTypeLoadUnit then loadUnit um (the (at_unit t)) a
      else if at_typ t = taskTypeUnloadUnit then unloadUnit um reg (u_Name (the (at_unit t))) a
      else if at_typ t = taskTypeStartUnit then startUnit um reg (u_Name (the (at_unit t))) a
      else if at_typ t = taskTypeStopUnit then stopUnit um reg (u_Name (the (at_unit t))) a
      else if at_typ t = taskTypeReloadUnitFiles then reloadUnitFiles um a
      else (Some (''unrecognized task type '' @ quoted (at_typ t)), a))"

record taskResult =
  tr_task :: agentTask
  tr_err :: "string option"

fun Do :: "'s UnitManager \<Rightarrow> 'r Registry \<Rightarrow> agentTask list \<Rightarrow> ('s, 'r) Agent \<Rightarrow> taskResult list \<times> ('s, 'r) Agent" where
  "Do um reg [] a = ([], a)"
| "Do um reg (t # tasks) a =
     (let (err, a) = runTask um reg t a;
          res = \<lparr>tr_task = t, tr_err = err\<rparr>
      in if err \<noteq> None then ([res], a)
         else let (results, a) = Do um reg tasks a in (res # results, a))"

end
