(* ===== verification/Agent_Reconcile.thy ===== *)
theory Agent_Reconcile
  imports Agent
begin

text \<open>
  \<open>agent/reconcile.go\<close>: what the agent should run (\<open>desiredAgentState\<close>), the tasks that lead there
  (\<open>calculateTasksForUnits\<close>) and a round of reconciliation. \<open>sort.Sort\<close> on tasks has ties, so the
  sorting routine is an argument. The main results: the tasks of one unit are executed in the order
  they were queued for every such routine; a round whose tasks all succeed leaves nothing to do.
\<close>

definition desired_step ::
  "range_order \<Rightarrow> MachineState \<Rightarrow> (string, ScheduledUnit) gmap \<Rightarrow> Unit \<Rightarrow> AgentState \<Rightarrow> AgentState" where
  "desired_step ord ms sUnitMap u ast =
     (if IsGlobal u \<and> \<not> HasMetadata ms (Unit_RequiredTargetMetadata u) then ast
      else if \<not> IsGlobal u \<and>
              (case map_of sUnitMap (u_Name u) of
                 None \<Rightarrow> True
               | Some sUnit \<Rightarrow> su_TargetMachineID sUnit = [] \<or> su_TargetMachineID sUnit \<noteq> ms_ID ms) then ast
      else if fst (HasConflict (at ord (u_Name u)) ast (u_Name u) (Unit_Conflicts u)) then ast
      else ast\<lparr>as_Units := gput (u_Name u) u (as_Units ast)\<rparr>)"

definition desired_of :: "range_order \<Rightarrow> MachineState \<Rightarrow> Unit list \<Rightarrow> ScheduledUnit list \<Rightarrow> AgentState" where
  "desired_of ord ms units sUnits =
     fold (desired_step ord ms (gput_all su_Name (\<lambda>su. su) sUnits [])) units
       \<lparr>as_MState = ms, as_Units = []\<rparr>"

definition desiredAgentState :: "range_order \<Rightarrow> 'r Registry \<Rightarrow> ('s, 'r) Agent \<Rightarrow> AgentState result" where
  "desiredAgentState ord reg a =
     (case reg_Units reg (a_registry a) of
        Inl err \<Rightarrow> Inl err
      | Inr units \<Rightarrow>
          (case reg_Schedule reg (a_registry a) of
             Inl err \<Rightarrow> Inl err
           | Inr sUnits \<Rightarrow>
               (case reg_MachineState reg (ms_ID (a_Machine a)) (a_registry a) of
                  Inl err \<Rightarrow> Inl err
                | Inr ms \<Rightarrow> Inr (desired_of ord ms units sUnits))))"

definition noFile :: UnitFile where
  "noFile = \<lparr>uf_Contents = [], uf_Options = []\<rparr>"

definition mkTask :: "string \<Rightarrow> string \<Rightarrow> Unit \<Rightarrow> agentTask" where
  "mkTask typ reason u = \<lparr>at_typ = typ, at_reason = reason, at_unit = Some u\<rparr>"

definition calculateTasksForUnit :: "AgentState option \<Rightarrow> unitStates \<Rightarrow> string \<Rightarrow> agentTask list" where
  "calculateTasksForUnit dState cState jName =
     (let dJob = (case dState of None \<Rightarrow> None | Some d \<Rightarrow> map_of (as_Units d) jName);
          dJHash = (case dJob of None \<Rightarrow> [] | Some u \<Rightarrow> Hash_String (uf_Hash (u_Unit u)));
          cJ = map_of cState jName;
          u = \<lparr>u_Name = jName, u_Unit = noFile, u_TargetState = []\<rparr>
      in case dJob of
           None \<Rightarrow>
             (case cJ of
                None \<Rightarrow> []
              | Some _ \<Rightarrow> [mkTask taskTypeUnloadUnit taskReasonLoadedButNotScheduled u])
         | Some dJob \<Rightarrow>
             if u_TargetState dJob = JobStateInactive then
               (case cJ of
                  None \<Rightarrow> []
                | Some _ \<Rightarrow> [mkTask taskTypeUnloadUnit taskReasonLoadedButNotScheduled u])
             else
               let u = u\<lparr>u_Unit := u_Unit dJob\<rparr>;
                   startIt = mkTask taskTypeStartUnit taskReasonLoadedDesiredStateLaunched u;
                   loadIt = mkTask taskTypeLoadUnit taskReasonScheduledButUnloaded u
               in case cJ of
                    None \<Rightarrow> [loadIt] @ (if u_TargetState dJob = JobStateLaunched then [startIt] else [])
                  | Some cj \<Rightarrow>
                      if as_hash cj \<noteq> dJHash then
                        [mkTask taskTypeUnloadUnit taskReasonLoadedButHashDiffers u, loadIt] @
                        (if u_TargetState dJob = JobStateLaunched then [startIt] else [])
                      else if as_state cj = u_TargetState dJob then []
                      else
                        (if as_state cj = JobStateInactive then [loadIt] else []) @
                        (if (as_state cj = JobStateInactive \<or> as_state cj = JobStateLoaded) \<and>
                            u_TargetState dJob = JobStateLaunched then [startIt] else []) @
                        (if as_state cj = JobStateLaunched \<and> u_TargetState dJob = JobStateLoaded
                         then [mkTask taskTypeStopUnit taskReasonLaunchedDesiredStateLoaded u] else []))"

definition reloadTask :: agentTask where
  "reloadTask = \<lparr>at_typ = taskTypeReloadUnitFiles, at_reason = taskReasonAlwaysReloadUnitFiles, at_unit = None\<rparr>"

definition reconcile_names :: "range_order \<Rightarrow> AgentState \<Rightarrow> unitStates \<Rightarrow> string list" where
  "reconcile_names ord dState cState =
     sort (us_Values ord
       (fold us_Add (ord [''dState''] (gkeys (as_Units dState)))
         (fold us_Add (ord [''cState''] (gkeys cState)) (NewUnsafeSet []))))"

definition calculateTasksForUnits ::
  "(agentTask list \<Rightarrow> agentTask list) \<Rightarrow> range_order \<Rightarrow> AgentState \<Rightarrow> unitStates \<Rightarrow> agentTask list" where
  "calculateTasksForUnits srt ord dState cState =
     (let tasks = concat (map (calculateTasksForUnit (Some dState) cState) (reconcile_names ord dState cState))
      in if length tasks = 0 then []
         else
           let tasks = srt (tasks @ [reloadTask])
           in if at_typ (hd tasks) = taskTypeReloadUnitFiles then tl tasks else tasks)"

definition Reconcile ::
  "(agentTask list \<Rightarrow> agentTask list) \<Rightarrow> range_order \<Rightarrow> 's UnitManager \<Rightarrow> 'r Registry \<Rightarrow>
   ('s, 'r) Agent \<Rightarrow> taskResult list \<times> ('s, 'r) Agent" where
  \<comment> \<open>the results are what \<open>launchTasks\<close> logs\<close>
  "Reconcile srt ord um reg a =
     (case desiredAgentState ord reg a of
        Inl err \<Rightarrow> ([], a)
      | Inr dAgentState \<Rightarrow>
          (case agent_units ord um a of
             Inl err \<Rightarrow> ([], a)
           | Inr cAgentState \<Rightarrow> Do um reg (calculateTasksForUnits srt ord dAgentState cAgentState) a))"

definition purge_tasks :: "string list \<Rightarrow> agentTask list" where
  "purge_tasks names =
     map (\<lambda>name. mkTask taskTypeUnloadUnit taskReasonPurgingAgent
            \<lparr>u_Name = name, u_Unit = noFile, u_TargetState = []\<rparr>) names"

text \<open>The loop of \<open>Purge\<close> with a bound on its rounds; \<open>None\<close> when the bound is reached first.\<close>

fun Purge :: "nat \<Rightarrow> range_order \<Rightarrow> 's UnitManager \<Rightarrow> 'r Registry \<Rightarrow> ('s, 'r) Agent \<Rightarrow> ('s, 'r) Agent option" where
  "Purge 0 ord um reg a = None"
| "Purge (Suc n) ord um reg a =
     (case agent_units ord um a of
        Inl err \<Rightarrow> Some a
      | Inr cAgentState \<Rightarrow>
          if length cAgentState = 0 then Some a
          else Purge n ord um reg (snd (Do um reg (purge_tasks (ord [''Purge''] (gkeys cAgentState))) a)))"

section \<open>The desired state\<close>

text \<open>Whether the agent is to consider a unit at all: global and metadata fits, or scheduled here.\<close>

definition eligible :: "MachineState \<Rightarrow> (string, ScheduledUnit) gmap \<Rightarrow> Unit \<Rightarrow> bool" where
  "eligible ms sm u \<longleftrightarrow>
     (if IsGlobal u then HasMetadata ms (Unit_RequiredTargetMetadata u)
      else \<exists>su. map_of sm (u_Name u) = Some su \<and> su_TargetMachineID su \<noteq> [] \<and> su_TargetMachineID su = ms_ID ms)"

lemma desired_step_eq:
  assumes "valid_order ord"
  shows "desired_step ord ms sm u ast =
    (if eligible ms sm u \<and> (\<forall>e\<in>ran (map_of (as_Units ast)). \<not> conflicting (u_Name u) (Unit_Conflicts u) e)
     then ast\<lparr>as_Units := gput (u_Name u) u (as_Units ast)\<rparr> else ast)"
  using HasConflict_iff[OF valid_order_at[OF assms, of "u_Name u"], of ast "u_Name u" "Unit_Conflicts u"]
  by (auto simp: desired_step_def eligible_def split: option.splits)

definition desired_inv :: "MachineState \<Rightarrow> (string, ScheduledUnit) gmap \<Rightarrow> Unit list \<Rightarrow> AgentState \<Rightarrow> bool" where
  "desired_inv ms sm us d \<longleftrightarrow>
     as_MState d = ms \<and> gmap_ok (as_Units d) \<and>
     (\<forall>n u. map_of (as_Units d) n = Some u \<longrightarrow> u_Name u = n \<and> u \<in> set us \<and> eligible ms sm u) \<and>
     (\<forall>u\<in>ran (map_of (as_Units d)). \<forall>e\<in>ran (map_of (as_Units d)). \<not> units_conflict u e) \<and>
     (\<forall>u\<in>set us. eligible ms sm u \<longrightarrow> map_of (as_Units d) (u_Name u) = Some u \<or>
        (\<exists>e\<in>ran (map_of (as_Units d)). units_conflict u e))"

lemma desired_step_inv:
  assumes "valid_order ord" "desired_inv ms sm us d" "u_Name u \<notin> u_Name ` set us"
  shows "desired_inv ms sm (us @ [u]) (desired_step ord ms sm u d)"
proof -
  have fresh: "map_of (as_Units d) (u_Name u) = None"
  proof (rule ccontr)
    assume "map_of (as_Units d) (u_Name u) \<noteq> None"
    then obtain e where "map_of (as_Units d) (u_Name u) = Some e" by blast
    with assms(2) have "u_Name e = u_Name u" "e \<in> set us" by (auto simp: desired_inv_def)
    with assms(3) show False by (metis imageI)
  qed
  show ?thesis
  proof (cases "eligible ms sm u \<and> (\<forall>e\<in>ran (map_of (as_Units d)). \<not> units_conflict u e)")
    case True
    have step: "desired_step ord ms sm u d = d\<lparr>as_Units := gput (u_Name u) u (as_Units d)\<rparr>"
      using True by (simp add: desired_step_eq[OF assms(1)] units_conflict_def)
    have D: "as_MState d = ms" "gmap_ok (as_Units d)"
      "\<And>n v. map_of (as_Units d) n = Some v \<Longrightarrow> u_Name v = n \<and> v \<in> set us \<and> eligible ms sm v"
      "\<And>v e. v \<in> ran (map_of (as_Units d)) \<Longrightarrow> e \<in> ran (map_of (as_Units d)) \<Longrightarrow> \<not> units_conflict v e"
      "\<And>v. v \<in> set us \<Longrightarrow> eligible ms sm v \<Longrightarrow> map_of (as_Units d) (u_Name v) = Some v \<or>
         (\<exists>e\<in>ran (map_of (as_Units d)). units_conflict v e)"
      using assms(2) by (auto simp: desired_inv_def)
    let ?d = "d\<lparr>as_Units := gput (u_Name u) u (as_Units d)\<rparr>"
    have R: "ran (map_of (as_Units ?d)) = insert u (ran (map_of (as_Units d)))"
      using ran_gput_fresh[OF fresh] by simp
    have P1: "as_MState ?d = ms \<and> gmap_ok (as_Units ?d)" using D(1,2) by simp
    have P2: "\<forall>n v. map_of (as_Units ?d) n = Some v \<longrightarrow> u_Name v = n \<and> v \<in> set (us @ [u]) \<and> eligible ms sm v"
      using D(3) True by simp
    have P3: "\<forall>v\<in>ran (map_of (as_Units ?d)). \<forall>e\<in>ran (map_of (as_Units ?d)). \<not> units_conflict v e"
      unfolding R using D(4) True units_conflict_irrefl[of u u] units_conflict_sym by blast
    have P4: "map_of (as_Units ?d) (u_Name v) = Some v \<or> (\<exists>e\<in>ran (map_of (as_Units ?d)). units_conflict v e)"
      if "v \<in> set (us @ [u])" "eligible ms sm v" for v
    proof (cases "v = u")
      case False
      then have v: "v \<in> set us" using that(1) by simp
      then have "u_Name v \<noteq> u_Name u" using assms(3) by (metis imageI)
      with D(5)[OF v that(2)] show ?thesis unfolding R by auto
    qed simp
    show ?thesis unfolding desired_inv_def step using P1 P2 P3 P4 by blast
  next
    case False
    then have "desired_step ord ms sm u d = d" by (auto simp: desired_step_eq[OF assms(1)] units_conflict_def)
    with False assms(2) show ?thesis unfolding desired_inv_def set_append by auto
  qed
qed

lemma desired_of_inv:
  assumes "valid_order ord" "distinct (map u_Name units)"
  shows "desired_inv ms (gput_all su_Name (\<lambda>su. su) sUnits []) units (desired_of ord ms units sUnits)"
  using assms(2)
proof (induction units rule: rev_induct)
  case Nil
  then show ?case by (simp add: desired_of_def desired_inv_def)
next
  case (snoc u us)
  then show ?case using desired_step_inv[OF assms(1)] by (simp add: desired_of_def)
qed

section \<open>The order of the tasks\<close>

lemma tasks_Less_asym: "tasks_Less a b \<Longrightarrow> \<not> tasks_Less b a"
  by (simp add: tasks_Less_def)

lemma tasks_Less_cotrans: "\<not> tasks_Less b a \<Longrightarrow> \<not> tasks_Less c b \<Longrightarrow> \<not> tasks_Less c a"
  by (simp add: tasks_Less_def)

interpretation task_sort: go_sort tasks_Less "insertionSort tasks_Less"
  by (rule insertionSort_go_sort) (erule tasks_Less_asym, erule (1) tasks_Less_cotrans)

definition for_unit :: "string \<Rightarrow> agentTask \<Rightarrow> bool" where
  "for_unit n t = (case at_unit t of None \<Rightarrow> False | Some u \<Rightarrow> u_Name u = n)"

lemma for_unit_mkTask [simp]: "for_unit n (mkTask typ reason u) \<longleftrightarrow> u_Name u = n"
  by (simp add: for_unit_def mkTask_def)

lemma for_unit_reload [simp]: "\<not> for_unit n reloadTask"
  by (simp add: for_unit_def reloadTask_def)

lemma at_typ_mkTask [simp]: "at_typ (mkTask typ reason u) = typ"
  by (simp add: mkTask_def)

lemma at_typ_reload [simp]: "at_typ reloadTask = taskTypeReloadUnitFiles"
  by (simp add: reloadTask_def)

lemma taskTypeSortOrder_simps [simp]:
  "taskTypeSortOrder taskTypeUnloadUnit = 1" "taskTypeSortOrder taskTypeLoadUnit = 2"
  "taskTypeSortOrder taskTypeReloadUnitFiles = 3" "taskTypeSortOrder taskTypeStopUnit = 4"
  "taskTypeSortOrder taskTypeStartUnit = 5"
  by (simp_all add: taskTypeSortOrder_def)

lemma tasks_shape:
  "list_all (\<lambda>t. for_unit n t \<and> at_typ t \<noteq> taskTypeReloadUnitFiles) (calculateTasksForUnit d c n)"
  by (simp add: calculateTasksForUnit_def Let_def split: option.split)

lemma tasks_for_unit: "t \<in> set (calculateTasksForUnit d c n) \<Longrightarrow> for_unit n t"
  and tasks_not_reload: "t \<in> set (calculateTasksForUnit d c n) \<Longrightarrow> at_typ t \<noteq> taskTypeReloadUnitFiles"
  using tasks_shape[of n d c] by (auto simp: list_all_iff)

text \<open>The tasks queued for one unit are in strictly increasing sort order.\<close>

lemma tasks_strictly_sorted: "sorted_wrt tasks_Less (calculateTasksForUnit d c n)"
  by (simp add: calculateTasksForUnit_def tasks_Less_def Let_def split: option.split)

lemma sorted_wrt_total: "sorted_wrt lt xs \<Longrightarrow> a \<in> set xs \<Longrightarrow> b \<in> set xs \<Longrightarrow> a \<noteq> b \<Longrightarrow> lt a b \<or> lt b a"
  by (induction xs) auto

lemma filter_concat_units:
  assumes "distinct ns" "\<And>m t. t \<in> set (f m) \<Longrightarrow> for_unit m t"
  shows "filter (for_unit n) (concat (map f ns)) = (if n \<in> set ns then f n else [])"
proof -
  have "for_unit n t \<longleftrightarrow> m = n" if "t \<in> set (f m)" for m t
    using assms(2)[OF that] by (auto simp: for_unit_def split: option.splits)
  then have f: "filter (for_unit n) (f m) = (if m = n then f m else [])" for m
    by (auto simp: filter_empty_conv filter_id_conv)
  show ?thesis using assms(1) by (induction ns) (auto simp: f)
qed

text \<open>Whatever the sorting routine, the sorted list runs the tasks of a unit in the order queued.\<close>

lemma sorted_tasks_per_unit:
  assumes "go_sort tasks_Less srt" "distinct ns"
  shows "filter (for_unit n) (srt (concat (map (calculateTasksForUnit d c) ns) @ [reloadTask])) =
    (if n \<in> set ns then calculateTasksForUnit d c n else [])"
proof -
  let ?xs = "concat (map (calculateTasksForUnit d c) ns) @ [reloadTask]"
  let ?T = "if n \<in> set ns then calculateTasksForUnit d c n else []"
  have T: "filter (for_unit n) ?xs = ?T" using filter_concat_units[OF assms(2) tasks_for_unit] by simp
  have strict: "sorted_wrt tasks_Less ?T" by (simp add: tasks_strictly_sorted)
  have ms: "mset (filter (for_unit n) (srt ?xs)) = mset ?T"
    unfolding T[symmetric] mset_filter go_sort.srt_mset[OF assms(1)] ..
  show ?thesis
  proof (rule sorted_wrt_unique[where lt = tasks_Less, OF ms])
    show "sorted_wrt (\<lambda>a b. \<not> tasks_Less b a) (filter (for_unit n) (srt ?xs))"
      by (rule sorted_wrt_filter[OF go_sort.srt_sorted[OF assms(1)]])
    show "sorted_wrt (\<lambda>a b. \<not> tasks_Less b a) ?T"
      by (rule sorted_wrt_mono_rel[OF _ strict]) (rule tasks_Less_asym)
    show "tasks_Less a b \<or> tasks_Less b a" if "a \<in> set (filter (for_unit n) (srt ?xs))"
      "b \<in> set (filter (for_unit n) (srt ?xs))" "a \<noteq> b" for a b
      using sorted_wrt_total[OF strict] that mset_eq_setD[OF ms] by blast
  qed
qed

lemma reconcile_names_spec:
  assumes "valid_order ord"
  shows "distinct (reconcile_names ord d c)"
    and "set (reconcile_names ord d c) = dom (map_of (as_Units d)) \<union> dom (map_of c)"
proof -
  let ?s1 = "fold us_Add (ord [''cState''] (gkeys c)) (NewUnsafeSet [])"
  have s1: "us_inv ?s1 \<and> us_elems ?s1 = dom (map_of c)"
    using uset.elems_add_all[OF uset.inv_empty] uset.elems_empty assms by (simp add: order_simps)
  then have "us_inv (fold us_Add (ord [''dState''] (gkeys (as_Units d))) ?s1) \<and>
      us_elems (fold us_Add (ord [''dState''] (gkeys (as_Units d))) ?s1) =
      dom (map_of (as_Units d)) \<union> dom (map_of c)"
    using uset.elems_add_all[of ?s1] assms by (simp add: order_simps)
  then show "distinct (reconcile_names ord d c)"
    "set (reconcile_names ord d c) = dom (map_of (as_Units d)) \<union> dom (map_of c)"
    using us_Values_spec[OF assms] by (simp_all add: reconcile_names_def)
qed

lemma no_tasks_outside:
  "n \<notin> dom (map_of (as_Units d)) \<union> dom (map_of c) \<Longrightarrow> calculateTasksForUnit (Some d) c n = []"
  by (auto simp: calculateTasksForUnit_def domIff)

lemma filter_tl: "xs \<noteq> [] \<Longrightarrow> \<not> P (hd xs) \<Longrightarrow> filter P (tl xs) = filter P xs"
  by (cases xs) auto

lemma tasks_per_unit:
  assumes "valid_order ord" "go_sort tasks_Less srt"
  shows "filter (for_unit n) (calculateTasksForUnits srt ord d c) = calculateTasksForUnit (Some d) c n"
proof -
  let ?ns = "reconcile_names ord d c"
  let ?ts = "concat (map (calculateTasksForUnit (Some d) c) ?ns)"
  have sorted: "filter (for_unit n) (srt (?ts @ [reloadTask])) = calculateTasksForUnit (Some d) c n"
    using sorted_tasks_per_unit[OF assms(2) reconcile_names_spec(1)[OF assms(1)]]
      no_tasks_outside reconcile_names_spec(2)[OF assms(1)] by metis
  show ?thesis
  proof (cases "?ts = []")
    case True
    then have "calculateTasksForUnit (Some d) c n = []"
      using no_tasks_outside[of n d c] reconcile_names_spec(2)[OF assms(1), of d c]
      by (cases "n \<in> set ?ns") auto
    with True show ?thesis by (simp add: calculateTasksForUnits_def)
  next
    case False
    let ?s = "srt (?ts @ [reloadTask])"
    have ne: "?s \<noteq> []" by (simp add: go_sort.srt_Nil_iff[OF assms(2)])
    have "t = reloadTask" if "t \<in> set ?s" "at_typ t = taskTypeReloadUnitFiles" for t
      using that tasks_not_reload by (auto simp: go_sort.srt_set[OF assms(2)])
    then have "at_typ (hd ?s) = taskTypeReloadUnitFiles \<Longrightarrow> \<not> for_unit n (hd ?s)"
      using hd_in_set[OF ne] by fastforce
    moreover have "calculateTasksForUnits srt ord d c =
        (if at_typ (hd ?s) = taskTypeReloadUnitFiles then tl ?s else ?s)"
      using False by (simp only: calculateTasksForUnits_def Let_def length_0_conv if_False)
    ultimately show ?thesis using sorted filter_tl[OF ne, of "for_unit n"] by presburger
  qed
qed

section \<open>What a task does to one unit\<close>

text \<open>
  The agent's view of one unit: its cached target state, the hash the unit manager has for it, and
  whether the generator is subscribed to it. \<open>effect\<close> is what a successful task does to that view.
\<close>

type_synonym unit_view = "JobState option \<times> string option \<times> bool"

definition effect :: "agentTask \<Rightarrow> unit_view \<Rightarrow> unit_view" where
  "effect t v =
     (let (c, h, b) = v in
      if at_typ t = taskTypeLoadUnit
        then (Some JobStateLoaded, Some (Hash_String (uf_Hash (u_Unit (the (at_unit t))))), True)
      else if at_typ t = taskTypeUnloadUnit then (None, None, False)
      else if at_typ t = taskTypeStartUnit then (Some JobStateLaunched, h, b)
      else if at_typ t = taskTypeStopUnit then (Some JobStateLoaded, h, b)
      else v)"

definition unit_tasks_ok :: "(string \<Rightarrow> bool) \<Rightarrow> agentTask \<Rightarrow> bool" where
  "unit_tasks_ok ok t \<longleftrightarrow> at_typ t = taskTypeReloadUnitFiles \<and> at_unit t = None \<or>
     (\<exists>u. at_unit t = Some u \<and> at_typ t \<noteq> taskTypeReloadUnitFiles \<and> (at_typ t = taskTypeLoadUnit \<longrightarrow> ok (u_Name u)))"

definition stops_succeed :: "'s UnitManager \<Rightarrow> bool" where
  "stops_succeed um \<longleftrightarrow> (\<forall>n s. fst (um_TriggerStop um n s) = None)"

definition agent_ok :: "('s, 'r) Agent \<Rightarrow> bool" where
  "agent_ok a \<longleftrightarrow> gmap_ok (a_cache a) \<and> generator_inv (a_uGen a)"

definition agent_view :: "('s \<Rightarrow> (string \<rightharpoonup> string)) \<Rightarrow> ('s, 'r) Agent \<Rightarrow> string \<Rightarrow> unit_view" where
  "agent_view loaded a n = (map_of (a_cache a) n, loaded (a_um a) n, n \<in> subscribed_names (a_uGen a))"

lemmas agent_ops = loadUnit_def unloadUnit_def startUnit_def stopUnit_def reloadUnitFiles_def

lemma runTask_ok: "agent_ok a \<Longrightarrow> runTask um reg t a = (e, a') \<Longrightarrow> agent_ok a'"
  by (auto simp: agent_ok_def runTask_def agent_ops setTargetState_def dropTargetState_def Let_def
      split: prod.splits if_splits)

context unit_manager
begin

abbreviation view :: "('s, 'r) Agent \<Rightarrow> string \<Rightarrow> unit_view" where
  "view \<equiv> agent_view loaded"

lemma loadUnit_view:
  assumes "agent_ok a" "valid_name (u_Name u)" "loadUnit um u a = (None, a')"
  shows "view a' n = (if n = u_Name u then (Some JobStateLoaded, Some (Hash_String (uf_Hash (u_Unit u))), True) else view a n)"
  using assms Load_ok
  by (auto simp: agent_view_def loadUnit_def setTargetState_def agent_ok_def subscribed_names_ops Let_def
      split: prod.splits)

lemma unloadUnit_view:
  assumes "agent_ok a" "stops_succeed um" "unloadUnit um reg m a = (None, a')"
  shows "view a' n = (if n = m then (None, None, False) else view a n)"
proof -
  obtain s1 where st: "um_TriggerStop um m (a_um a) = (None, s1)"
    using assms(2) by (metis stops_succeed_def surjective_pairing)
  obtain s2 where un: "um_Unload um m s1 = (None, s2)" and a':
    "a' = a\<lparr>a_registry := reg_ClearUnitHeartbeat reg m (a_registry a), a_cache := dropTargetState m (a_cache a),
            a_um := s2, a_uGen := Unsubscribe m (a_uGen a)\<rparr>"
    using assms(3) st by (auto simp: unloadUnit_def Let_def split: prod.splits)
  show ?thesis
    using assms(1) Stop_frame[OF st] Unload_ok[OF un]
    by (auto simp: a' agent_view_def dropTargetState_def agent_ok_def subscribed_names_ops)
qed

lemma startUnit_view:
  assumes "startUnit um reg m a = (None, a')"
  shows "view a' n = (if n = m then (Some JobStateLaunched, snd (view a n)) else view a n)"
  using assms Start_frame
  by (auto simp: agent_view_def startUnit_def setTargetState_def Let_def split: prod.splits)

lemma stopUnit_view:
  assumes "stopUnit um reg m a = (None, a')"
  shows "view a' n = (if n = m then (Some JobStateLoaded, snd (view a n)) else view a n)"
  using assms Stop_frame
  by (auto simp: agent_view_def stopUnit_def setTargetState_def Let_def split: prod.splits)

lemma reload_view:
  assumes "reloadUnitFiles um a = (None, a')"
  shows "view a' n = view a n"
  using assms Reload_frame
  by (auto simp: agent_view_def reloadUnitFiles_def Let_def split: prod.splits)

lemma runTask_view:
  assumes "agent_ok a" "stops_succeed um" "unit_tasks_ok valid_name t" "runTask um reg t a = (None, a')"
  shows "view a' n = (if for_unit n t then effect t (view a n) else view a n)"
proof -
  consider (reload) "at_typ t = taskTypeReloadUnitFiles" "at_unit t = None"
    | (unit) u where "at_unit t = Some u" "at_typ t \<noteq> taskTypeReloadUnitFiles"
        "at_typ t = taskTypeLoadUnit \<Longrightarrow> valid_name (u_Name u)"
    using assms(3) by (auto simp: unit_tasks_ok_def)
  then show ?thesis
  proof cases
    case reload
    then show ?thesis using assms(4) reload_view by (simp add: runTask_def for_unit_def)
  next
    case unit
    have f: "for_unit n t \<longleftrightarrow> n = u_Name u" using unit by (auto simp: for_unit_def)
    show ?thesis
      unfolding f effect_def
      using assms(4) unit loadUnit_view[OF assms(1), of u a' n] unloadUnit_view[OF assms(1,2), of reg "u_Name u" a' n]
        startUnit_view[of reg "u_Name u" a a' n] stopUnit_view[of reg "u_Name u" a a' n]
      by (cases "view a n") (auto simp: runTask_def split: if_splits)
  qed
qed

lemma Do_view:
  assumes "agent_ok a" "stops_succeed um" "list_all (unit_tasks_ok valid_name) ts" "Do um reg ts a = (res, a')"
    "list_all (\<lambda>r. tr_err r = None) res"
  shows "agent_ok a' \<and> view a' n = fold effect (filter (for_unit n) ts) (view a n)"
  using assms
proof (induction ts arbitrary: a res)
  case Nil
  then show ?case by simp
next
  case (Cons t ts)
  obtain e a1 where r: "runTask um reg t a = (e, a1)" by fastforce
  obtain res1 a2 where d: "Do um reg ts a1 = (res1, a2)" by fastforce
  have e: "e = None" using Cons.prems(4,5) r by (auto simp: Let_def split: if_splits prod.splits)
  then have "a2 = a'" "list_all (\<lambda>r. tr_err r = None) res1"
    using Cons.prems(4,5) r d by (auto simp: Let_def)
  then have IH: "agent_ok a' \<and> view a' n = fold effect (filter (for_unit n) ts) (view a1 n)"
    using Cons.IH[OF runTask_ok[OF Cons.prems(1) r] assms(2)] Cons.prems(3) d by auto
  then show ?case using runTask_view[OF Cons.prems(1,2)] Cons.prems(3) r e by auto
qed

end

section \<open>A successful round reaches the desired state\<close>

definition state_of_view :: "unit_view \<Rightarrow> unitState option" where
  "state_of_view v =
     (let (c, h, b) = v in
      map_option (\<lambda>h. \<lparr>as_state = (if c = Some JobStateLoaded then JobStateLoaded
                                 else if c = Some JobStateLaunched then JobStateLaunched
                                 else JobStateInactive), as_hash = h\<rparr>) h)"

text \<open>What the current state of a unit is to be: nothing for a unit that is not desired or inactive.\<close>

definition wanted :: "AgentState \<Rightarrow> string \<Rightarrow> unitState option" where
  "wanted d n =
     (case map_of (as_Units d) n of
        None \<Rightarrow> None
      | Some u \<Rightarrow> if u_TargetState u = JobStateInactive then None
                  else Some \<lparr>as_state = u_TargetState u, as_hash = Hash_String (uf_Hash (u_Unit u))\<rparr>)"

definition target_states_ok :: "AgentState \<Rightarrow> bool" where
  "target_states_ok d \<longleftrightarrow> (\<forall>u \<in> ran (map_of (as_Units d)).
     u_TargetState u \<in> {JobStateInactive, JobStateLoaded, JobStateLaunched})"

lemma no_tasks_when_wanted:
  assumes "map_of c n = wanted d n"
  shows "calculateTasksForUnit (Some d) c n = []"
  using assms by (auto simp: calculateTasksForUnit_def wanted_def Let_def split: option.splits)

lemma effect_simps:
  "effect (mkTask taskTypeLoadUnit r u) v = (Some JobStateLoaded, Some (Hash_String (uf_Hash (u_Unit u))), True)"
  "effect (mkTask taskTypeUnloadUnit r u) v = (None, None, False)"
  "effect (mkTask taskTypeStartUnit r u) v = (Some JobStateLaunched, snd v)"
  "effect (mkTask taskTypeStopUnit r u) v = (Some JobStateLoaded, snd v)"
  by (cases v; simp add: effect_def mkTask_def)+

lemma tasks_reach_wanted:
  assumes "map_of c n = state_of_view v"
    "\<And>u. map_of (as_Units d) n = Some u \<Longrightarrow> u_TargetState u \<in> {JobStateInactive, JobStateLoaded, JobStateLaunched}"
  shows "state_of_view (fold effect (calculateTasksForUnit (Some d) c n) v) = wanted d n"
proof (cases "map_of (as_Units d) n")
  case None
  with assms(1) show ?thesis
    by (cases v) (auto simp: calculateTasksForUnit_def wanted_def state_of_view_def effect_simps split: option.splits)
next
  case (Some u)
  obtain cc h b where v: "v = (cc, h, b)" by (cases v)
  show ?thesis
  proof (cases "u_TargetState u = JobStateInactive")
    case True
    with Some assms(1) show ?thesis
      by (cases h) (simp_all add: v calculateTasksForUnit_def wanted_def state_of_view_def effect_simps)
  next
    case False
    with assms(2)[OF Some] have t: "u_TargetState u = JobStateLoaded \<or> u_TargetState u = JobStateLaunched" by auto
    show ?thesis
    proof (cases h)
      case None
      with Some False t assms(1) show ?thesis
        by (auto simp: v calculateTasksForUnit_def wanted_def state_of_view_def effect_simps Let_def)
    next
      case h: (Some hh)
      show ?thesis
      proof (cases "hh = Hash_String (uf_Hash (u_Unit u))")
        case True
        with Some False t assms(1) h show ?thesis
          by (auto simp: v calculateTasksForUnit_def wanted_def state_of_view_def effect_simps Let_def)
      next
        case False
        with Some \<open>u_TargetState u \<noteq> JobStateInactive\<close> t assms(1) h show ?thesis
          by (auto simp: v calculateTasksForUnit_def wanted_def state_of_view_def effect_simps Let_def)
      qed
    qed
  qed
qed

lemma calculated_tasks_ok:
  assumes "valid_order ord" "go_sort tasks_Less srt" "\<And>n. n \<in> dom (map_of (as_Units d)) \<Longrightarrow> ok n"
  shows "list_all (unit_tasks_ok ok) (calculateTasksForUnits srt ord d c)"
proof -
  have one: "list_all (unit_tasks_ok ok) (calculateTasksForUnit (Some d) c n)" for n
    using assms(3)[of n]
    by (auto simp: calculateTasksForUnit_def unit_tasks_ok_def mkTask_def Let_def domIff split: option.splits)
  have rel: "unit_tasks_ok ok reloadTask" by (simp add: unit_tasks_ok_def reloadTask_def)
  let ?s = "srt (concat (map (calculateTasksForUnit (Some d) c) (reconcile_names ord d c)) @ [reloadTask])"
  have s: "list_all (unit_tasks_ok ok) ?s"
    using one rel by (auto simp: list_all_iff go_sort.srt_set[OF assms(2)])
  have "set (calculateTasksForUnits srt ord d c) \<subseteq> set ?s"
    unfolding calculateTasksForUnits_def Let_def by (cases ?s) auto
  with s show ?thesis by (auto simp: list_all_iff)
qed

lemma no_tasks_at_all:
  assumes "\<And>n. calculateTasksForUnit (Some d) c n = []"
  shows "calculateTasksForUnits srt ord d c = []"
  by (simp add: calculateTasksForUnits_def assms)

lemma map_of_fold_gput:
  "map_of (fold (\<lambda>k m. gput k (f k) m) ks m0) n = (if n \<in> set ks then Some (f n) else map_of m0 n)"
  by (induction ks arbitrary: m0) auto

lemma cache_sets:
  assumes "valid_order ord"
  shows "us_Contains (NewUnsafeSet (loadedJobs ord c)) n \<longleftrightarrow> map_of c n = Some JobStateLoaded"
    "us_Contains (NewUnsafeSet (launchedJobs ord c)) n \<longleftrightarrow> map_of c n = Some JobStateLaunched"
  using NewUnsafeSet_spec by (auto simp: us_Contains_iff loadedJobs_def launchedJobs_def set_order[OF assms])

lemma NewUnsafeSet_fold: "fold us_Add xs (NewUnsafeSet []) = NewUnsafeSet xs"
  by (simp add: NewUnsafeSet_def)

lemma gmap_ok_fold_gput: "gmap_ok m \<Longrightarrow> gmap_ok (fold (\<lambda>k m. gput k (f k) m) ks m)"
  by (induction ks arbitrary: m) auto

lemma agent_units_ok: "agent_units ord um a = Inr c \<Longrightarrow> gmap_ok c"
  by (auto simp: agent_units_def Let_def gmap_ok_fold_gput split: sum.splits)

context unit_manager
begin

lemma agent_units_view:
  assumes "valid_order ord" "agent_units ord um a = Inr c"
  shows "map_of c n = state_of_view (view a n)"
proof -
  obtain ns where ns: "um_Units um (a_um a) = Inr ns"
    using assms(2) by (auto simp: agent_units_def Let_def split: sum.splits)
  obtain m where m: "um_GetUnitStates um ord (NewUnsafeSet ns) (a_um a) = Inr m"
    using assms(2) ns by (auto simp: agent_units_def NewUnsafeSet_fold Let_def split: sum.splits)
  note g = GetUnitStates_all[OF assms(1) ns m]
  define f where "f = (\<lambda>k. \<lparr>as_state = (if map_of (a_cache a) k = Some JobStateLoaded then JobStateLoaded
      else if map_of (a_cache a) k = Some JobStateLaunched then JobStateLaunched else JobStateInactive),
      as_hash = us_UnitHash (the (map_of m k))\<rparr>)"
  have "c = fold (\<lambda>k. gput k (f k)) (ord [''units''] (gkeys m)) []"
    using assms(2) ns m by (simp add: agent_units_def NewUnsafeSet_fold cache_sets[OF assms(1)] f_def Let_def
        cong: if_cong)
  then have "map_of c n = (if n \<in> dom (map_of m) then Some (f n) else None)"
    using map_of_fold_gput[of f "ord [''units''] (gkeys m)" "[]" n] assms(1) by (simp add: order_simps)
  then show ?thesis
    using g(2)[of n, symmetric] by (cases "map_of m n") (auto simp: agent_view_def state_of_view_def f_def)
qed

lemma round_reaches:
  assumes "valid_order ord" "valid_order ord'" "go_sort tasks_Less srt" "agent_ok a" "stops_succeed um"
    "\<And>n. n \<in> dom (map_of (as_Units d)) \<Longrightarrow> valid_name n" "target_states_ok d"
    "agent_units ord um a = Inr c" "Do um reg (calculateTasksForUnits srt ord d c) a = (res, a')"
    "list_all (\<lambda>r. tr_err r = None) res" "agent_units ord' um a' = Inr c'"
  shows "map_of c' n = wanted d n"
proof -
  have "view a' n = fold effect (calculateTasksForUnit (Some d) c n) (view a n)"
    using Do_view[OF assms(4,5) calculated_tasks_ok[OF assms(1,3,6)] assms(9,10), where n = n]
      tasks_per_unit[OF assms(1,3)] by simp
  moreover have "map_of c n = state_of_view (view a n)" by (rule agent_units_view[OF assms(1,8)])
  ultimately show ?thesis
    using tasks_reach_wanted[of c n "view a n" d] agent_units_view[OF assms(2,11), of n] assms(7)
    by (auto simp: target_states_ok_def ran_def)
qed

lemma round_idempotent:
  assumes "valid_order ord" "valid_order ord'" "go_sort tasks_Less srt" "agent_ok a" "stops_succeed um"
    "\<And>n. n \<in> dom (map_of (as_Units d)) \<Longrightarrow> valid_name n" "target_states_ok d"
    "agent_units ord um a = Inr c" "Do um reg (calculateTasksForUnits srt ord d c) a = (res, a')"
    "list_all (\<lambda>r. tr_err r = None) res" "agent_units ord' um a' = Inr c'"
  shows "calculateTasksForUnits srt ord' d c' = []"
  using round_reaches[OF assms] by (intro no_tasks_at_all no_tasks_when_wanted)

end

section \<open>Purging\<close>

lemma purge_tasks_for:
  "distinct ns \<Longrightarrow> filter (for_unit n) (purge_tasks ns) =
     (if n \<in> set ns then [mkTask taskTypeUnloadUnit taskReasonPurgingAgent
        \<lparr>u_Name = n, u_Unit = noFile, u_TargetState = []\<rparr>] else [])"
  by (induction ns) (auto simp: purge_tasks_def)

lemma purge_tasks_ok: "list_all (unit_tasks_ok ok) (purge_tasks ns)"
  by (auto simp: purge_tasks_def unit_tasks_ok_def mkTask_def list_all_iff)

text \<open>All calls of the manager that purging makes succeed.\<close>

definition unloads_succeed :: "'s UnitManager \<Rightarrow> bool" where
  "unloads_succeed um \<longleftrightarrow> (\<forall>n s. fst (um_TriggerStop um n s) = None \<and> fst (um_Unload um n s) = None)"

lemma Do_purge_succeeds:
  assumes "unloads_succeed um" "Do um reg (purge_tasks ns) a = (res, a')"
  shows "list_all (\<lambda>r. tr_err r = None) res"
  using assms(2)
proof (induction ns arbitrary: a res)
  case Nil
  then show ?case by (simp add: purge_tasks_def)
next
  case (Cons n ns)
  have ok: "fst (um_TriggerStop um m s) = None" "fst (um_Unload um m s) = None" for m s
    using assms(1) by (auto simp: unloads_succeed_def)
  have "fst (unloadUnit um reg n a) = None"
    using ok by (auto simp: unloadUnit_def Let_def split: prod.split)
      (metis fst_conv)+
  then obtain a1 where "unloadUnit um reg n a = (None, a1)" by (metis prod.collapse)
  with Cons show ?case
    by (auto simp: purge_tasks_def runTask_def mkTask_def Let_def split: prod.splits)
qed

context unit_manager
begin

text \<open>If stopping and unloading work and the states can be read, the first round empties the agent.\<close>

lemma Purge_terminates:
  fixes a :: "('s, 'r) Agent"
  assumes "valid_order ord" "agent_ok a" "unloads_succeed um"
    "\<And>b :: ('s, 'r) Agent. \<exists>c. agent_units ord um b = Inr c"
  shows "\<exists>a'. Purge 2 ord um reg a = Some a' \<and> loaded (a_um a') = Map.empty \<and> agent_units ord um a' = Inr []"
proof -
  obtain c where c: "agent_units ord um a = Inr c" using assms(4) by blast
  have empty: "loaded (a_um b) = Map.empty" if "agent_units ord um b = Inr []" for b :: "('s, 'r) Agent"
  proof
    fix n show "loaded (a_um b) n = None"
      using agent_units_view[OF assms(1) that, of n] by (simp add: agent_view_def state_of_view_def)
  qed
  show ?thesis
  proof (cases "c = []")
    case True
    with c empty show ?thesis by (simp add: numeral_2_eq_2)
  next
    case False
    obtain res a' where d: "Do um reg (purge_tasks (ord [''Purge''] (gkeys c))) a = (res, a')" by fastforce
    obtain c' where c': "agent_units ord um a' = Inr c'" using assms(4) by blast
    have stops: "stops_succeed um" using assms(3) by (simp add: stops_succeed_def unloads_succeed_def)
    have "map_of c' n = None" for n
    proof -
      have "gmap_ok c" by (rule agent_units_ok[OF c])
      then have "view a' n = (if n \<in> dom (map_of c) then (None, None, False) else view a n)"
        using Do_view[OF assms(2) stops purge_tasks_ok d Do_purge_succeeds[OF assms(3) d], of n] assms(1)
        by (simp add: purge_tasks_for order_simps effect_simps)
      with agent_units_view[OF assms(1) c, of n] agent_units_view[OF assms(1) c', of n]
      show ?thesis by (auto simp: state_of_view_def split: if_splits)
    qed
    then have "c' = []" by (simp add: gmap_Nil_iff fun_eq_iff)
    with False c d c' empty show ?thesis by (simp add: numeral_2_eq_2)
  qed
qed

end

end
