(* ===== verification/Systemd_Manager.thy ===== *)
theory Systemd_Manager
  imports Agent_Reconcile
begin

text \<open>
  \<open>systemd/manager.go\<close>: the unit manager of a real agent. The D-Bus connection to systemd and the
  error results of the operating system are parameters, a record of functions over the state of
  systemd; the files of the units directory and the cached hashes are modelled. What the manager
  relies on of systemd is the locale \<open>systemd_dbus\<close>: \<open>ListUnitsByNames\<close>, where implemented, answers
  for exactly the names it is asked for. Under it the manager meets the contract \<open>unit_manager\<close>.
  Unit names are plain file names; \<open>path.Join\<close> of the units directory and such a name puts a slash
  between them.
\<close>

record UnitStatus =
  dus_Name :: string
  dus_LoadState :: string
  dus_ActiveState :: string
  dus_SubState :: string

record 'd Systemd =
  sd_StartUnit :: "string \<Rightarrow> 'd \<Rightarrow> string option \<times> 'd"
  sd_StopUnit :: "string \<Rightarrow> 'd \<Rightarrow> string option \<times> 'd"
  sd_Reload :: "'d \<Rightarrow> string option \<times> 'd"
  sd_ListUnitsByNames :: "string list \<Rightarrow> 'd \<Rightarrow> UnitStatus list result"
  sd_ListUnits :: "'d \<Rightarrow> UnitStatus list result"
  sd_GetUnitProperties :: "string \<Rightarrow> 'd \<Rightarrow> (string, string) gmap result"
  sd_LinkUnitFiles :: "string list \<Rightarrow> 'd \<Rightarrow> string option \<times> 'd"
  sd_EnableUnitFiles :: "string list \<Rightarrow> 'd \<Rightarrow> bool result \<times> 'd"
  sd_DisableUnitFiles :: "string list \<Rightarrow> 'd \<Rightarrow> string option \<times> 'd"
  sd_ResetFailedUnit :: "string \<Rightarrow> 'd \<Rightarrow> string option \<times> 'd"
  os_WriteFile :: "string \<Rightarrow> 'd \<Rightarrow> string option"
  os_ReadDir :: "string \<Rightarrow> 'd \<Rightarrow> string option"

record 'd systemdUnitManager =
  sm_systemd :: 'd
  sm_unitsDir :: string
  sm_hashes :: "(string, Hash) gmap"
  sm_files :: "(string, string) gmap"

definition getUnitFilePath :: "'d systemdUnitManager \<Rightarrow> string \<Rightarrow> string" where
  "getUnitFilePath m name = sm_unitsDir m @ ''/'' @ name"

definition ListDirectory :: "(string \<Rightarrow> bool) \<Rightarrow> (string, string) gmap \<Rightarrow> string list" where
  \<comment> \<open>\<open>ioutil.ReadDir\<close> returns the entries sorted by name\<close>
  "ListDirectory filterFunc files = filter (\<lambda>name. \<not> filterFunc name) (sort (gkeys files))"

definition lsUnitsDir :: "'d Systemd \<Rightarrow> 'd systemdUnitManager \<Rightarrow> string list result" where
  "lsUnitsDir sd m =
     (case os_ReadDir sd (sm_unitsDir m) (sm_systemd m) of
        Some err \<Rightarrow> Inl err
      | None \<Rightarrow> Inr (ListDirectory (\<lambda>name. \<not> RecognizedUnitType name) (sm_files m)))"

definition writeUnit :: "'d Systemd \<Rightarrow> string \<Rightarrow> string \<Rightarrow> 'd systemdUnitManager \<Rightarrow> string option \<times> 'd systemdUnitManager" where
  "writeUnit sd name contents m =
     (let ufPath = getUnitFilePath m name in
      case os_WriteFile sd ufPath (sm_systemd m) of
        Some err \<Rightarrow> (Some err, m)
      | None \<Rightarrow>
          let m = m\<lparr>sm_files := gput name contents (sm_files m)\<rparr>;
              (err, d) = sd_LinkUnitFiles sd [ufPath] (sm_systemd m)
          in (err, m\<lparr>sm_systemd := d\<rparr>))"

definition enableUnit :: "'d Systemd \<Rightarrow> string \<Rightarrow> 'd systemdUnitManager \<Rightarrow> bool result \<times> 'd systemdUnitManager" where
  "enableUnit sd name m =
     (let (r, d) = sd_EnableUnitFiles sd [getUnitFilePath m name] (sm_systemd m) in (r, m\<lparr>sm_systemd := d\<rparr>))"

definition join_err :: "string option \<Rightarrow> string option \<Rightarrow> string option" where
  "join_err err errf =
     (case errf of None \<Rightarrow> err
      | Some e \<Rightarrow> Some ((case err of None \<Rightarrow> ''<nil>'' | Some e0 \<Rightarrow> e0) @ '', '' @ e))"

definition removeUnit :: "'d Systemd \<Rightarrow> string \<Rightarrow> 'd systemdUnitManager \<Rightarrow> string option \<times> 'd systemdUnitManager" where
  "removeUnit sd name m =
     (let (errf, d) = sd_DisableUnitFiles sd [name] (sm_systemd m);
          err = join_err None errf;
          (errf, d) = sd_ResetFailedUnit sd name d;
          err = join_err err errf
      in (err, m\<lparr>sm_systemd := d, sm_files := gdel name (sm_files m)\<rparr>))"

definition sm_Load :: "'d Systemd \<Rightarrow> string \<Rightarrow> UnitFile \<Rightarrow> 'd systemdUnitManager \<Rightarrow> string option \<times> 'd systemdUnitManager" where
  "sm_Load sd name u m =
     (let (err, m) = writeUnit sd name (uf_String u) m in
      if err \<noteq> None then (err, m)
      else
        let (failed, m) =
          (if gmem ''Install'' (uf_Contents u) then
             let (r, m) = enableUnit sd name m in
             (case r of
                Inr ok \<Rightarrow> (if ok then (None, m)
                           else (Some (''Failed to enable systemd unit '' @ name @ '': <nil>''), snd (removeUnit sd name m)))
              | Inl err \<Rightarrow> (Some (''Failed to enable systemd unit '' @ name @ '': '' @ err), snd (removeUnit sd name m)))
           else (None, m))
        in if failed \<noteq> None then (failed, m)
           else (None, m\<lparr>sm_hashes := gput name (uf_Hash u) (sm_hashes m)\<rparr>))"

definition sm_Unload :: "'d Systemd \<Rightarrow> string \<Rightarrow> 'd systemdUnitManager \<Rightarrow> string option \<times> 'd systemdUnitManager" where
  "sm_Unload sd name m = removeUnit sd name (m\<lparr>sm_hashes := gdel name (sm_hashes m)\<rparr>)"

definition sm_TriggerStart :: "'d Systemd \<Rightarrow> string \<Rightarrow> 'd systemdUnitManager \<Rightarrow> string option \<times> 'd systemdUnitManager" where
  "sm_TriggerStart sd name m = (let (err, d) = sd_StartUnit sd name (sm_systemd m) in (err, m\<lparr>sm_systemd := d\<rparr>))"

definition sm_TriggerStop :: "'d Systemd \<Rightarrow> string \<Rightarrow> 'd systemdUnitManager \<Rightarrow> string option \<times> 'd systemdUnitManager" where
  "sm_TriggerStop sd name m = (let (err, d) = sd_StopUnit sd name (sm_systemd m) in (err, m\<lparr>sm_systemd := d\<rparr>))"

definition sm_ReloadUnitFiles :: "'d Systemd \<Rightarrow> 'd systemdUnitManager \<Rightarrow> string option \<times> 'd systemdUnitManager" where
  "sm_ReloadUnitFiles sd m = (let (err, d) = sd_Reload sd (sm_systemd m) in (err, m\<lparr>sm_systemd := d\<rparr>))"

definition set_hash :: "'d systemdUnitManager \<Rightarrow> string \<Rightarrow> UnitState \<Rightarrow> UnitState" where
  "set_hash m name us =
     (case map_of (sm_hashes m) name of Some h \<Rightarrow> us\<lparr>us_UnitHash := Hash_String h\<rparr> | None \<Rightarrow> us)"

text \<open>A missing or non-string property makes the type assertion panic; the panic is the error.\<close>

definition getUnitState :: "'d Systemd \<Rightarrow> string \<Rightarrow> 'd systemdUnitManager \<Rightarrow> UnitState result" where
  "getUnitState sd name m =
     (case sd_GetUnitProperties sd name (sm_systemd m) of
        Inl err \<Rightarrow> Inl err
      | Inr info \<Rightarrow>
          (case (map_of info ''LoadState'', map_of info ''ActiveState'', map_of info ''SubState'') of
             (Some l, Some a, Some sub) \<Rightarrow>
               Inr \<lparr>us_LoadState = l, us_ActiveState = a, us_SubState = sub,
                    us_MachineID = [], us_UnitHash = [], us_UnitName = []\<rparr>
           | _ \<Rightarrow> Inl ''panic: interface conversion''))"

definition sm_GetUnitState :: "'d Systemd \<Rightarrow> string \<Rightarrow> 'd systemdUnitManager \<Rightarrow> UnitState option result" where
  "sm_GetUnitState sd name m =
     (case getUnitState sd name m of Inl err \<Rightarrow> Inl err | Inr us \<Rightarrow> Inr (Some (set_hash m name us)))"

definition sm_Units :: "'d Systemd \<Rightarrow> 'd systemdUnitManager \<Rightarrow> string list result" where
  "sm_Units sd m = lsUnitsDir sd m"

definition status_step ::
  "'d systemdUnitManager \<Rightarrow> bool \<Rightarrow> unsafeSet \<Rightarrow> UnitStatus \<Rightarrow> (string, UnitState) gmap \<Rightarrow> (string, UnitState) gmap" where
  "status_step m fallback filt dus states =
     (if fallback \<and> \<not> us_Contains filt (dus_Name dus) then states
      else gput (dus_Name dus)
             (set_hash m (dus_Name dus)
               \<lparr>us_LoadState = dus_LoadState dus, us_ActiveState = dus_ActiveState dus,
                us_SubState = dus_SubState dus, us_MachineID = [], us_UnitHash = [], us_UnitName = []\<rparr>) states)"

fun fallback_states ::
  "'d Systemd \<Rightarrow> 'd systemdUnitManager \<Rightarrow> string list \<Rightarrow> (string, UnitState) gmap \<Rightarrow> (string, UnitState) gmap result" where
  "fallback_states sd m [] states = Inr states"
| "fallback_states sd m (name # names) states =
     (if gmem name states then fallback_states sd m names states
      else case getUnitState sd name m of
             Inl err \<Rightarrow> Inl err
           | Inr us \<Rightarrow> fallback_states sd m names (gput name (set_hash m name us) states))"

definition sm_GetUnitStates ::
  "'d Systemd \<Rightarrow> range_order \<Rightarrow> unsafeSet \<Rightarrow> 'd systemdUnitManager \<Rightarrow> (string, UnitState) gmap result" where
  "sm_GetUnitStates sd ord filt m =
     (let (fallback, statuses) =
        (case sd_ListUnitsByNames sd (us_Values (at ord ''byNames'') filt) (sm_systemd m) of
           Inr l \<Rightarrow> (False, Inr l)
         | Inl err \<Rightarrow> (True, sd_ListUnits sd (sm_systemd m)))
      in case statuses of
           Inl err \<Rightarrow> Inl err
         | Inr dbusStatuses \<Rightarrow>
             let states = fold (status_step m fallback filt) dbusStatuses [] in
             if fallback then fallback_states sd m (us_Values (at ord ''fallback'') filt) states
             else Inr states)"

definition systemd_vtable :: "'d Systemd \<Rightarrow> 'd systemdUnitManager UnitManager" where
  "systemd_vtable sd =
     \<lparr>um_Load = sm_Load sd, um_Unload = sm_Unload sd, um_ReloadUnitFiles = sm_ReloadUnitFiles sd,
      um_TriggerStart = sm_TriggerStart sd, um_TriggerStop = sm_TriggerStop sd, um_Units = sm_Units sd,
      um_GetUnitStates = sm_GetUnitStates sd, um_GetUnitState = sm_GetUnitState sd\<rparr>"

section \<open>The manager meets the contract\<close>

definition sm_loaded :: "'d systemdUnitManager \<Rightarrow> (string \<rightharpoonup> string)" where
  "sm_loaded m = (\<lambda>n.
     if RecognizedUnitType n \<and> gmem n (sm_files m)
     then Some (case map_of (sm_hashes m) n of Some h \<Rightarrow> Hash_String h | None \<Rightarrow> [])
     else None)"

lemma removeUnit_loaded:
  "removeUnit sd n m = (e, m') \<Longrightarrow> sm_files m' = gdel n (sm_files m) \<and> sm_hashes m' = sm_hashes m"
  by (auto simp: removeUnit_def split: prod.splits)

lemma sm_Load_ok:
  assumes "RecognizedUnitType n" "sm_Load sd n uf m = (None, m')"
  shows "sm_loaded m' = (sm_loaded m)(n \<mapsto> Hash_String (uf_Hash uf))"
proof -
  obtain err m1 where w: "writeUnit sd n (uf_String uf) m = (err, m1)" by fastforce
  with assms(2) have err: "err = None" by (auto simp: sm_Load_def split: if_splits)
  then have m1: "sm_files m1 = gput n (uf_String uf) (sm_files m)" "sm_hashes m1 = sm_hashes m"
    using w by (auto simp: writeUnit_def Let_def split: option.splits prod.splits)
  have "sm_files m' = sm_files m1 \<and> sm_hashes m' = gput n (uf_Hash uf) (sm_hashes m1)"
    using assms(2) w err
    by (auto simp: sm_Load_def enableUnit_def Let_def split: if_splits prod.splits sum.splits)
  then show ?thesis
    using m1 assms(1) by (auto simp: sm_loaded_def fun_eq_iff gmem_def)
qed

lemma set_hash_UnitHash:
  "us_UnitHash us = [] \<Longrightarrow>
     us_UnitHash (set_hash m n us) = (case map_of (sm_hashes m) n of Some h \<Rightarrow> Hash_String h | None \<Rightarrow> [])"
  by (auto simp: set_hash_def split: option.splits)

text \<open>Every entry the loops of \<open>GetUnitStates\<close> build carries the cached hash of its unit.\<close>

definition hashes_shown :: "'d systemdUnitManager \<Rightarrow> (string, UnitState) gmap \<Rightarrow> bool" where
  "hashes_shown m states \<longleftrightarrow> gmap_ok states \<and> (\<forall>n us. map_of states n = Some us \<longrightarrow>
     us_UnitHash us = (case map_of (sm_hashes m) n of Some h \<Rightarrow> Hash_String h | None \<Rightarrow> []))"

lemma status_fold:
  assumes "hashes_shown m states"
  shows "hashes_shown m (fold (status_step m fb filt) ds states) \<and>
    dom (map_of (fold (status_step m fb filt) ds states)) =
      dom (map_of states) \<union> {n \<in> dus_Name ` set ds. fb \<longrightarrow> us_Contains filt n}"
  using assms
proof (induction ds arbitrary: states)
  case (Cons d ds)
  have "hashes_shown m (status_step m fb filt d states) \<and>
      dom (map_of (status_step m fb filt d states)) =
        dom (map_of states) \<union> {n. n = dus_Name d \<and> (fb \<longrightarrow> us_Contains filt n)}"
    using Cons.prems by (auto simp: hashes_shown_def status_step_def set_hash_UnitHash)
  with Cons.IH[of "status_step m fb filt d states"] show ?case by auto
qed simp

lemma fallback_states_spec:
  assumes "hashes_shown m states" "fallback_states sd m names states = Inr r"
  shows "hashes_shown m r \<and> dom (map_of r) = dom (map_of states) \<union> set names"
  using assms
proof (induction names arbitrary: states)
  case (Cons n names)
  show ?case
  proof (cases "gmem n states")
    case True
    with Cons show ?thesis by (auto simp: gmem_iff)
  next
    case False
    then obtain us where us: "getUnitState sd n m = Inr us"
      and r: "fallback_states sd m names (gput n (set_hash m n us) states) = Inr r"
      using Cons.prems(2) by (auto split: sum.splits)
    have "us_UnitHash us = []"
      using us by (auto simp: getUnitState_def split: sum.splits option.splits)
    then have "hashes_shown m (gput n (set_hash m n us) states)"
      using Cons.prems(1) by (auto simp: hashes_shown_def set_hash_UnitHash)
    from Cons.IH[OF this r] show ?thesis by auto
  qed
qed simp

lemma shown_loaded:
  assumes "hashes_shown m r" "dom (map_of r) \<subseteq> dom (sm_loaded m)"
  shows "map_option us_UnitHash (map_of r n) = (if n \<in> dom (map_of r) then sm_loaded m n else None)"
proof (cases "map_of r n")
  case (Some us)
  then have "n \<in> dom (sm_loaded m)" using assms(2) by auto
  then have "sm_loaded m n = Some (case map_of (sm_hashes m) n of Some h \<Rightarrow> Hash_String h | None \<Rightarrow> [])"
    by (auto simp: sm_loaded_def split: if_splits)
  with Some assms(1) show ?thesis by (auto simp: hashes_shown_def)
qed (simp add: domIff)

text \<open>What the manager relies on of systemd.\<close>

locale systemd_dbus =
  fixes sd :: "'d Systemd"
  assumes ByNames_names: "sd_ListUnitsByNames sd names d = Inr l \<Longrightarrow> dus_Name ` set l = set names"
begin

lemma GetUnitStates_spec:
  assumes "valid_order ord" "sm_GetUnitStates sd ord f m = Inr r"
  shows "hashes_shown m r \<and> dom (map_of r) = us_elems f"
proof (cases "sd_ListUnitsByNames sd (us_Values (at ord ''byNames'') f) (sm_systemd m)")
  case (Inr l)
  then have "r = fold (status_step m False f) l []" using assms(2) by (simp add: sm_GetUnitStates_def)
  moreover have "dus_Name ` set l = us_elems f"
    using ByNames_names[OF Inr] us_Values_spec(1)[OF valid_order_at[OF assms(1)]] by simp
  ultimately show ?thesis using status_fold[of m "[]" False f l] by (simp add: hashes_shown_def)
next
  case (Inl err)
  then obtain l where l: "sd_ListUnits sd (sm_systemd m) = Inr l"
    and r: "fallback_states sd m (us_Values (at ord ''fallback'') f) (fold (status_step m True f) l []) = Inr r"
    using assms(2) by (auto simp: sm_GetUnitStates_def split: sum.splits)
  have s: "hashes_shown m (fold (status_step m True f) l [])"
    "dom (map_of (fold (status_step m True f) l [])) \<subseteq> us_elems f"
    using status_fold[of m "[]" True f l] by (auto simp: hashes_shown_def us_Contains_iff)
  show ?thesis
    using fallback_states_spec[OF s(1) r] s(2) us_Values_spec(1)[OF valid_order_at[OF assms(1)]] by auto
qed

end

sublocale systemd_dbus \<subseteq> smgr: unit_manager "systemd_vtable sd" sm_loaded RecognizedUnitType
proof
  fix n uf m m' e ns ord f and r :: "(string, UnitState) gmap"
  show "RecognizedUnitType n \<Longrightarrow> um_Load (systemd_vtable sd) n uf m = (None, m') \<Longrightarrow>
      sm_loaded m' = (sm_loaded m)(n \<mapsto> Hash_String (uf_Hash uf))"
    using sm_Load_ok by (simp add: systemd_vtable_def)
  show "um_Unload (systemd_vtable sd) n m = (None, m') \<Longrightarrow> sm_loaded m' = (sm_loaded m)(n := None)"
    using removeUnit_loaded[of sd n "m\<lparr>sm_hashes := gdel n (sm_hashes m)\<rparr>" None m']
    by (auto simp: systemd_vtable_def sm_Unload_def sm_loaded_def fun_eq_iff gmem_def)
  show "um_ReloadUnitFiles (systemd_vtable sd) m = (e, m') \<Longrightarrow> sm_loaded m' = sm_loaded m"
    by (auto simp: systemd_vtable_def sm_ReloadUnitFiles_def sm_loaded_def split: prod.splits)
  show "um_TriggerStart (systemd_vtable sd) n m = (e, m') \<Longrightarrow> sm_loaded m' = sm_loaded m"
    by (auto simp: systemd_vtable_def sm_TriggerStart_def sm_loaded_def split: prod.splits)
  show "um_TriggerStop (systemd_vtable sd) n m = (e, m') \<Longrightarrow> sm_loaded m' = sm_loaded m"
    by (auto simp: systemd_vtable_def sm_TriggerStop_def sm_loaded_def split: prod.splits)
  show "um_Units (systemd_vtable sd) m = Inr ns \<Longrightarrow> set ns = dom (sm_loaded m)"
    by (auto simp: systemd_vtable_def sm_Units_def lsUnitsDir_def ListDirectory_def sm_loaded_def
        gmem_iff domIff split: option.splits if_splits)
  show "\<lbrakk>valid_order ord; us_inv f; us_elems f \<subseteq> dom (sm_loaded m);
      um_GetUnitStates (systemd_vtable sd) ord f m = Inr r\<rbrakk> \<Longrightarrow>
    gmap_ok r \<and> (\<forall>n. map_option us_UnitHash (map_of r n) = (if n \<in> us_elems f then sm_loaded m n else None))"
    using GetUnitStates_spec[of ord f m r] shown_loaded[of m r]
    by (auto simp: systemd_vtable_def hashes_shown_def)
qed

context systemd_dbus
begin

lemma manager: "unit_manager (systemd_vtable sd) sm_loaded RecognizedUnitType"
  by (rule smgr.unit_manager_axioms)

end

end
