(* ===== verification/Fake_Registry.thy ===== *)
theory Fake_Registry
  imports Registry_Interface
begin

text \<open>
  \<open>registry/fake.go\<close>: the in-memory registry the program's tests run against, operation by operation,
  and the contract \<open>unit_registry\<close> of a registry as a store of units, which it meets. The methods of
  the interface it does not implement panic in Go; here they return an error and leave the state
  alone. Locks bracket every method and are left out; a nil metadata map is an empty one.
\<close>

record FakeRegistry =
  fr_machines :: "MachineState list"
  fr_jobStates :: "(string, (string, UnitState) gmap) gmap"
  fr_jobs :: "(string, Job) gmap"

definition NewFakeRegistry :: FakeRegistry where
  "NewFakeRegistry = \<lparr>fr_machines = [], fr_jobStates = [], fr_jobs = []\<rparr>"

definition fr_SetMachines :: "MachineState list \<Rightarrow> FakeRegistry \<Rightarrow> FakeRegistry" where
  "fr_SetMachines machines f = f\<lparr>fr_machines := machines\<rparr>"

definition fr_SetJobs :: "Job list \<Rightarrow> FakeRegistry \<Rightarrow> FakeRegistry" where
  "fr_SetJobs jobs f = f\<lparr>fr_jobs := gput_all j_Name (\<lambda>j. j) jobs []\<rparr>"

definition put_unit_state :: "string \<Rightarrow> UnitState \<Rightarrow> (string, (string, UnitState) gmap) gmap \<Rightarrow>
    (string, (string, UnitState) gmap) gmap" where
  "put_unit_state name us m =
     (let inner = (case map_of m name of None \<Rightarrow> [] | Some i \<Rightarrow> i)
      in gput name (gput (us_MachineID us) us inner) m)"

definition fr_SetUnitStates :: "UnitState list \<Rightarrow> FakeRegistry \<Rightarrow> FakeRegistry" where
  "fr_SetUnitStates states f =
     f\<lparr>fr_jobStates := fold (\<lambda>us. put_unit_state (us_UnitName us) us) states []\<rparr>"

definition fr_Machines :: "FakeRegistry \<Rightarrow> MachineState list result" where
  "fr_Machines f = Inr (fr_machines f)"

definition fr_unit :: "Job \<Rightarrow> Unit" where
  "fr_unit j = \<lparr>u_Name = j_Name j, u_Unit = j_Unit j, u_TargetState = j_TargetState j\<rparr>"

definition fr_sunit :: "Job \<Rightarrow> ScheduledUnit" where
  "fr_sunit j = \<lparr>su_Name = j_Name j, su_State = j_State j, su_TargetMachineID = j_TargetMachineID j\<rparr>"

definition fr_sorted :: "FakeRegistry \<Rightarrow> string list" where
  \<comment> \<open>the names are sorted, so the order of the loop over the map does not matter\<close>
  "fr_sorted f = sort (map (\<lambda>(k, j). j_Name j) (fr_jobs f))"

definition fr_Units :: "FakeRegistry \<Rightarrow> Unit list result" where
  "fr_Units f = Inr (map (\<lambda>jName. fr_unit (the (map_of (fr_jobs f) jName))) (fr_sorted f))"

definition fr_Schedule :: "FakeRegistry \<Rightarrow> ScheduledUnit list result" where
  "fr_Schedule f = Inr (map (\<lambda>jName. fr_sunit (the (map_of (fr_jobs f) jName))) (fr_sorted f))"

definition fr_Unit :: "string \<Rightarrow> FakeRegistry \<Rightarrow> Unit option result" where
  "fr_Unit name f = Inr (map_option fr_unit (map_of (fr_jobs f) name))"

definition fr_ScheduledUnit :: "string \<Rightarrow> FakeRegistry \<Rightarrow> ScheduledUnit option result" where
  "fr_ScheduledUnit name f = Inr (map_option fr_sunit (map_of (fr_jobs f) name))"

definition unsafeSetUnitTargetState :: "string \<Rightarrow> JobState \<Rightarrow> FakeRegistry \<Rightarrow> string option \<times> FakeRegistry" where
  "unsafeSetUnitTargetState name target f =
     (case map_of (fr_jobs f) name of
        None \<Rightarrow> (Some ''job does not exist'', f)
      | Some j \<Rightarrow> (None, f\<lparr>fr_jobs := gput name (j\<lparr>j_TargetState := target\<rparr>) (fr_jobs f)\<rparr>))"

definition fr_CreateUnit :: "Unit \<Rightarrow> FakeRegistry \<Rightarrow> string option \<times> FakeRegistry" where
  "fr_CreateUnit u f =
     (if gmem (u_Name u) (fr_jobs f) then (Some ''unit already exists'', f)
      else
        let j = \<lparr>j_Name = u_Name u, j_State = None, j_TargetState = [], j_TargetMachineID = [], j_Unit = u_Unit u\<rparr>
        in unsafeSetUnitTargetState (u_Name u) (u_TargetState u) (f\<lparr>fr_jobs := gput (u_Name u) j (fr_jobs f)\<rparr>))"

definition fr_DestroyUnit :: "string \<Rightarrow> FakeRegistry \<Rightarrow> string option \<times> FakeRegistry" where
  "fr_DestroyUnit name f = (None, f\<lparr>fr_jobs := gdel name (fr_jobs f)\<rparr>)"

definition fr_SetUnitTargetState :: "string \<Rightarrow> JobState \<Rightarrow> FakeRegistry \<Rightarrow> string option \<times> FakeRegistry" where
  "fr_SetUnitTargetState name target f = unsafeSetUnitTargetState name target f"

definition fr_ScheduleUnit :: "string \<Rightarrow> string \<Rightarrow> FakeRegistry \<Rightarrow> string option \<times> FakeRegistry" where
  "fr_ScheduleUnit name machID f =
     (case map_of (fr_jobs f) name of
        None \<Rightarrow> (Some ''unit does not exist'', f)
      | Some j \<Rightarrow> (None, f\<lparr>fr_jobs := gput name (j\<lparr>j_TargetMachineID := machID\<rparr>) (fr_jobs f)\<rparr>))"

definition fr_SaveUnitState :: "string \<Rightarrow> UnitState \<Rightarrow> Duration \<Rightarrow> FakeRegistry \<Rightarrow> FakeRegistry" where
  "fr_SaveUnitState jobName us ttl f = f\<lparr>fr_jobStates := put_unit_state jobName us (fr_jobStates f)\<rparr>"

definition fr_RemoveUnitState :: "string \<Rightarrow> FakeRegistry \<Rightarrow> string option \<times> FakeRegistry" where
  "fr_RemoveUnitState jobName f = (None, f\<lparr>fr_jobStates := gdel jobName (fr_jobStates f)\<rparr>)"

definition fr_UnitStates :: "FakeRegistry \<Rightarrow> UnitState list result" where
  "fr_UnitStates f =
     Inr (concat (map (\<lambda>name. let inner = the (map_of (fr_jobStates f) name)
                              in map (\<lambda>mID. the (map_of inner mID)) (sort (gkeys inner)))
            (sort (gkeys (fr_jobStates f)))))"

definition fr_UnitState :: "range_order \<Rightarrow> string \<Rightarrow> FakeRegistry \<Rightarrow> UnitState option result" where
  "fr_UnitState ord unitName f =
     (let us = fold (\<lambda>name us.
            let inner = the (map_of (fr_jobStates f) name) in
            case List.find (\<lambda>mID. name = us_UnitName (the (map_of inner mID))) (ord [''states'', name] (gkeys inner)) of
              Some mID \<Rightarrow> map_of inner mID
            | None \<Rightarrow> us) (ord [''states''] (gkeys (fr_jobStates f))) None
      in case us of
           None \<Rightarrow> Inl (''Cannot find unit('' @ unitName @ '') from fakeRegistry'')
         | Some s \<Rightarrow> Inr (Some s))"

definition fr_UnitHeartbeat :: "string \<Rightarrow> string \<Rightarrow> Duration \<Rightarrow> FakeRegistry \<Rightarrow> string option \<times> FakeRegistry" where
  "fr_UnitHeartbeat name machID ttl f = (None, f)"

definition fr_ClearUnitHeartbeat :: "string \<Rightarrow> FakeRegistry \<Rightarrow> FakeRegistry" where
  "fr_ClearUnitHeartbeat name f = f"

definition fr_SetMachineMetadata :: "string \<Rightarrow> string \<Rightarrow> string \<Rightarrow> FakeRegistry \<Rightarrow> string option \<times> FakeRegistry" where
  "fr_SetMachineMetadata machID key value f =
     (None, f\<lparr>fr_machines := map (\<lambda>mach. if ms_ID mach = machID
        then mach\<lparr>ms_Metadata := gput key value (ms_Metadata mach)\<rparr> else mach) (fr_machines f)\<rparr>)"

definition fr_DeleteMachineMetadata :: "string \<Rightarrow> string \<Rightarrow> FakeRegistry \<Rightarrow> string option \<times> FakeRegistry" where
  "fr_DeleteMachineMetadata machID key f =
     (None, f\<lparr>fr_machines := map (\<lambda>mach. if ms_ID mach = machID
        then mach\<lparr>ms_Metadata := gdel key (ms_Metadata mach)\<rparr> else mach) (fr_machines f)\<rparr>)"

definition fr_MachineState :: "string \<Rightarrow> FakeRegistry \<Rightarrow> MachineState result" where
  "fr_MachineState machID f =
     (case List.find (\<lambda>mach. ms_ID mach = machID) (fr_machines f) of
        Some mach \<Rightarrow> Inr mach
      | None \<Rightarrow> Inl ''Machine state not found'')"

definition fr_IsRegistryReady :: "FakeRegistry \<Rightarrow> bool" where
  "fr_IsRegistryReady f = True"

definition fr_UseEtcdRegistry :: "FakeRegistry \<Rightarrow> bool" where
  "fr_UseEtcdRegistry f = False"

text \<open>The cluster registry of the tests: the version itself.\<close>

record FakeClusterRegistry =
  fc_eVersion :: int

definition NewFakeClusterRegistry :: "int \<Rightarrow> FakeClusterRegistry" where
  "NewFakeClusterRegistry eVersion = \<lparr>fc_eVersion = eVersion\<rparr>"

definition fc_EngineVersion :: "FakeClusterRegistry \<Rightarrow> int result" where
  "fc_EngineVersion fc = Inr (fc_eVersion fc)"

definition fc_UpdateEngineVersion :: "int \<Rightarrow> int \<Rightarrow> FakeClusterRegistry \<Rightarrow> string option \<times> FakeClusterRegistry" where
  "fc_UpdateEngineVersion from to fc =
     (if fc_eVersion fc \<noteq> from then (Some ''version mismatch'', fc) else (None, fc\<lparr>fc_eVersion := to\<rparr>))"

definition fake_cluster_registry :: "FakeClusterRegistry ClusterRegistry" where
  "fake_cluster_registry = \<lparr>cr_EngineVersion = fc_EngineVersion, cr_UpdateEngineVersion = fc_UpdateEngineVersion\<rparr>"

definition not_implemented :: string where
  "not_implemented = ''panic: invalid memory address or nil pointer dereference''"

definition fake_registry :: "range_order \<Rightarrow> FakeRegistry Registry" where
  "fake_registry ord =
     \<lparr>reg_ClearUnitHeartbeat = fr_ClearUnitHeartbeat,
      reg_CreateMachineState = (\<lambda>ms ttl f. (Inl not_implemented, f)),
      reg_CreateUnit = fr_CreateUnit,
      reg_DestroyUnit = fr_DestroyUnit,
      reg_UnitHeartbeat = fr_UnitHeartbeat,
      reg_Machines = fr_Machines,
      reg_RemoveMachineState = (\<lambda>machID f. (Some not_implemented, f)),
      reg_RemoveUnitState = fr_RemoveUnitState,
      reg_SaveUnitState = fr_SaveUnitState,
      reg_ScheduleUnit = fr_ScheduleUnit,
      reg_SetUnitTargetState = fr_SetUnitTargetState,
      reg_SetMachineState = (\<lambda>ms ttl f. (Inl not_implemented, f)),
      reg_MachineState = fr_MachineState,
      reg_UnscheduleUnit = (\<lambda>name machID f. (Some not_implemented, f)),
      reg_SetMachineMetadata = fr_SetMachineMetadata,
      reg_DeleteMachineMetadata = fr_DeleteMachineMetadata,
      reg_IsRegistryReady = fr_IsRegistryReady,
      reg_UseEtcdRegistry = fr_UseEtcdRegistry,
      reg_Schedule = fr_Schedule,
      reg_ScheduledUnit = fr_ScheduledUnit,
      reg_Unit = fr_Unit,
      reg_Units = fr_Units,
      reg_UnitState = fr_UnitState ord,
      reg_UnitStates = fr_UnitStates\<rparr>"

section \<open>The contract of a store of units\<close>

text \<open>
  \<open>units r\<close> is the abstract content: the unit stored under each name. Creating adds a unit that was
  not there and refuses one that was; destroying removes it; setting the target state changes only
  that; \<open>Units\<close> lists the content by name.
\<close>

locale unit_registry =
  fixes reg :: "'r Registry"
    and inv :: "'r \<Rightarrow> bool"
    and units :: "'r \<Rightarrow> (string \<rightharpoonup> Unit)"
  assumes Unit_get: "\<lbrakk>inv r; reg_Unit reg n r = Inr uo\<rbrakk> \<Longrightarrow> uo = units r n"
    and Units_list: "\<lbrakk>inv r; reg_Units reg r = Inr us\<rbrakk> \<Longrightarrow>
      sorted_wrt (<) (map u_Name us) \<and> (\<forall>u. u \<in> set us \<longleftrightarrow> units r (u_Name u) = Some u)"
    and units_named: "\<lbrakk>inv r; units r n = Some u\<rbrakk> \<Longrightarrow> u_Name u = n"
    and Create_ok: "\<lbrakk>inv r; reg_CreateUnit reg u r = (None, r')\<rbrakk> \<Longrightarrow>
      inv r' \<and> units r (u_Name u) = None \<and> units r' = (units r)(u_Name u \<mapsto> u)"
    and Create_dup: "\<lbrakk>inv r; units r (u_Name u) \<noteq> None\<rbrakk> \<Longrightarrow> \<exists>e. reg_CreateUnit reg u r = (Some e, r)"
    and Destroy_ok: "\<lbrakk>inv r; reg_DestroyUnit reg n r = (None, r')\<rbrakk> \<Longrightarrow> inv r' \<and> units r' = (units r)(n := None)"
    and Target_ok: "\<lbrakk>inv r; reg_SetUnitTargetState reg n t r = (None, r')\<rbrakk> \<Longrightarrow>
      inv r' \<and> (\<exists>u. units r n = Some u \<and> units r' = (units r)(n \<mapsto> u\<lparr>u_TargetState := t\<rparr>))"
begin

text \<open>Creating a unit and destroying it again restores the content.\<close>

lemma create_destroy:
  assumes "inv r" "reg_CreateUnit reg u r = (None, r1)" "reg_DestroyUnit reg (u_Name u) r1 = (None, r2)"
  shows "units r2 = units r"
  using Create_ok[OF assms(1,2)] Destroy_ok[OF _ assms(3)] by (auto simp: fun_eq_iff)

text \<open>A created unit is what \<open>Unit\<close> then returns, and what \<open>Units\<close> lists besides the others.\<close>

lemma create_get:
  assumes "inv r" "reg_CreateUnit reg u r = (None, r1)" "reg_Unit reg (u_Name u) r1 = Inr v"
  shows "v = Some u"
  using Create_ok[OF assms(1,2)] Unit_get[OF _ assms(3)] by simp

lemma create_list:
  assumes "inv r" "reg_CreateUnit reg u r = (None, r1)" "reg_Units reg r = Inr us" "reg_Units reg r1 = Inr us1"
  shows "set us1 = insert u (set us) \<and> u \<notin> set us"
  using Create_ok[OF assms(1,2)] Units_list[OF assms(1,3)] Units_list[OF _ assms(4)] by (auto split: if_splits)

end

section \<open>The fake registry meets it\<close>

definition fr_inv :: "FakeRegistry \<Rightarrow> bool" where
  "fr_inv f \<longleftrightarrow> gmap_ok (fr_jobs f) \<and> (\<forall>k j. map_of (fr_jobs f) k = Some j \<longrightarrow> j_Name j = k)"

definition fr_content :: "FakeRegistry \<Rightarrow> (string \<rightharpoonup> Unit)" where
  "fr_content f = (\<lambda>n. map_option fr_unit (map_of (fr_jobs f) n))"

lemma fr_sorted_names: "fr_inv f \<Longrightarrow> fr_sorted f = sort (gkeys (fr_jobs f))"
proof -
  assume inv: "fr_inv f"
  have "map (\<lambda>(k, j). j_Name j) (fr_jobs f) = map fst (fr_jobs f)"
    using inv by (auto simp: fr_inv_def gmap_ok_def map_of_is_SomeI intro!: map_cong)
  then show ?thesis by (simp only: fr_sorted_def gkeys_def)
qed

lemma sorted_wrt_less_distinct: "distinct xs \<Longrightarrow> sorted_wrt (<) (sort (xs :: string list))"
  by (metis distinct_sort sorted_sort strict_sorted_iff)

lemma fr_Units_spec:
  assumes "fr_inv f" "fr_Units f = Inr us"
  shows "sorted_wrt (<) (map u_Name us) \<and> (\<forall>u. u \<in> set us \<longleftrightarrow> fr_content f (u_Name u) = Some u)"
proof -
  let ?ks = "sort (gkeys (fr_jobs f))"
  let ?g = "\<lambda>n. fr_unit (the (map_of (fr_jobs f) n))"
  have us: "us = map ?g ?ks" using assms by (simp add: fr_Units_def fr_sorted_names)
  have name: "u_Name (?g n) = n" "map_of (fr_jobs f) n \<noteq> None" if "n \<in> set ?ks" for n
    using that assms(1) by (auto simp: fr_inv_def fr_unit_def)
  have "map u_Name us = ?ks" unfolding us by (auto intro!: map_idI simp: name)
  moreover have "distinct (gkeys (fr_jobs f))" using assms(1) by (simp add: fr_inv_def)
  ultimately have "sorted_wrt (<) (map u_Name us)" by (simp add: sorted_wrt_less_distinct)
  moreover have "u \<in> set us \<longleftrightarrow> fr_content f (u_Name u) = Some u" for u
  proof
    assume "u \<in> set us"
    then obtain n where "n \<in> set ?ks" "u = ?g n" unfolding us by auto
    with name[of n] show "fr_content f (u_Name u) = Some u" by (auto simp: fr_content_def)
  next
    assume c: "fr_content f (u_Name u) = Some u"
    then have "u_Name u \<in> set ?ks" "u = ?g (u_Name u)" by (auto simp: fr_content_def)
    then show "u \<in> set us" unfolding us set_map by (rule rev_image_eqI)
  qed
  ultimately show ?thesis by blast
qed

interpretation fake: unit_registry "fake_registry ord" fr_inv fr_content for ord
proof
  fix r r' :: FakeRegistry and n t u us
  show "fr_inv r \<Longrightarrow> reg_Unit (fake_registry ord) n r = Inr uo \<Longrightarrow> uo = fr_content r n" for uo
    by (auto simp: fake_registry_def fr_Unit_def fr_content_def)
  show "fr_inv r \<Longrightarrow> reg_Units (fake_registry ord) r = Inr us \<Longrightarrow>
      sorted_wrt (<) (map u_Name us) \<and> (\<forall>u. u \<in> set us \<longleftrightarrow> fr_content r (u_Name u) = Some u)"
    using fr_Units_spec by (simp add: fake_registry_def)
  show "fr_inv r \<Longrightarrow> fr_content r n = Some u \<Longrightarrow> u_Name u = n"
    by (auto simp: fr_content_def fr_inv_def fr_unit_def)
  show "fr_inv r \<Longrightarrow> reg_CreateUnit (fake_registry ord) u r = (None, r') \<Longrightarrow>
      fr_inv r' \<and> fr_content r (u_Name u) = None \<and> fr_content r' = (fr_content r)(u_Name u \<mapsto> u)"
    by (auto simp: fake_registry_def fr_CreateUnit_def unsafeSetUnitTargetState_def fr_content_def fr_inv_def
        fr_unit_def gmem_def fun_eq_iff split: if_splits)
  show "fr_inv r \<Longrightarrow> fr_content r (u_Name u) \<noteq> None \<Longrightarrow> \<exists>e. reg_CreateUnit (fake_registry ord) u r = (Some e, r)"
    by (auto simp: fake_registry_def fr_CreateUnit_def fr_content_def gmem_def)
  show "fr_inv r \<Longrightarrow> reg_DestroyUnit (fake_registry ord) n r = (None, r') \<Longrightarrow>
      fr_inv r' \<and> fr_content r' = (fr_content r)(n := None)"
    by (auto simp: fake_registry_def fr_DestroyUnit_def fr_content_def fr_inv_def fun_eq_iff split: if_splits)
  show "fr_inv r \<Longrightarrow> reg_SetUnitTargetState (fake_registry ord) n t r = (None, r') \<Longrightarrow>
      fr_inv r' \<and> (\<exists>u. fr_content r n = Some u \<and> fr_content r' = (fr_content r)(n \<mapsto> u\<lparr>u_TargetState := t\<rparr>))"
    by (auto simp: fake_registry_def fr_SetUnitTargetState_def unsafeSetUnitTargetState_def fr_content_def
        fr_inv_def fr_unit_def fun_eq_iff split: option.splits if_splits)
qed

end
