(* ===== verification/Props_Agent.thy ===== *)
theory Props_Agent
  imports Systemd_Manager Fake_Registry Fleet_Examples
begin

text \<open>
  The properties of the agent: what it can run, what it should run, the tasks that lead there and
  what executing them does, on the systemd unit manager for every systemd that meets
  \<open>systemd_dbus\<close> and for every registry.
\<close>

section \<open>A systemd and a registry to run examples on\<close>

definition ex_dbus :: "unit Systemd" where
  "ex_dbus =
     \<lparr>sd_StartUnit = (\<lambda>n d. (None, d)), sd_StopUnit = (\<lambda>n d. (None, d)), sd_Reload = (\<lambda>d. (None, d)),
      sd_ListUnitsByNames = (\<lambda>ns d. Inr (map (\<lambda>n. \<lparr>dus_Name = n, dus_LoadState = ''loaded'',
         dus_ActiveState = ''active'', dus_SubState = ''running''\<rparr>) ns)),
      sd_ListUnits = (\<lambda>d. Inr []), sd_GetUnitProperties = (\<lambda>n d. Inl ''not found''),
      sd_LinkUnitFiles = (\<lambda>fs d. (None, d)), sd_EnableUnitFiles = (\<lambda>fs d. (Inr True, d)),
      sd_DisableUnitFiles = (\<lambda>fs d. (None, d)), sd_ResetFailedUnit = (\<lambda>n d. (None, d)),
      os_WriteFile = (\<lambda>p d. None), os_ReadDir = (\<lambda>p d. None)\<rparr>"


definition ex_manager :: "unit systemdUnitManager" where
  "ex_manager = \<lparr>sm_systemd = (), sm_unitsDir = ''/run/fleet/units'', sm_hashes = [],
     sm_files = [(''old.service'', ''[Service]'')]\<rparr>"

definition ex_registry :: FakeRegistry where
  "ex_registry = \<lparr>fr_machines = [mach_1], fr_jobStates = [],
     fr_jobs = [(''web.service'', \<lparr>j_Name = ''web.service'', j_State = None, j_TargetState = JobStateLaunched,
                                  j_TargetMachineID = ''m1'', j_Unit = u_Unit unit_web\<rparr>)]\<rparr>"

definition ex_agent :: "(unit systemdUnitManager, FakeRegistry) Agent" where
  "ex_agent = Agent_New ex_manager NewUnitStateGenerator ex_registry mach_1 30000000000"


section \<open>What an agent can run\<close>

text \<open>
  C25. The verdict of \<open>AbleToRun\<close> depends only on the agent and the job, never on the order of the
  units: a job is refused exactly when a target, metadata, peer or conflict requirement is not met,
  and otherwise is to replace a unit exactly when one of the two asks for it.
\<close>

theorem AbleToRun_decides:
  assumes "valid_order ord"
  shows "fst (AbleToRun ord ast j) =
    (if \<not> requirements_met ast j then JobActionUnschedule
     else if has_replacement ast j then JobActionReschedule else JobActionSchedule)"
  using assms by (rule AbleToRun_action)

definition ex_web_agent :: AgentState where
  "ex_web_agent = \<lparr>as_MState = mach_1, as_Units = [(''web.service'', unit_web), (''log.service'', unit_log)]\<rparr>"

theorem AbleToRun_decides_witness:
  "fst (AbleToRun rev_order ex_web_agent (job_of_unit unit_db)) = JobActionUnschedule \<and>
   \<not> requirements_met ex_web_agent (job_of_unit unit_db) \<and>
   fst (AbleToRun rev_order ex_web_agent (job_of_unit unit_new)) = JobActionReschedule \<and>
   requirements_met ex_web_agent (job_of_unit unit_new)"
proof -
  have "fst (AbleToRun rev_order ex_web_agent (job_of_unit unit_db)) = JobActionUnschedule"
    "fst (AbleToRun rev_order ex_web_agent (job_of_unit unit_new)) = JobActionReschedule" by code_simp+
  then show ?thesis
    using AbleToRun_decides[OF valid_rev_order, of ex_web_agent] by (metis JobAction.distinct(1,3,5))
qed

section \<open>What an agent should run\<close>

text \<open>
  C9. The desired state of an agent holds only units of the registry that are global with fitting
  metadata or scheduled to this machine; no two of them conflict; and such a unit is left out only
  if it conflicts with one that is in.
\<close>

theorem desiredAgentState_exact:
  assumes "valid_order ord" "desiredAgentState ord reg a = Inr d"
    and "reg_Units reg (a_registry a) = Inr units" "distinct (map u_Name units)"
  shows "\<exists>ms sUnits. reg_MachineState reg (ms_ID (a_Machine a)) (a_registry a) = Inr ms \<and>
    reg_Schedule reg (a_registry a) = Inr sUnits \<and>
    desired_inv ms (gput_all su_Name (\<lambda>su. su) sUnits []) units d"
  using assms(2,3) desired_of_inv[OF assms(1,4)]
  by (auto simp: desiredAgentState_def split: sum.splits)

theorem desiredAgentState_exact_witness:
  "\<exists>d. desiredAgentState rev_order (fake_registry rev_order) ex_agent = Inr d \<and>
     map_of (as_Units d) ''web.service'' \<noteq> None \<and>
     desired_inv mach_1 (gput_all su_Name (\<lambda>su. su) [ex_sched ''web.service'' ''m1''] []) [unit_web] d"
proof -
  have u: "reg_Units (fake_registry rev_order) (a_registry ex_agent) = Inr [unit_web]"
    by (simp add: fake_registry_def fr_Units_def fr_sorted_def ex_agent_def Agent_New_def ex_registry_def
        fr_unit_def ex_defs)
  have m: "reg_MachineState (fake_registry rev_order) (ms_ID (a_Machine ex_agent)) (a_registry ex_agent) = Inr mach_1"
    by (simp add: fake_registry_def fr_MachineState_def ex_agent_def Agent_New_def ex_registry_def)
  have s: "reg_Schedule (fake_registry rev_order) (a_registry ex_agent) = Inr [ex_sched ''web.service'' ''m1'']"
    by (simp add: fake_registry_def fr_Schedule_def fr_sorted_def ex_agent_def Agent_New_def ex_registry_def
        fr_sunit_def ex_defs)
  obtain d where d: "desiredAgentState rev_order (fake_registry rev_order) ex_agent = Inr d"
    using u m s by (simp add: desiredAgentState_def)
  have "case desiredAgentState rev_order (fake_registry rev_order) ex_agent of
      Inr d \<Rightarrow> gmem ''web.service'' (as_Units d) | Inl e \<Rightarrow> False" by code_simp
  then have "map_of (as_Units d) ''web.service'' \<noteq> None" using d by (simp add: gmem_def)
  with d show ?thesis using desiredAgentState_exact[OF valid_rev_order d u] m s by auto
qed

section \<open>The tasks of a round\<close>

text \<open>
  C24. Whatever sorting routine \<open>sort.Sort\<close> is and in whatever order the maps are visited, the task
  list runs the tasks of each unit in exactly the order in which they were queued for it.
\<close>

theorem tasks_keep_unit_order:
  assumes "valid_order ord" "go_sort tasks_Less srt"
  shows "filter (for_unit n) (calculateTasksForUnits srt ord d c) = calculateTasksForUnit (Some d) c n"
  using assms by (rule tasks_per_unit)

theorem tasks_keep_unit_order_witness:
  "filter (for_unit ''web.service'') (calculateTasksForUnits (insertionSort tasks_Less) rev_order ex_web_agent
       [(''old.service'', \<lparr>as_state = JobStateLoaded, as_hash = []\<rparr>)]) =
     calculateTasksForUnit (Some ex_web_agent) [(''old.service'', \<lparr>as_state = JobStateLoaded, as_hash = []\<rparr>)] ''web.service''"
  by (rule tasks_keep_unit_order[OF valid_rev_order task_sort.go_sort_axioms])

lemma reload_once:
  assumes "go_sort tasks_Less srt" "\<And>t. t \<in> set ts \<Longrightarrow> at_typ t \<noteq> taskTypeReloadUnitFiles"
  shows "count (mset (srt (ts @ [reloadTask]))) reloadTask = 1"
proof -
  have "reloadTask \<notin> set ts" using assms(2)[of reloadTask] by auto
  then show ?thesis by (simp add: go_sort.srt_mset[OF assms(1)] not_in_iff)
qed

lemma concat_tasks_not_reload:
  "t \<in> set (concat (map (calculateTasksForUnit d c) ns)) \<Longrightarrow> at_typ t \<noteq> taskTypeReloadUnitFiles"
  using tasks_not_reload by auto

lemma task_order_known:
  assumes "t \<in> set (calculateTasksForUnit d c n)"
  shows "taskTypeSortOrder (at_typ t) \<in> {1, 2, 4, 5} \<and>
    (taskTypeSortOrder (at_typ t) < 3 \<longleftrightarrow> at_typ t = taskTypeUnloadUnit \<or> at_typ t = taskTypeLoadUnit)"
proof -
  have "list_all (\<lambda>t. at_typ t \<in> {taskTypeUnloadUnit, taskTypeLoadUnit, taskTypeStopUnit, taskTypeStartUnit})
      (calculateTasksForUnit d c n)"
    by (simp add: calculateTasksForUnit_def Let_def split: option.split)
  then show ?thesis using assms by (auto simp: list_all_iff)
qed

text \<open>
  The task list is sorted by type, and it contains the reload of unit files exactly when it
  contains a task that loads or unloads a unit.
\<close>

theorem reload_iff_needed:
  assumes "valid_order ord" "go_sort tasks_Less srt" "ts = calculateTasksForUnits srt ord d c"
  shows "sorted_wrt (\<lambda>a b. \<not> tasks_Less b a) ts \<and>
    (reloadTask \<in> set ts \<longleftrightarrow> (\<exists>t\<in>set ts. at_typ t = taskTypeUnloadUnit \<or> at_typ t = taskTypeLoadUnit))"
proof -
  define xs where "xs = concat (map (calculateTasksForUnit (Some d) c) (reconcile_names ord d c))"
  define s where "s = srt (xs @ [reloadTask])"
  have tt: "taskTypeSortOrder (at_typ t) \<in> {1, 2, 4, 5} \<and>
      (taskTypeSortOrder (at_typ t) < 3 \<longleftrightarrow> at_typ t = taskTypeUnloadUnit \<or> at_typ t = taskTypeLoadUnit)"
    if "t \<in> set xs" for t
    using that task_order_known unfolding xs_def by fastforce
  have srtd: "sorted_wrt (\<lambda>a b. \<not> tasks_Less b a) s" "set s = insert reloadTask (set xs)"
    using go_sort.srt_sorted[OF assms(2)] go_sort.srt_set[OF assms(2)] by (simp_all add: s_def)
  show ?thesis
  proof (cases "xs = []")
    case True
    then have "ts = []"
      unfolding assms(3) calculateTasksForUnits_def Let_def xs_def[symmetric] by simp
    then show ?thesis by simp
  next
    case False
    obtain h r where s: "s = h # r" using srtd(2) by (cases s) auto
    have ts: "ts = (if at_typ h = taskTypeReloadUnitFiles then r else s)"
      using False s unfolding assms(3) calculateTasksForUnits_def Let_def xs_def[symmetric] s_def[symmetric] by simp
    have "count (mset s) reloadTask = 1"
      unfolding s_def xs_def by (rule reload_once[OF assms(2) concat_tasks_not_reload])
    show ?thesis
    proof (cases "at_typ h = taskTypeReloadUnitFiles")
      case True
      have "h \<notin> set xs" using True tt[of h] by auto
      moreover have "h \<in> insert reloadTask (set xs)" using srtd(2) s by auto
      ultimately have "h = reloadTask" by simp
      then have "reloadTask \<notin> set r" using \<open>count (mset s) reloadTask = 1\<close> s by (simp add: count_eq_zero_iff)
      moreover have "at_typ t \<noteq> taskTypeUnloadUnit \<and> at_typ t \<noteq> taskTypeLoadUnit" if "t \<in> set r" for t
      proof -
        have "\<not> tasks_Less t h" using srtd(1) s that by simp
        then show ?thesis using True by (auto simp: tasks_Less_def)
      qed
      ultimately show ?thesis using ts True srtd(1) s by auto
    next
      case h: False
      have "h \<in> insert reloadTask (set xs)" using srtd(2) s by auto
      with h have hx: "h \<in> set xs" by auto
      have "reloadTask \<in> set (h # r)" using srtd(2) s by simp
      with h have "reloadTask \<in> set r" by auto
      then have "\<not> tasks_Less reloadTask h" using srtd(1) s by simp
      then have "at_typ h = taskTypeUnloadUnit \<or> at_typ h = taskTypeLoadUnit"
        using tt[OF hx] by (auto simp: tasks_Less_def)
      then show ?thesis using ts h srtd hx by auto
    qed
  qed
qed

theorem reload_iff_needed_witness:
  "map at_typ (calculateTasksForUnits (insertionSort tasks_Less) rev_order
       \<lparr>as_MState = mach_1, as_Units = []\<rparr> [(''old.service'', \<lparr>as_state = JobStateLoaded, as_hash = []\<rparr>)]) =
     [taskTypeUnloadUnit, taskTypeReloadUnitFiles] \<and>
   reloadTask \<in> set (calculateTasksForUnits (insertionSort tasks_Less) rev_order
       \<lparr>as_MState = mach_1, as_Units = []\<rparr> [(''old.service'', \<lparr>as_state = JobStateLoaded, as_hash = []\<rparr>)])"
  (is "map at_typ ?ts = _ \<and> _")
proof -
  have e: "map at_typ ?ts = [taskTypeUnloadUnit, taskTypeReloadUnitFiles]" by code_simp
  then have "\<exists>t\<in>set ?ts. at_typ t = taskTypeUnloadUnit" by (cases ?ts) auto
  with e show ?thesis
    using reload_iff_needed[OF valid_rev_order task_sort.go_sort_axioms refl] by blast
qed

text \<open>
  \<open>Do\<close> attempts the tasks in order and stops at the first that fails: the results belong to
  a prefix of the tasks, none but the last is an error, and they stop short only at an error.
\<close>

theorem Do_stops_at_first_error:
  assumes "Do um reg ts a = (res, a')"
  shows "map tr_task res = take (length res) ts \<and> list_all (\<lambda>r. tr_err r = None) (butlast res) \<and>
    (length res < length ts \<longrightarrow> res \<noteq> [] \<and> tr_err (last res) \<noteq> None)"
  using assms
proof (induction ts arbitrary: a res a')
  case (Cons t ts)
  obtain e a1 where r: "runTask um reg t a = (e, a1)" by fastforce
  obtain res1 a2 where d: "Do um reg ts a1 = (res1, a2)" by fastforce
  show ?case
  proof (cases e)
    case None
    then have "res = \<lparr>tr_task = t, tr_err = None\<rparr> # res1" using Cons.prems r d by simp
    with Cons.IH[OF d] show ?thesis by (cases "res1 = []") auto
  next
    case (Some x)
    then show ?thesis using Cons.prems r by auto
  qed
qed simp

theorem Do_stops_at_first_error_witness:
  "let ts = [mkTask ''Bogus'' [] unit_web, mkTask taskTypeStartUnit [] unit_web];
       res = fst (Do (systemd_vtable ex_dbus) (fake_registry keep_order) ts ex_agent)
   in length res = 1 \<and> map tr_task res = take (length res) ts \<and> tr_err (last res) \<noteq> None"
proof -
  let ?ts = "[mkTask ''Bogus'' [] unit_web, mkTask taskTypeStartUnit [] unit_web]"
  obtain res a' where d: "Do (systemd_vtable ex_dbus) (fake_registry keep_order) ?ts ex_agent = (res, a')" by fastforce
  then have "length res = 1" by (auto simp: runTask_def taskType_defs)
  then show ?thesis using Do_stops_at_first_error[OF d] d by (simp add: Let_def)
qed

text \<open>
  A unit whose stop fails is not unloaded: \<open>unloadUnit\<close> then only clears the heartbeat, drops
  the unit from the cache and from the subscription, leaves the unit manager as the stop left it,
  and reports no error.
\<close>

theorem unload_only_after_stop:
  assumes "um_TriggerStop um n (a_um a) = (Some e, s)"
  shows "unloadUnit um reg n a =
    (None, a\<lparr>a_registry := reg_ClearUnitHeartbeat reg n (a_registry a), a_cache := gdel n (a_cache a),
             a_um := s, a_uGen := Unsubscribe n (a_uGen a)\<rparr>)"
  using assms by (simp add: unloadUnit_def dropTargetState_def)

definition ex_stuck_dbus :: "unit Systemd" where
  "ex_stuck_dbus = ex_dbus\<lparr>sd_StopUnit := (\<lambda>n d. (Some ''timeout'', d))\<rparr>"

theorem unload_only_after_stop_witness:
  "gmem ''old.service'' (sm_files (a_um (snd (unloadUnit (systemd_vtable ex_stuck_dbus) (fake_registry keep_order)
     ''old.service'' ex_agent))))"
proof -
  have "um_TriggerStop (systemd_vtable ex_stuck_dbus) ''old.service'' (a_um ex_agent) = (Some ''timeout'', a_um ex_agent)"
    by (simp add: systemd_vtable_def sm_TriggerStop_def ex_stuck_dbus_def)
  from unload_only_after_stop[OF this] show ?thesis
    by (simp add: ex_agent_def Agent_New_def ex_manager_def gmem_def)
qed

section \<open>A round reaches the desired state\<close>









section \<open>Heartbeats\<close>




text \<open>
  C27. The interval between two heartbeats is positive and shorter than the time to live it
  refreshes, for every time to live of at least two nanoseconds whose fourfold does not overflow.
\<close>

theorem heartbeat_before_expiry:
  assumes "2 \<le> sint ttl" "sint ttl < 2 ^ 61"
  shows "0 < sint (heartbeatInterval ttl) \<and> sint (heartbeatInterval ttl) < sint ttl"
proof -
  have small: "sint (word_of_int x :: 64 word) = x" if "0 \<le> x" "x < 2 ^ 63" for x
    using that by (simp add: signed_of_int signed_take_bit_int_eq_self)
  have "sint (ttl * 4) = signed_take_bit 63 (sint ttl * 4)" by (simp add: sint_word_ariths)
  also have "\<dots> = sint ttl * 4" using assms by (intro signed_take_bit_int_eq_self) auto
  finally have four: "sint (ttl * 4) = sint ttl * 4" .
  have pos: "sgn (sint ttl * 4) = 1" "sgn (sint ttl) = 1" using assms by simp_all
  have "(sint ttl * 4) div 5 < sint ttl" "0 < (sint ttl * 4) div 5" "sint ttl div 2 < sint ttl" "0 < sint ttl div 2"
    using assms by linarith+
  then show ?thesis
    using assms pos by (simp add: heartbeatInterval_def quo64_def four small)
qed

theorem heartbeat_before_expiry_witness:
  "0 < sint (heartbeatInterval 30000000000) \<and> sint (heartbeatInterval 30000000000) < sint (30000000000 :: Duration)"
  by (rule heartbeat_before_expiry) simp_all

end
