(* ===== verification/Go_File_Path.thy ===== *)
theory Go_File_Path
  imports Go_Strings
begin

text \<open>
  The functions of Go's \<open>path\<close> package on slash-separated paths that the registry builds its keys with:
  \<open>Clean\<close>, \<open>Join\<close>, \<open>Split\<close> and \<open>Base\<close>. A path is understood through its components, the non-empty
  pieces between slashes other than a dot.
\<close>

abbreviation slash :: char where "slash \<equiv> CHR ''/''"

text \<open>One component after another, the result kept in reverse.\<close>

definition clean_step :: "bool \<Rightarrow> string \<Rightarrow> string list \<Rightarrow> string list" where
  "clean_step rooted c out =
     (if c = [] \<or> c = ''.'' then out
      else if c = ''..'' then
        (case out of
           d # out' \<Rightarrow> if d = ''..'' then c # out else out'
         | [] \<Rightarrow> if rooted then [] else [c])
      else c # out)"

definition path_Clean :: "string \<Rightarrow> string" where
  "path_Clean p =
     (if p = [] then ''.''
      else
        let rooted = (hd p = slash);
            body = Join (rev (fold (clean_step rooted) (Split p slash) [])) ''/''
        in if rooted then slash # body else if body = [] then ''.'' else body)"

definition path_Join :: "string list \<Rightarrow> string" where
  "path_Join elem =
     (case dropWhile (\<lambda>e. e = []) elem of
        [] \<Rightarrow> []
      | e # es \<Rightarrow> path_Clean (Join (e # es) ''/''))"

definition path_Split :: "string \<Rightarrow> string \<times> string" where
  "path_Split p =
     (case LastIndexByte p slash of
        None \<Rightarrow> ([], p)
      | Some i \<Rightarrow> (take (Suc i) p, drop (Suc i) p))"

definition path_Base :: "string \<Rightarrow> string" where
  "path_Base p =
     (if p = [] then ''.''
      else
        let q = TrimRight p [slash];
            b = snd (path_Split q)
        in if b = [] then ''/'' else b)"

section \<open>Components\<close>

definition comps :: "string \<Rightarrow> string list" where
  "comps s = filter (\<lambda>c. c \<noteq> [] \<and> c \<noteq> ''.'') (Split s slash)"

definition plain :: "string \<Rightarrow> bool" where
  "plain c \<longleftrightarrow> c \<noteq> [] \<and> c \<noteq> ''.'' \<and> c \<noteq> ''..'' \<and> slash \<notin> set c"

definition rooted_path :: "string \<Rightarrow> bool" where
  "rooted_path p \<longleftrightarrow> p \<noteq> [] \<and> hd p = slash \<and> ''..'' \<notin> set (comps p)"

definition abs_path :: "string list \<Rightarrow> string" where
  "abs_path cs = concat (map (\<lambda>c. slash # c) cs)"

lemma Split_append_sep: "Split (s @ c # t) c = Split s c @ Split t c"
  by (induction s) (auto split: list.splits)

lemma comps_append: "comps (s @ slash # t) = comps s @ comps t"
  by (simp add: comps_def Split_append_sep)

lemma comps_slash: "comps (slash # t) = comps t"
  using comps_append[of "[]" t] by (simp add: comps_def)

lemma comps_Nil [simp]: "comps [] = []"
  by (simp add: comps_def)

lemma comps_plain [simp]: "plain c \<Longrightarrow> comps c = [c]"
  by (simp add: comps_def plain_def Split_no_sep)

lemma comps_plain_all: "c \<in> set (comps p) \<Longrightarrow> c \<noteq> ''..'' \<Longrightarrow> plain c"
  by (auto simp: comps_def plain_def dest: Split_pieces)

lemma comps_Join: "comps (Join xs ''/'') = concat (map comps xs)"
  by (induction xs "''/''" rule: Join.induct) (simp_all add: comps_append)

lemma comps_abs_path: "list_all plain cs \<Longrightarrow> comps (abs_path cs) = cs"
proof (induction cs)
  case (Cons c cs)
  show ?case
  proof (cases cs)
    case Nil
    then show ?thesis using Cons.prems by (simp add: abs_path_def comps_slash)
  next
    case (Cons d ds)
    then have "abs_path (c # cs) = slash # (c @ slash # tl (abs_path cs))" by (simp add: abs_path_def)
    moreover have "comps (tl (abs_path cs)) = comps (abs_path cs)"
      using Cons by (simp add: abs_path_def comps_slash)
    ultimately show ?thesis using Cons.IH Cons.prems by (simp add: comps_slash comps_append)
  qed
qed (simp add: abs_path_def)

lemma abs_path_inj: "list_all plain cs \<Longrightarrow> list_all plain ds \<Longrightarrow> abs_path cs = abs_path ds \<longleftrightarrow> cs = ds"
  using comps_abs_path by metis

lemma abs_path_append: "abs_path (cs @ ds) = abs_path cs @ abs_path ds"
  by (simp add: abs_path_def)

lemma clean_steps:
  "''..'' \<notin> set cs \<Longrightarrow>
     fold (clean_step r) cs out = rev (filter (\<lambda>c. c \<noteq> [] \<and> c \<noteq> ''.'') cs) @ out"
  by (induction cs arbitrary: out) (auto simp: clean_step_def)

lemma comps_dots: "''..'' \<in> set (Split p slash) \<longleftrightarrow> ''..'' \<in> set (comps p)"
  by (auto simp: comps_def)

lemma Join_eq_Nil: "\<forall>c\<in>set cs. c \<noteq> [] \<Longrightarrow> Join cs sep = [] \<longleftrightarrow> cs = []"
  by (cases cs rule: list.exhaust; cases "tl cs") auto

lemma path_Clean_comps:
  assumes "''..'' \<notin> set (comps p)"
  shows "path_Clean p =
    (if p \<noteq> [] \<and> hd p = slash then slash # Join (comps p) ''/''
     else if comps p = [] then ''.'' else Join (comps p) ''/'')"
proof -
  have "''..'' \<notin> set (Split p slash)" using assms comps_dots[of p] by blast
  from clean_steps[OF this] have c: "rev (fold (clean_step r) (Split p slash) []) = comps p" for r
    by (simp only: comps_def append_Nil2 rev_rev_ident)
  have "Join (comps p) ''/'' = [] \<longleftrightarrow> comps p = []"
    using Join_eq_Nil[of "comps p"] by (simp add: comps_def)
  then show ?thesis unfolding path_Clean_def Let_def c by (cases p) simp_all
qed

lemma abs_path_Join: "cs \<noteq> [] \<Longrightarrow> slash # Join cs ''/'' = abs_path cs"
  by (induction cs "''/''" rule: Join.induct) (auto simp: abs_path_def)

lemma comps_path_Clean: "''..'' \<notin> set (comps p) \<Longrightarrow> comps (path_Clean p) = comps p"
proof -
  assume nd: "''..'' \<notin> set (comps p)"
  have "comps (Join (comps p) ''/'') = concat (map comps (comps p))" by (simp add: comps_Join)
  also have "map comps (comps p) = map (\<lambda>c. [c]) (comps p)"
    using nd by (intro map_cong) (auto intro!: comps_plain comps_plain_all)
  finally have "comps (Join (comps p) ''/'') = comps p" by simp
  then show ?thesis using path_Clean_comps[OF nd] by (auto simp: comps_slash comps_def)
qed

lemma comps_dropWhile: "concat (map comps (dropWhile (\<lambda>e. e = []) xs)) = concat (map comps xs)"
  by (induction xs) auto

lemma comps_path_Join:
  assumes "''..'' \<notin> set (concat (map comps xs))"
  shows "comps (path_Join xs) = concat (map comps xs)"
proof (cases "dropWhile (\<lambda>e. e = []) xs")
  case Nil
  have "concat (map comps xs) = []" using comps_dropWhile[of xs] unfolding Nil by simp
  then show ?thesis unfolding path_Join_def Nil by simp
next
  case (Cons e es)
  have "comps (Join (e # es) ''/'') = concat (map comps xs)"
    using comps_dropWhile[of xs] Cons by (simp add: comps_Join)
  then show ?thesis using Cons comps_path_Clean[of "Join (e # es) ''/''"] assms by (simp add: path_Join_def)
qed

text \<open>Joining below a rooted path: the components one after the other.\<close>

lemma path_Join_rooted:
  assumes "rooted_path p" "''..'' \<notin> set (concat (map comps xs))" "comps p @ concat (map comps xs) \<noteq> []"
  shows "path_Join (p # xs) = abs_path (comps p @ concat (map comps xs))"
proof -
  let ?j = "Join (p # xs) ''/''"
  have c: "comps ?j = comps p @ concat (map comps xs)" using comps_Join[of "p # xs"] by simp
  have "?j \<noteq> []" "hd ?j = slash" using assms(1) by (cases xs; auto simp: rooted_path_def)+
  moreover have "''..'' \<notin> set (comps ?j)" using assms(1,2) c by (simp add: rooted_path_def)
  ultimately have "path_Clean ?j = slash # Join (comps ?j) ''/''" by (simp add: path_Clean_comps)
  moreover have "p \<noteq> []" using assms(1) by (simp add: rooted_path_def)
  ultimately show ?thesis using abs_path_Join[of "comps ?j"] c assms(3) by (simp add: path_Join_def)
qed

lemma rooted_abs_path: "list_all plain cs \<Longrightarrow> cs \<noteq> [] \<Longrightarrow> rooted_path (abs_path cs)"
proof -
  assume cs: "list_all plain cs" "cs \<noteq> []"
  then have "''..'' \<notin> set cs" by (auto simp: list_all_iff plain_def)
  moreover have "abs_path cs \<noteq> [] \<and> hd (abs_path cs) = slash" using cs(2) by (cases cs) (auto simp: abs_path_def)
  ultimately show ?thesis using comps_abs_path[OF cs(1)] by (simp add: rooted_path_def)
qed

lemma path_Split_abs: "plain c \<Longrightarrow> path_Split (abs_path (cs @ [c])) = (abs_path cs @ ''/'', c)"
  using LastIndexByte_append[of slash c "abs_path cs"]
  by (simp add: path_Split_def abs_path_append plain_def) (simp add: abs_path_def)

lemma TrimRight_plain: "plain c \<Longrightarrow> TrimRight (s @ slash # c) [slash] = s @ slash # c"
proof -
  assume c: "plain c"
  then obtain d e where "c = d @ [e]" "e \<noteq> slash" by (cases c rule: rev_cases) (auto simp: plain_def)
  then show ?thesis by (simp add: TrimRight_def)
qed

lemma path_Base_abs: "plain c \<Longrightarrow> path_Base (abs_path (cs @ [c])) = c"
  using path_Split_abs[of c cs] TrimRight_plain[of c "abs_path cs"]
  by (simp add: path_Base_def abs_path_append Let_def) (simp add: abs_path_def plain_def)

end
