(* ===== verification/Go_Strconv.thy ===== *)
theory Go_Strconv
  imports Go_Hash
begin

text \<open>
  The decimal conversions of Go's \<open>strconv\<close> the program uses: \<open>Itoa\<close> and \<open>Atoi\<close> on 64-bit integers,
  and the unsigned \<open>ParseUint\<close>, with their syntax and range errors.
\<close>

definition dec_digit :: "nat \<Rightarrow> char" where
  "dec_digit n = char_of (48 + n)"

definition is_digit :: "char \<Rightarrow> bool" where
  "is_digit c = (48 \<le> (of_char c :: nat) \<and> (of_char c :: nat) \<le> 57)"

definition digit_val :: "char \<Rightarrow> nat" where
  "digit_val c = of_char c - 48"

fun nat_dec :: "nat \<Rightarrow> string" where
  "nat_dec n = (if n < 10 then [dec_digit n] else nat_dec (n div 10) @ [dec_digit (n mod 10)])"

declare nat_dec.simps [simp del]

definition dec_nat :: "string \<Rightarrow> nat" where
  "dec_nat s = foldl (\<lambda>a c. a * 10 + digit_val c) 0 s"

definition Itoa :: "int \<Rightarrow> string" where
  "Itoa i = (if i < 0 then CHR ''-'' # nat_dec (nat (- i)) else nat_dec (nat i))"

text \<open>The digits of a number, or nothing when there are none or something else is among them.\<close>

definition ParseDigits :: "string \<Rightarrow> nat option" where
  "ParseDigits s = (if s \<noteq> [] \<and> list_all is_digit s then Some (dec_nat s) else None)"

definition ParseUint :: "nat \<Rightarrow> string \<Rightarrow> nat option" where
  \<comment> \<open>\<open>strconv.ParseUint(s, 10, bits)\<close>\<close>
  "ParseUint bits s =
     (case ParseDigits s of None \<Rightarrow> None | Some n \<Rightarrow> if n < 2 ^ bits then Some n else None)"

definition Atoi :: "string \<Rightarrow> int option" where
  "Atoi s =
     (case s of
        [] \<Rightarrow> None
      | c # r \<Rightarrow>
          (case ParseDigits (if c = CHR ''-'' \<or> c = CHR ''+'' then r else s) of
             None \<Rightarrow> None
           | Some n \<Rightarrow>
               if c = CHR ''-'' then (if n \<le> 2 ^ 63 then Some (- int n) else None)
               else (if n < 2 ^ 63 then Some (int n) else None)))"

text \<open>The same with the bounds as integers, for evaluation.\<close>

lemma ParseUint_code [code]:
  "ParseUint bits s = (case ParseDigits s of None \<Rightarrow> None | Some n \<Rightarrow> if int n < 2 ^ bits then Some n else None)"
  by (simp add: ParseUint_def split: option.split)

lemma Atoi_code [code]:
  "Atoi s =
     (case s of
        [] \<Rightarrow> None
      | c # r \<Rightarrow>
          (case ParseDigits (if c = CHR ''-'' \<or> c = CHR ''+'' then r else s) of
             None \<Rightarrow> None
           | Some n \<Rightarrow>
               if c = CHR ''-'' then (if int n \<le> 2 ^ 63 then Some (- int n) else None)
               else (if int n < 2 ^ 63 then Some (int n) else None)))"
  by (simp add: Atoi_def split: list.split option.split)

section \<open>Printing and parsing\<close>

lemma of_char_dec_digit: "n < 10 \<Longrightarrow> (of_char (dec_digit n) :: nat) = 48 + n"
  by (simp add: dec_digit_def)

lemma is_digit_dec_digit [simp]: "n < 10 \<Longrightarrow> is_digit (dec_digit n)"
  by (simp add: is_digit_def of_char_dec_digit)

lemma digit_val_dec_digit [simp]: "n < 10 \<Longrightarrow> digit_val (dec_digit n) = n"
  by (simp add: digit_val_def of_char_dec_digit)

lemma nat_dec_digits: "list_all is_digit (nat_dec n)"
  by (induction n rule: nat_dec.induct) (subst nat_dec.simps, auto)

lemma nat_dec_not_Nil [simp]: "nat_dec n \<noteq> []"
  by (subst nat_dec.simps) auto

lemma dec_nat_snoc: "dec_nat (s @ [c]) = dec_nat s * 10 + digit_val c"
  by (simp add: dec_nat_def)

lemma dec_nat_nat_dec [simp]: "dec_nat (nat_dec n) = n"
proof (induction n rule: nat_dec.induct)
  case (1 n)
  show ?case
  proof (cases "n < 10")
    case True
    then show ?thesis by (subst nat_dec.simps) (simp add: dec_nat_def)
  next
    case False
    then show ?thesis using 1[OF False] by (subst nat_dec.simps) (simp add: dec_nat_snoc)
  qed
qed

lemma ParseDigits_nat_dec [simp]: "ParseDigits (nat_dec n) = Some n"
  by (simp add: ParseDigits_def nat_dec_digits)

lemma nat_dec_hd: "nat_dec n = c # r \<Longrightarrow> is_digit c"
  using nat_dec_digits[of n] by simp

lemma digit_not_sign: "is_digit c \<Longrightarrow> c \<noteq> CHR ''-'' \<and> c \<noteq> CHR ''+''"
  by (auto simp: is_digit_def)

lemma ParseUint_nat_dec: "n < 2 ^ bits \<Longrightarrow> ParseUint bits (nat_dec n) = Some n"
  by (simp add: ParseUint_def)

lemma Atoi_Itoa:
  assumes "- (2 ^ 63) \<le> i" "i < 2 ^ 63"
  shows "Atoi (Itoa i) = Some i"
proof (cases "i < 0")
  case True
  then have "nat (- i) \<le> 2 ^ 63" using assms by (simp add: nat_le_iff)
  then show ?thesis using True by (simp add: Atoi_def Itoa_def)
next
  case False
  obtain c r where c: "nat_dec (nat i) = c # r" by (cases "nat_dec (nat i)") auto
  have "nat i < 2 ^ 63" using assms(2) False by (simp add: nat_less_iff)
  moreover have "ParseDigits (c # r) = Some (nat i)" using ParseDigits_nat_dec[of "nat i"] c by simp
  ultimately show ?thesis
    using False c digit_not_sign[OF nat_dec_hd[OF c]] by (simp add: Atoi_def Itoa_def)
qed

lemma Atoi_range: "Atoi s = Some i \<Longrightarrow> - (2 ^ 63) \<le> i \<and> i < 2 ^ 63"
  by (auto simp: Atoi_def split: list.splits option.splits if_splits)

lemma Itoa_not_Nil [simp]: "Itoa i \<noteq> []"
  by (simp add: Itoa_def)

end
