(* ===== verification/Etcd_Client.thy ===== *)
theory Etcd_Client
  imports Go_File_Path Go_Strconv Pkg_Util "HOL-Library.Sublist"
begin

text \<open>
  The interface of the etcd client (\<open>etcd.KeysAPI\<close>) the registry and the lease manager call, as a
  record of functions over the state of the service, and what the etcd documentation promises of it:
  a tree of directories and files, every write with a new index, conditional writes and deletes, and
  names that start with an underscore hidden from listings. The service itself is a parameter of
  everything that uses it; the tree operations below say which replies it may give.
\<close>

section \<open>The client interface\<close>

text \<open>
  Errors of the program: the client's \<open>etcd.Error\<close> with its code, the server's own error type (which
  the client does not return, but which the program tests for once), and all others.
\<close>

datatype go_error = EtcdError nat | ServerError nat | OtherError string

definition ErrorCodeKeyNotFound :: nat where "ErrorCodeKeyNotFound = 100"
definition ErrorCodeTestFailed :: nat where "ErrorCodeTestFailed = 101"
definition ErrorCodeNotFile :: nat where "ErrorCodeNotFile = 102"
definition ErrorCodeNotDir :: nat where "ErrorCodeNotDir = 104"
definition ErrorCodeNodeExist :: nat where "ErrorCodeNodeExist = 105"

lemmas error_codes [simp] = ErrorCodeKeyNotFound_def ErrorCodeTestFailed_def ErrorCodeNotFile_def
  ErrorCodeNotDir_def ErrorCodeNodeExist_def

definition isEtcdError :: "go_error \<Rightarrow> nat \<Rightarrow> bool" where
  "isEtcdError err code = (case err of EtcdError c \<Rightarrow> c = code | _ \<Rightarrow> False)"

definition err_text :: "go_error \<Rightarrow> string" where
  "err_text err = (case err of EtcdError c \<Rightarrow> nat_dec c | ServerError c \<Rightarrow> nat_dec c | OtherError m \<Rightarrow> m)"

type_synonym 'a reply = "go_error + 'a"

datatype PrevExistType = PrevIgnore | PrevExist | PrevNoExist

record GetOptions =
  go_Recursive :: bool
  go_Sort :: bool
  go_Quorum :: bool

record SetOptions =
  so_PrevValue :: string
  so_PrevIndex :: nat
  so_PrevExist :: PrevExistType
  so_TTL :: Duration

record DeleteOptions =
  do_PrevValue :: string
  do_PrevIndex :: nat
  do_Recursive :: bool

definition getOptions :: GetOptions where
  "getOptions = \<lparr>go_Recursive = False, go_Sort = False, go_Quorum = False\<rparr>"

definition setOptions :: SetOptions where
  "setOptions = \<lparr>so_PrevValue = [], so_PrevIndex = 0, so_PrevExist = PrevIgnore, so_TTL = 0\<rparr>"

definition deleteOptions :: DeleteOptions where
  "deleteOptions = \<lparr>do_PrevValue = [], do_PrevIndex = 0, do_Recursive = False\<rparr>"

datatype Node =
  Node (nd_Key: string) (nd_Value: string) (nd_Nodes: "Node list") (nd_ModifiedIndex: nat) (nd_TTL: int)

definition TTLDuration :: "Node \<Rightarrow> Duration" where
  "TTLDuration n = word_of_int (nd_TTL n) * 1000000000"

record 'e KeysAPI =
  k_Get :: "string \<Rightarrow> GetOptions \<Rightarrow> 'e \<Rightarrow> Node reply"
  k_Set :: "string \<Rightarrow> string \<Rightarrow> SetOptions \<Rightarrow> 'e \<Rightarrow> Node reply \<times> 'e"
  k_Delete :: "string \<Rightarrow> DeleteOptions \<Rightarrow> 'e \<Rightarrow> Node reply \<times> 'e"

section \<open>The tree\<close>

datatype etree = File string nat int | Dir nat "(string \<times> etree) list"

fun lookup :: "string list \<Rightarrow> etree \<Rightarrow> etree option" where
  "lookup [] t = Some t"
| "lookup (c # p) (File v i ttl) = None"
| "lookup (c # p) (Dir i ch) = (case map_of ch c of None \<Rightarrow> None | Some t \<Rightarrow> lookup p t)"

text \<open>Writing a file, creating the directories on the way; nothing when a file is in the way.\<close>

fun put :: "nat \<Rightarrow> string list \<Rightarrow> etree \<Rightarrow> etree \<Rightarrow> etree option" where
  "put n [] f t = Some f"
| "put n (c # p) f (File v i ttl) = None"
| "put n (c # p) f (Dir i ch) =
     map_option (\<lambda>t. Dir i (gput c t ch))
       (put n p f (case map_of ch c of None \<Rightarrow> Dir n [] | Some t \<Rightarrow> t))"

fun prune :: "string list \<Rightarrow> etree \<Rightarrow> etree" where
  "prune [] t = t"
| "prune (c # p) (File v i ttl) = File v i ttl"
| "prune [c] (Dir i ch) = Dir i (gdel c ch)"
| "prune (c # d # p) (Dir i ch) =
     (case map_of ch c of None \<Rightarrow> Dir i ch | Some t \<Rightarrow> Dir i (gput c (prune (d # p) t) ch))"

definition hidden :: "string \<Rightarrow> bool" where
  "hidden c = HasPrefix c ''_''"

text \<open>The reply for a tree: one level of a directory, or all of it when asked recursively.\<close>

fun shallow_node :: "string list \<Rightarrow> etree \<Rightarrow> Node" where
  "shallow_node p (File v i ttl) = Node (abs_path p) v [] i ttl"
| "shallow_node p (Dir i ch) = Node (abs_path p) [] [] i 0"

definition listing :: "bool \<Rightarrow> (string \<times> etree) list \<Rightarrow> (string \<times> etree) list" where
  "listing srt ch =
     (let vis = filter (\<lambda>(c, t). \<not> hidden c) ch in if srt then sort_key fst vis else vis)"

lemma set_listing: "set (listing srt ch) = {(c, t) \<in> set ch. \<not> hidden c}"
  by (auto simp: listing_def Let_def)

lemma size_listing: "(c, t) \<in> set (listing srt ch) \<Longrightarrow> size t < Suc (size_list (size_prod (\<lambda>x. 0) size) ch)"
  by (auto simp: set_listing less_Suc_eq_le intro: size_list_estimation')

function deep_node :: "bool \<Rightarrow> string list \<Rightarrow> etree \<Rightarrow> Node" where
  "deep_node srt p (File v i ttl) = Node (abs_path p) v [] i ttl"
| "deep_node srt p (Dir i ch) =
     Node (abs_path p) [] (map (\<lambda>(c, t). deep_node srt (p @ [c]) t) (listing srt ch)) i 0"
  by pat_completeness auto
termination
  by (relation "measure (\<lambda>(srt, p, t). size t)") (auto dest!: size_listing)

definition node_of :: "GetOptions \<Rightarrow> string list \<Rightarrow> etree \<Rightarrow> Node" where
  "node_of opts p t =
     (if go_Recursive opts then deep_node (go_Sort opts) p t
      else
        (case t of
           File v i ttl \<Rightarrow> shallow_node p t
         | Dir i ch \<Rightarrow>
             Node (abs_path p) [] (map (\<lambda>(c, t). shallow_node (p @ [c]) t) (listing (go_Sort opts) ch)) i 0))"

section \<open>Files of a tree\<close>

text \<open>The content of a tree: the value and the index of the file at each path.\<close>

definition file_at :: "etree \<Rightarrow> string list \<rightharpoonup> string \<times> nat" where
  "file_at t p = (case lookup p t of Some (File v i ttl) \<Rightarrow> Some (v, i) | _ \<Rightarrow> None)"

lemma file_at_simps [simp]:
  "file_at t [] = (case t of File v i ttl \<Rightarrow> Some (v, i) | Dir i ch \<Rightarrow> None)"
  "file_at (File v i ttl) (c # p) = None"
  "file_at (Dir i ch) (c # p) = (case map_of ch c of None \<Rightarrow> None | Some t \<Rightarrow> file_at t p)"
  by (auto simp: file_at_def split: option.splits etree.splits)

lemma file_at_empty [simp]: "file_at (Dir n []) p = None"
  by (cases p) auto

lemma put_lookup: "put n p f t = Some t' \<Longrightarrow> lookup p t' = Some f"
  by (induction n p f t arbitrary: t' rule: put.induct) auto

text \<open>Writing a file changes the content at its path only.\<close>

lemma file_at_put:
  assumes "put n p (File v i ttl) t = Some t'" "\<forall>j ch. lookup p t \<noteq> Some (Dir j ch)"
  shows "file_at t' = (file_at t)(p \<mapsto> (v, i))"
proof
  show "file_at t' q = ((file_at t)(p \<mapsto> (v, i))) q" for q
    using assms
  proof (induction n p "File v i ttl" t arbitrary: t' q rule: put.induct)
    case (1 n t)
    then show ?case by (cases q; cases t) auto
  next
    case (3 n c p j ch)
    let ?sub = "case map_of ch c of None \<Rightarrow> Dir n [] | Some t \<Rightarrow> t"
    obtain t1 where t1: "put n p (File v i ttl) ?sub = Some t1" "t' = Dir j (gput c t1 ch)" using 3(2) by auto
    have nd: "\<forall>j ch. lookup p ?sub \<noteq> Some (Dir j ch)" if "p \<noteq> [] \<or> map_of ch c \<noteq> None"
      using 3(3) that by (cases "map_of ch c"; cases p) auto
    show ?case
    proof (cases q)
      case Nil
      then show ?thesis using t1 by simp
    next
      case (Cons d q')
      show ?thesis
      proof (cases "d = c")
        case True
        have "file_at t1 q' = (if q' = p then Some (v, i) else file_at ?sub q')"
        proof (cases "p \<noteq> [] \<or> map_of ch c \<noteq> None")
          case yes: True
          from 3(1)[OF t1(1) nd[OF yes], of q'] show ?thesis by simp
        next
          case False
          then show ?thesis using t1(1) by (cases q') auto
        qed
        then show ?thesis using Cons True t1 by (auto split: option.splits)
      next
        case False
        then show ?thesis using Cons t1 by simp
      qed
    qed
  qed simp
qed

text \<open>Other branches of the tree are left alone.\<close>

lemma lookup_put_other:
  "\<lbrakk>put n p f t = Some t'; \<not> prefix p q; \<not> prefix q p\<rbrakk> \<Longrightarrow> lookup q t' = lookup q t"
proof (induction n p f t arbitrary: t' q rule: put.induct)
  case (3 n c p f i ch)
  then obtain d q' where q: "q = d # q'" by (cases q) auto
  let ?sub = "case map_of ch c of None \<Rightarrow> Dir n [] | Some t \<Rightarrow> t"
  obtain t1 where t1: "put n p f ?sub = Some t1" "t' = Dir i (gput c t1 ch)" using 3(2) by auto
  show ?case
  proof (cases "d = c")
    case True
    with 3 q have "\<not> prefix p q'" "\<not> prefix q' p" by auto
    from 3(1)[OF t1(1) this] have "lookup q' t1 = lookup q' ?sub" .
    moreover have "q' \<noteq> []" using \<open>\<not> prefix q' p\<close> by auto
    ultimately show ?thesis using q True t1 by (cases q') (auto split: option.splits)
  next
    case False
    then show ?thesis using q t1 by simp
  qed
qed auto

lemma lookup_prune_other:
  "\<lbrakk>\<not> prefix p q; \<not> prefix q p\<rbrakk> \<Longrightarrow> lookup q (prune p t) = lookup q t"
proof (induction p t arbitrary: q rule: prune.induct)
  case (3 c i ch)
  then show ?case by (cases q) auto
next
  case (4 c d p i ch)
  then obtain e q' where q: "q = e # q'" by (cases q) auto
  show ?case
  proof (cases "e = c")
    case True
    with 4 q have "\<not> prefix (d # p) q'" "\<not> prefix q' (d # p)" by auto
    with 4(1) show ?thesis using q True by (auto split: option.splits)
  next
    case False
    then show ?thesis using q by (auto split: option.splits)
  qed
qed auto

lemma lookup_prune_same: "p \<noteq> [] \<Longrightarrow> lookup p (prune p t) = None"
  by (induction p t rule: prune.induct) (auto split: option.splits)

text \<open>Removing a path removes the files at and below it.\<close>

lemma file_at_prune:
  assumes "lookup p t \<noteq> None" "p \<noteq> []"
  shows "file_at (prune p t) = (\<lambda>q. if prefix p q then None else file_at t q)"
proof
  show "file_at (prune p t) q = (if prefix p q then None else file_at t q)" for q
    using assms
  proof (induction p t arbitrary: q rule: prune.induct)
    case (3 c i ch)
    then show ?case by (cases q) auto
  next
    case (4 c d p i ch)
    obtain t where t: "map_of ch c = Some t" "lookup (d # p) t \<noteq> None" using 4(2) by (auto split: option.splits)
    show ?case using 4(1)[OF t(1) t(2)] t by (cases q) auto
  qed auto
qed

text \<open>The names in a directory are distinct and contain no slash.\<close>

fun tree_ok :: "etree \<Rightarrow> bool" where
  "tree_ok (File v i ttl) = True"
| "tree_ok (Dir i ch) = (gmap_ok ch \<and> list_all (\<lambda>(c, t). plain c \<and> tree_ok t) ch)"

lemma tree_ok_Dir: "tree_ok (Dir i ch) \<longleftrightarrow> gmap_ok ch \<and> (\<forall>c t. map_of ch c = Some t \<longrightarrow> plain c \<and> tree_ok t)"
  by (auto simp: list_all_iff gmap_ok_def dest: map_of_SomeD)

declare tree_ok.simps(2) [simp del]

lemma tree_ok_gput: "tree_ok (Dir i ch) \<Longrightarrow> plain c \<Longrightarrow> tree_ok t \<Longrightarrow> tree_ok (Dir i (gput c t ch))"
  unfolding tree_ok_Dir by auto

lemma put_tree_ok:
  "put n p (File v i ttl) t = Some t' \<Longrightarrow> tree_ok t \<Longrightarrow> list_all plain p \<Longrightarrow> tree_ok t'"
proof (induction n p "File v i ttl" t arbitrary: t' rule: put.induct)
  case (3 n c p j ch)
  let ?sub = "case map_of ch c of None \<Rightarrow> Dir n [] | Some t \<Rightarrow> t"
  obtain t1 where t1: "put n p (File v i ttl) ?sub = Some t1" "t' = Dir j (gput c t1 ch)" using 3(2) by auto
  have "tree_ok ?sub" using 3(3) unfolding tree_ok_Dir by (auto simp: tree_ok_Dir split: option.splits)
  with 3(1)[OF t1(1)] 3(4) have "tree_ok t1" by simp
  then show ?case using t1(2) 3(3,4) tree_ok_gput by simp
qed auto

lemma prune_tree_ok: "tree_ok t \<Longrightarrow> tree_ok (prune p t)"
proof (induction p t rule: prune.induct)
  case (3 c i ch)
  then show ?case unfolding prune.simps tree_ok_Dir by auto
next
  case (4 c d p i ch)
  show ?case
  proof (cases "map_of ch c")
    case None
    then show ?thesis using 4(2) by simp
  next
    case (Some t)
    then have "tree_ok (prune (d # p) t)" using 4(1)[OF Some] 4(2) unfolding tree_ok_Dir by blast
    moreover have "plain c" using Some 4(2) unfolding tree_ok_Dir by blast
    ultimately show ?thesis using Some 4(2) tree_ok_gput by simp
  qed
qed auto

lemma lookup_tree_ok: "tree_ok t \<Longrightarrow> lookup p t = Some t' \<Longrightarrow> tree_ok t'"
proof (induction p t rule: lookup.induct)
  case (3 c p i ch)
  then show ?case unfolding tree_ok_Dir by (auto split: option.splits)
qed auto

lemma lookup_append: "lookup (p @ q) t = (case lookup p t of None \<Rightarrow> None | Some t' \<Rightarrow> lookup q t')"
  by (induction p t rule: lookup.induct) (auto split: option.splits)

lemma file_at_append: "file_at t (p @ q) = (case lookup p t of None \<Rightarrow> None | Some t' \<Rightarrow> file_at t' q)"
  by (simp add: file_at_def lookup_append split: option.splits)

section \<open>The documented replies\<close>

record store =
  es_root :: etree
  es_index :: nat

definition spec_get :: "string \<Rightarrow> GetOptions \<Rightarrow> store \<Rightarrow> Node reply" where
  "spec_get key opts s =
     (case lookup (comps key) (es_root s) of
        None \<Rightarrow> Inl (EtcdError ErrorCodeKeyNotFound)
      | Some t \<Rightarrow> Inr (node_of opts (comps key) t))"

text \<open>The comparison of a conditional write or delete with the file that is there.\<close>

definition compare_prev :: "string \<Rightarrow> nat \<Rightarrow> etree option \<Rightarrow> go_error option" where
  "compare_prev pv pidx cur =
     (if pv = [] \<and> pidx = 0 then None
      else
        (case cur of
           None \<Rightarrow> Some (EtcdError ErrorCodeKeyNotFound)
         | Some (Dir i ch) \<Rightarrow> Some (EtcdError ErrorCodeNotFile)
         | Some (File v i ttl) \<Rightarrow>
             if (pv \<noteq> [] \<and> pv \<noteq> v) \<or> (pidx \<noteq> 0 \<and> pidx \<noteq> i) then Some (EtcdError ErrorCodeTestFailed) else None))"

definition ttl_seconds :: "Duration \<Rightarrow> int" where
  "ttl_seconds d = (if 0 < sint d then sint d div 1000000000 else 0)"

definition spec_set :: "string \<Rightarrow> string \<Rightarrow> SetOptions \<Rightarrow> store \<Rightarrow> Node reply \<times> store" where
  "spec_set key v opts s =
     (let p = comps key; cur = lookup p (es_root s); n = Suc (es_index s) in
      if so_PrevExist opts = PrevNoExist \<and> cur \<noteq> None then (Inl (EtcdError ErrorCodeNodeExist), s)
      else if so_PrevExist opts = PrevExist \<and> cur = None then (Inl (EtcdError ErrorCodeKeyNotFound), s)
      else
        (case compare_prev (so_PrevValue opts) (so_PrevIndex opts) cur of
           Some e \<Rightarrow> (Inl e, s)
         | None \<Rightarrow>
             (case cur of
                Some (Dir i ch) \<Rightarrow> (Inl (EtcdError ErrorCodeNotFile), s)
              | _ \<Rightarrow>
                  (let f = File v n (ttl_seconds (so_TTL opts)) in
                   case put n p f (es_root s) of
                     None \<Rightarrow> (Inl (EtcdError ErrorCodeNotDir), s)
                   | Some t \<Rightarrow> (Inr (shallow_node p f), \<lparr>es_root = t, es_index = n\<rparr>)))))"

definition spec_delete :: "string \<Rightarrow> DeleteOptions \<Rightarrow> store \<Rightarrow> Node reply \<times> store" where
  "spec_delete key opts s =
     (let p = comps key; cur = lookup p (es_root s); n = Suc (es_index s) in
      case cur of
        None \<Rightarrow> (Inl (EtcdError ErrorCodeKeyNotFound), s)
      | Some t \<Rightarrow>
          (case compare_prev (do_PrevValue opts) (do_PrevIndex opts) cur of
             Some e \<Rightarrow> (Inl e, s)
           | None \<Rightarrow>
               (case t of
                  Dir i ch \<Rightarrow>
                    if do_Recursive opts then (Inr (shallow_node p (Dir n [])), \<lparr>es_root = prune p (es_root s), es_index = n\<rparr>)
                    else (Inl (EtcdError ErrorCodeNotFile), s)
                | File v i ttl \<Rightarrow> (Inr (shallow_node p (File [] n 0)), \<lparr>es_root = prune p (es_root s), es_index = n\<rparr>))))"

subsection \<open>What they do to the files\<close>

definition files :: "store \<Rightarrow> string list \<rightharpoonup> string \<times> nat" where
  "files s = file_at (es_root s)"

text \<open>Every index that occurs has been given out.\<close>

definition store_ok :: "store \<Rightarrow> bool" where
  "store_ok s \<longleftrightarrow> tree_ok (es_root s) \<and> (\<forall>p v i. files s p = Some (v, i) \<longrightarrow> 0 < i \<and> i \<le> es_index s)"

lemma files_lookup: "files s p = Some (v, i) \<longleftrightarrow> (\<exists>ttl. lookup p (es_root s) = Some (File v i ttl))"
  by (auto simp: files_def file_at_def split: option.splits etree.splits)

lemma compare_prev_None:
  "compare_prev pv pidx cur = None \<longleftrightarrow>
     (pv = [] \<and> pidx = 0) \<or> (\<exists>v i ttl. cur = Some (File v i ttl) \<and> (pv = [] \<or> pv = v) \<and> (pidx = 0 \<or> pidx = i))"
  by (auto simp: compare_prev_def split: option.splits etree.splits)

lemma spec_set_cases:
  assumes "spec_set k v so s = (r, s')"
  obtains (error) c where "r = Inl (EtcdError c)" "s' = s"
    | (written) "r = Inr (Node (abs_path (comps k)) v [] (Suc (es_index s)) (ttl_seconds (so_TTL so)))"
        "es_index s' = Suc (es_index s)"
        "put (Suc (es_index s)) (comps k) (File v (Suc (es_index s)) (ttl_seconds (so_TTL so))) (es_root s) = Some (es_root s')"
        "\<forall>j ch. lookup (comps k) (es_root s) \<noteq> Some (Dir j ch)"
        "compare_prev (so_PrevValue so) (so_PrevIndex so) (lookup (comps k) (es_root s)) = None"
        "so_PrevExist so = PrevNoExist \<longrightarrow> lookup (comps k) (es_root s) = None"
        "so_PrevExist so = PrevExist \<longrightarrow> lookup (comps k) (es_root s) \<noteq> None"
proof (cases r)
  case (Inl e)
  then show thesis
    using assms error[of _ ]
    by (auto simp: spec_set_def compare_prev_def Let_def split: if_splits option.splits etree.splits)
next
  case (Inr n)
  then show thesis
    using assms
    by (intro written) (auto simp: spec_set_def Let_def split: if_splits option.splits etree.splits)
qed

lemma spec_set_done:
  assumes "spec_set k v so s = (Inr n, s')"
  shows "files s' = (files s)(comps k \<mapsto> (v, es_index s'))" "es_index s' = Suc (es_index s)"
    "nd_Key n = abs_path (comps k)" "nd_Value n = v" "nd_ModifiedIndex n = es_index s'"
    "nd_TTL n = ttl_seconds (so_TTL so)"
    "so_PrevExist so = PrevNoExist \<longrightarrow> lookup (comps k) (es_root s) = None"
    "so_PrevValue so \<noteq> [] \<longrightarrow> (\<exists>i. files s (comps k) = Some (so_PrevValue so, i))"
    "so_PrevIndex so \<noteq> 0 \<longrightarrow> (\<exists>v. files s (comps k) = Some (v, so_PrevIndex so))"
proof -
  from assms show "files s' = (files s)(comps k \<mapsto> (v, es_index s'))"
    by (cases rule: spec_set_cases) (simp_all add: files_def file_at_put)
  from assms show "es_index s' = Suc (es_index s)" "nd_Key n = abs_path (comps k)" "nd_Value n = v"
    "nd_ModifiedIndex n = es_index s'" "nd_TTL n = ttl_seconds (so_TTL so)"
    "so_PrevExist so = PrevNoExist \<longrightarrow> lookup (comps k) (es_root s) = None"
    by (cases rule: spec_set_cases; simp)+
  from assms show "so_PrevValue so \<noteq> [] \<longrightarrow> (\<exists>i. files s (comps k) = Some (so_PrevValue so, i))"
    "so_PrevIndex so \<noteq> 0 \<longrightarrow> (\<exists>v. files s (comps k) = Some (v, so_PrevIndex so))"
    by (cases rule: spec_set_cases; auto simp: compare_prev_None files_lookup)+
qed

lemma spec_set_error: "spec_set k v so s = (Inl e, s') \<Longrightarrow> s' = s"
  by (erule spec_set_cases) auto

lemma spec_set_store_ok:
  assumes "spec_set k v so s = (r, s')" "store_ok s" "''..'' \<notin> set (comps k)"
  shows "store_ok s'"
  using assms(1)
proof (cases rule: spec_set_cases)
  case written
  have pl: "list_all plain (comps k)" using assms(3) by (auto simp: list_all_iff intro: comps_plain_all)
  have "files s' = (files s)(comps k \<mapsto> (v, Suc (es_index s)))"
    using written by (simp add: files_def file_at_put)
  with written show ?thesis
    using assms(2) put_tree_ok[OF written(3) _ pl] by (force simp: store_ok_def split: if_splits)
qed (use assms in simp)

lemma spec_delete_cases:
  assumes "spec_delete k dopt s = (r, s')"
  obtains (error) c where "r = Inl (EtcdError c)" "s' = s"
      "c = ErrorCodeKeyNotFound \<Longrightarrow> lookup (comps k) (es_root s) = None"
    | (gone) n where "r = Inr n" "es_index s' = Suc (es_index s)" "es_root s' = prune (comps k) (es_root s)"
        "lookup (comps k) (es_root s) \<noteq> None"
        "compare_prev (do_PrevValue dopt) (do_PrevIndex dopt) (lookup (comps k) (es_root s)) = None"
proof (cases r)
  case (Inl e)
  show thesis
  proof (cases e)
    case (EtcdError c)
    show thesis
      by (rule error[of c])
        (use assms Inl EtcdError in \<open>auto simp: spec_delete_def compare_prev_def Let_def split: if_splits option.splits etree.splits\<close>)
  qed (use assms Inl in \<open>auto simp: spec_delete_def compare_prev_def Let_def split: if_splits option.splits etree.splits\<close>)
next
  case (Inr n)
  show thesis
    by (rule gone[of n]) (use assms Inr in \<open>auto simp: spec_delete_def Let_def split: if_splits option.splits etree.splits\<close>)
qed

lemma spec_delete_done:
  assumes "spec_delete k dopt s = (Inr n, s')" "comps k \<noteq> []"
  shows "files s' = (\<lambda>q. if prefix (comps k) q then None else files s q)"
    "do_PrevValue dopt \<noteq> [] \<longrightarrow> (\<exists>i. files s (comps k) = Some (do_PrevValue dopt, i))"
    "do_PrevIndex dopt \<noteq> 0 \<longrightarrow> (\<exists>v. files s (comps k) = Some (v, do_PrevIndex dopt))"
proof -
  from assms(1) show "files s' = (\<lambda>q. if prefix (comps k) q then None else files s q)"
    unfolding files_def by (cases rule: spec_delete_cases) (simp_all add: file_at_prune assms(2))
  from assms(1) show "do_PrevValue dopt \<noteq> [] \<longrightarrow> (\<exists>i. files s (comps k) = Some (do_PrevValue dopt, i))"
    "do_PrevIndex dopt \<noteq> 0 \<longrightarrow> (\<exists>v. files s (comps k) = Some (v, do_PrevIndex dopt))"
    by (cases rule: spec_delete_cases; auto simp: compare_prev_None files_lookup)+
qed

lemma spec_delete_error: "spec_delete k dopt s = (Inl e, s') \<Longrightarrow> s' = s"
  by (erule spec_delete_cases) auto

lemma spec_delete_store_ok:
  assumes "spec_delete k dopt s = (r, s')" "store_ok s" "comps k \<noteq> []"
  shows "store_ok s'"
  using assms(1)
proof (cases rule: spec_delete_cases)
  case (gone n)
  then have "files s' = (\<lambda>q. if prefix (comps k) q then None else files s q)"
    using assms(3) unfolding files_def by (simp add: file_at_prune)
  then show ?thesis using gone assms(2) by (auto simp: store_ok_def prune_tree_ok le_SucI split: if_splits)
qed (use assms in simp)

lemma spec_get_file:
  assumes "files s (comps k) = Some (v, i)"
  shows "\<exists>ttl. spec_get k go s = Inr (Node (abs_path (comps k)) v [] i ttl)"
  using assms by (auto simp: spec_get_def node_of_def files_lookup)

lemma spec_get_missing: "spec_get k go s = Inl e \<Longrightarrow> e = EtcdError ErrorCodeKeyNotFound \<and> files s (comps k) = None"
  by (auto simp: spec_get_def files_def file_at_def split: option.splits)

text \<open>
  The contract of a client: a reply other than a failure of the connection is the documented one, and
  the store is as documented after it; when the connection fails the request may or may not have
  taken effect.
\<close>

locale etcd =
  fixes api :: "'e KeysAPI" and store :: "'e \<Rightarrow> store"
  assumes Get: "k_Get api k go e = r \<Longrightarrow> r = spec_get k go (store e) \<or> (\<exists>m. r = Inl (OtherError m))"
    and Set: "k_Set api k v so e = (r, e') \<Longrightarrow>
      (r, store e') = spec_set k v so (store e) \<or>
      (\<exists>m. r = Inl (OtherError m)) \<and> store e' \<in> {store e, snd (spec_set k v so (store e))}"
    and Delete: "k_Delete api k dopt e = (r, e') \<Longrightarrow>
      (r, store e') = spec_delete k dopt (store e) \<or>
      (\<exists>m. r = Inl (OtherError m)) \<and> store e' \<in> {store e, snd (spec_delete k dopt (store e))}"

text \<open>Two stores that differ at and below one path only.\<close>

definition only_at :: "string list \<Rightarrow> store \<Rightarrow> store \<Rightarrow> bool" where
  "only_at p s s' \<longleftrightarrow> (\<forall>q. \<not> prefix p q \<longrightarrow> files s' q = files s q)"

lemma only_atD: "only_at p s s' \<Longrightarrow> \<not> prefix p q \<Longrightarrow> files s' q = files s q"
  by (simp add: only_at_def)

lemma only_at_refl [simp]: "only_at p s s"
  by (simp add: only_at_def)

lemma only_at_set: "spec_set k v so s = (r, s') \<Longrightarrow> only_at (comps k) s s'"
  by (cases r) (auto simp: only_at_def spec_set_done(1) dest: spec_set_error)

lemma only_at_delete: "spec_delete k dopt s = (r, s') \<Longrightarrow> comps k \<noteq> [] \<Longrightarrow> only_at (comps k) s s'"
  by (cases r) (auto simp: only_at_def spec_delete_done(1) dest: spec_delete_error)

text \<open>
  What a call can come to: refused as documented, lost without effect, or done, in which case the
  caller may not have been told.
\<close>

context etcd
begin

lemma set_outcomes:
  assumes "k_Set api k v so e = (r, e')"
  obtains (refused) c where "r = Inl (EtcdError c)" "store e' = store e" "spec_set k v so (store e) = (r, store e)"
    | (lost) m where "r = Inl (OtherError m)" "store e' = store e"
    | (written) nd where "spec_set k v so (store e) = (Inr nd, store e')" "r = Inr nd \<or> (\<exists>m. r = Inl (OtherError m))"
proof -
  obtain r0 s0 where sp: "spec_set k v so (store e) = (r0, s0)" by fastforce
  from sp show thesis
  proof (cases rule: spec_set_cases)
    case (error c)
    then show thesis using Set[OF assms] sp refused lost by auto
  next
    case written
    then show thesis using Set[OF assms] sp that(2,3) by auto
  qed
qed

lemma delete_outcomes:
  assumes "k_Delete api k dopt e = (r, e')"
  obtains (refused) c where "r = Inl (EtcdError c)" "store e' = store e" "spec_delete k dopt (store e) = (r, store e)"
    | (lost) m where "r = Inl (OtherError m)" "store e' = store e"
    | (deleted) nd where "spec_delete k dopt (store e) = (Inr nd, store e')" "r = Inr nd \<or> (\<exists>m. r = Inl (OtherError m))"
proof -
  obtain r0 s0 where sp: "spec_delete k dopt (store e) = (r0, s0)" by fastforce
  from sp show thesis
  proof (cases rule: spec_delete_cases)
    case (error c)
    then show thesis using Delete[OF assms] sp refused lost by auto
  next
    case gone
    then show thesis using Delete[OF assms] sp that(2,3) by auto
  qed
qed

lemma Set_only_at: "k_Set api k v so e = (r, e') \<Longrightarrow> only_at (comps k) (store e) (store e')"
  by (erule set_outcomes) (auto dest: only_at_set)

lemma Delete_only_at: "k_Delete api k dopt e = (r, e') \<Longrightarrow> comps k \<noteq> [] \<Longrightarrow> only_at (comps k) (store e) (store e')"
  by (erule delete_outcomes) (auto dest: only_at_delete)

lemma Get_reply: "k_Get api k go e = r \<Longrightarrow> \<forall>m. r \<noteq> Inl (OtherError m) \<Longrightarrow> r = spec_get k go (store e)"
  using Get[of k go e r] by auto

end

text \<open>A client whose connection never fails, on the tree itself.\<close>

definition local_etcd :: "store KeysAPI" where
  "local_etcd = \<lparr>k_Get = spec_get, k_Set = spec_set, k_Delete = spec_delete\<rparr>"

interpretation local: etcd local_etcd "\<lambda>s. s"
  by unfold_locales (auto simp: local_etcd_def)

end
