(* ===== verification/Go_Json.thy ===== *)
theory Go_Json
  imports Go_Strconv Go_Strings
begin

text \<open>
  The part of Go's \<open>encoding/json\<close> the program relies on: the text \<open>json.Marshal\<close> prints, with its
  escaping of strings, and the syntax \<open>json.Unmarshal\<close> accepts, as a recursive descent over the text
  whose fuel is the length of the text. Decoding into a structure picks the fields of an object.
  A value that holds only ASCII strings and integers is read back from its text.
\<close>

datatype json = JNull | JBool bool | JNum string | JStr string | JArr "json list" | JObj "(string \<times> json) list"

section \<open>Strings\<close>

abbreviation quote :: char where "quote \<equiv> CHR 0x22"
abbreviation bslash :: char where "bslash \<equiv> CHR 0x5C"

definition byte_in :: "nat \<Rightarrow> nat \<Rightarrow> char \<Rightarrow> bool" where
  "byte_in lo hi c = (lo \<le> of_char c \<and> of_char c \<le> hi)"

text \<open>The number of bytes of the multi-byte rune a string starts with, if it starts with a valid one.\<close>

definition utf8_size :: "string \<Rightarrow> nat option" where
  "utf8_size s =
     (case s of
        a # b # r \<Rightarrow>
          if byte_in 0xC2 0xDF a \<and> byte_in 0x80 0xBF b then Some 2
          else
            (case r of
               c # r' \<Rightarrow>
                 if byte_in 0x80 0xBF c \<and>
                    (byte_in 0xE0 0xE0 a \<and> byte_in 0xA0 0xBF b \<or> byte_in 0xE1 0xEC a \<and> byte_in 0x80 0xBF b \<or>
                     byte_in 0xED 0xED a \<and> byte_in 0x80 0x9F b \<or> byte_in 0xEE 0xEF a \<and> byte_in 0x80 0xBF b)
                 then Some 3
                 else
                   (case r' of
                      d # _ \<Rightarrow>
                        if byte_in 0x80 0xBF c \<and> byte_in 0x80 0xBF d \<and>
                           (byte_in 0xF0 0xF0 a \<and> byte_in 0x90 0xBF b \<or> byte_in 0xF1 0xF3 a \<and> byte_in 0x80 0xBF b \<or>
                            byte_in 0xF4 0xF4 a \<and> byte_in 0x80 0x8F b)
                        then Some 4 else None
                    | [] \<Rightarrow> None)
             | [] \<Rightarrow> None)
      | _ \<Rightarrow> None)"

lemma utf8_size_pos: "utf8_size s = Some n \<Longrightarrow> 2 \<le> n"
  by (auto simp: utf8_size_def split: list.splits if_splits)

text \<open>The two line separators of Unicode are escaped although they are valid.\<close>

definition line_separator :: "string \<Rightarrow> string option" where
  "line_separator s =
     (if take 3 s = [CHR 0xE2, CHR 0x80, CHR 0xA8] then Some (bslash # ''u2028'')
      else if take 3 s = [CHR 0xE2, CHR 0x80, CHR 0xA9] then Some (bslash # ''u2029'')
      else None)"

definition enc_ascii :: "char \<Rightarrow> string" where
  "enc_ascii c =
     (if c = quote \<or> c = bslash then [bslash, c]
      else if c = CHR 0x0A then [bslash, CHR ''n'']
      else if c = CHR 0x0D then [bslash, CHR ''r'']
      else if c = CHR 0x09 then [bslash, CHR ''t'']
      else if (of_char c :: nat) < 32 \<or> c = CHR ''<'' \<or> c = CHR ''>'' \<or> c = CHR ''&''
      then bslash # ''u00'' @ hex_byte (of_char c)
      else [c])"

function enc_str :: "string \<Rightarrow> string" where
  "enc_str [] = []"
| "enc_str (c # r) =
     (if (of_char c :: nat) < 128 then enc_ascii c @ enc_str r
      else
        (case utf8_size (c # r) of
           None \<Rightarrow> bslash # ''ufffd'' @ enc_str r
         | Some n \<Rightarrow>
             (case line_separator (c # r) of None \<Rightarrow> take n (c # r) | Some t \<Rightarrow> t) @ enc_str (drop n (c # r))))"
  by pat_completeness auto
termination
  by (relation "measure length") (auto dest: utf8_size_pos)

definition hex4 :: "string \<Rightarrow> (nat \<times> string) option" where
  "hex4 s =
     (case s of
        a # b # c # d # r \<Rightarrow>
          (case (fromHexChar a, fromHexChar b, fromHexChar c, fromHexChar d) of
             (Some w, Some x, Some y, Some z) \<Rightarrow> Some (((w * 16 + x) * 16 + y) * 16 + z, r)
           | _ \<Rightarrow> None)
      | _ \<Rightarrow> None)"

lemma hex4_length: "hex4 s = Some (v, r) \<Longrightarrow> length r < length s"
  by (auto simp: hex4_def split: list.splits option.splits)

definition utf8_encode :: "nat \<Rightarrow> string" where
  "utf8_encode v =
     map char_of
       (if v < 0x80 then [v]
        else if v < 0x800 then [0xC0 + v div 64, 0x80 + v mod 64]
        else if v < 0x10000 then [0xE0 + v div 4096, 0x80 + v div 64 mod 64, 0x80 + v mod 64]
        else [0xF0 + v div 262144, 0x80 + v div 4096 mod 64, 0x80 + v div 64 mod 64, 0x80 + v mod 64])"

text \<open>A \<open>\u\<close> escape that is half of a surrogate pair takes the other half, or stands for U+FFFD.\<close>

definition surrogate :: "nat \<Rightarrow> string \<Rightarrow> nat \<times> string" where
  "surrogate v r =
     (if v < 0xD800 \<or> 0xE000 \<le> v then (v, r)
      else
        (case (if v < 0xDC00 \<and> take 2 r = [bslash, CHR ''u''] then hex4 (drop 2 r) else None) of
           Some (w, r') \<Rightarrow>
             if 0xDC00 \<le> w \<and> w < 0xE000 then (0x10000 + (v - 0xD800) * 0x400 + (w - 0xDC00), r') else (0xFFFD, r)
         | None \<Rightarrow> (0xFFFD, r)))"

lemma surrogate_length: "surrogate v r = (x, r') \<Longrightarrow> length r' \<le> length r"
  by (auto simp: surrogate_def split: if_splits option.splits dest!: hex4_length)

definition unescape :: "char \<Rightarrow> char option" where
  "unescape e =
     (if e = quote \<or> e = bslash \<or> e = CHR ''/'' then Some e
      else if e = CHR ''b'' then Some (CHR 0x08)
      else if e = CHR ''f'' then Some (CHR 0x0C)
      else if e = CHR ''n'' then Some (CHR 0x0A)
      else if e = CHR ''r'' then Some (CHR 0x0D)
      else if e = CHR ''t'' then Some (CHR 0x09)
      else None)"

definition prepend :: "string \<Rightarrow> (string \<times> string) option \<Rightarrow> (string \<times> string) option" where
  "prepend s x = map_option (\<lambda>(t, rest). (s @ t, rest)) x"

text \<open>The body of a string literal up to its closing quote, and what follows it.\<close>

function dec_str :: "string \<Rightarrow> (string \<times> string) option" where
  "dec_str [] = None"
| "dec_str (c # r) =
     (if c = quote then Some ([], r)
      else if c = bslash then
        (case r of
           [] \<Rightarrow> None
         | e # r1 \<Rightarrow>
             if e = CHR ''u'' then
               (case hex4 r1 of
                  None \<Rightarrow> None
                | Some (v, r2) \<Rightarrow> prepend (utf8_encode (fst (surrogate v r2))) (dec_str (snd (surrogate v r2))))
             else
               (case unescape e of None \<Rightarrow> None | Some d \<Rightarrow> prepend [d] (dec_str r1)))
      else if (of_char c :: nat) < 32 then None
      else if (of_char c :: nat) < 128 then prepend [c] (dec_str r)
      else
        (case utf8_size (c # r) of
           None \<Rightarrow> prepend [CHR 0xEF, CHR 0xBF, CHR 0xBD] (dec_str r)
         | Some n \<Rightarrow> prepend (take n (c # r)) (dec_str (drop n (c # r)))))"
  by pat_completeness auto
termination
proof (relation "measure length", goal_cases)
  case (2 c r e r1 x v r2)
  then show ?case using hex4_length[of r1 v r2] surrogate_length[of v r2] by (cases "surrogate v r2") fastforce
qed (auto dest: utf8_size_pos)

definition ascii :: "string \<Rightarrow> bool" where
  "ascii s = list_all (\<lambda>c. (of_char c :: nat) < 128) s"

lemma ascii_simps [simp]:
  "ascii []" "ascii (c # s) \<longleftrightarrow> (of_char c :: nat) < 128 \<and> ascii s" "ascii (s @ t) \<longleftrightarrow> ascii s \<and> ascii t"
  by (simp_all add: ascii_def)


lemma dec_str_quote: "dec_str (quote # r) = Some ([], r)"
  by simp

lemma dec_str_escape:
  "unescape e = Some d \<Longrightarrow> e \<noteq> CHR ''u'' \<Longrightarrow> dec_str (bslash # e # r) = prepend [d] (dec_str r)"
  by simp

lemma dec_str_unicode:
  "hex4 r = Some (v, r2) \<Longrightarrow> surrogate v r2 = (x, r3) \<Longrightarrow>
     dec_str (bslash # CHR ''u'' # r) = prepend (utf8_encode x) (dec_str r3)"
  by simp

lemma dec_str_plain:
  "\<lbrakk>c \<noteq> quote; c \<noteq> bslash; 32 \<le> (of_char c :: nat); (of_char c :: nat) < 128\<rbrakk> \<Longrightarrow>
     dec_str (c # r) = prepend [c] (dec_str r)"
  by simp

declare dec_str.simps(2) [simp del] enc_str.simps(2) [simp del]

text \<open>What is printed for one ASCII character is read back as that character.\<close>

lemma dec_ascii:
  assumes "(of_char c :: nat) < 128"
  shows "dec_str (enc_ascii c @ s) = prepend [c] (dec_str s)"
proof (cases "c \<in> {quote, bslash, CHR 0x0A, CHR 0x0D, CHR 0x09}")
  case True
  then have "\<exists>e. enc_ascii c = [bslash, e] \<and> e \<noteq> CHR ''u'' \<and> unescape e = Some c"
    by (elim insertE emptyE) (simp_all add: enc_ascii_def unescape_def)
  then show ?thesis using dec_str_escape by auto
next
  case special: False
  show ?thesis
  proof (cases "(of_char c :: nat) < 32 \<or> c = CHR ''<'' \<or> c = CHR ''>'' \<or> c = CHR ''&''")
    case True
    let ?n = "of_char c :: nat"
    have n: "unat (of_char c :: byte) = ?n"
    proof -
      have "unat (of_nat ?n :: byte) = ?n" using assms by (simp add: unat_of_nat)
      then show ?thesis by (simp only: of_nat_of_char)
    qed
    have h: "hex4 (CHR ''0'' # CHR ''0'' # hex_byte (of_char c) @ s) = Some (?n, s)"
    proof -
      have "?n div 16 mod 16 = ?n div 16" using assms by simp
      then have "?n div 16 mod 16 * 16 + ?n mod 16 = ?n" by simp
      moreover have "fromHexChar CHR ''0'' = Some 0" by code_simp
      ultimately show ?thesis
        by (simp add: hex4_def hex_byte_def fromHexChar_hex_digit n)
    qed
    have "surrogate ?n s = (?n, s)" "utf8_encode ?n = [c]"
      using assms by (simp_all add: surrogate_def utf8_encode_def)
    moreover have "enc_ascii c = bslash # CHR ''u'' # CHR ''0'' # CHR ''0'' # hex_byte (of_char c)"
      using True special by (simp add: enc_ascii_def)
    ultimately show ?thesis using dec_str_unicode[OF h] by simp
  next
    case False
    then show ?thesis using special assms dec_str_plain[of c s] by (simp add: enc_ascii_def)
  qed
qed


lemma dec_enc_str:
  assumes "ascii s"
  shows "dec_str (enc_str s @ quote # rest) = Some (s, rest)"
  using assms
  by (induction s) (simp_all add: dec_str_quote enc_str.simps(2) dec_ascii prepend_def)

section \<open>Numbers\<close>

definition is_int_literal :: "string \<Rightarrow> bool" where
  "is_int_literal s = (case Atoi s of None \<Rightarrow> False | Some i \<Rightarrow> s = Itoa i)"

definition scan_digits :: "string \<Rightarrow> (string \<times> string) option" where
  "scan_digits s = (let d = takeWhile is_digit s in if d = [] then None else Some (d, dropWhile is_digit s))"

definition scan_frac :: "string \<Rightarrow> (string \<times> string) option" where
  "scan_frac s =
     (case s of
        c # r \<Rightarrow> if c = CHR ''.'' then map_option (\<lambda>(d, r'). (c # d, r')) (scan_digits r) else Some ([], s)
      | [] \<Rightarrow> Some ([], s))"

definition scan_exp :: "string \<Rightarrow> (string \<times> string) option" where
  "scan_exp s =
     (case s of
        c # r \<Rightarrow>
          if c = CHR ''e'' \<or> c = CHR ''E'' then
            (case r of
               sg # r' \<Rightarrow>
                 if sg = CHR ''+'' \<or> sg = CHR ''-'' then map_option (\<lambda>(d, t). (c # sg # d, t)) (scan_digits r')
                 else map_option (\<lambda>(d, t). (c # d, t)) (scan_digits r)
             | [] \<Rightarrow> None)
          else Some ([], s)
      | [] \<Rightarrow> Some ([], s))"

definition scan_nat :: "string \<Rightarrow> (string \<times> string) option" where
  "scan_nat s =
     (case s of
        c # r \<Rightarrow> if c = CHR ''0'' then Some ([c], r) else scan_digits s
      | [] \<Rightarrow> None)"

definition scan_number :: "string \<Rightarrow> (string \<times> string) option" where
  "scan_number s =
     (let neg = (case s of c # r \<Rightarrow> c = CHR ''-'' | [] \<Rightarrow> False) in
      case scan_nat (if neg then tl s else s) of
        None \<Rightarrow> None
      | Some (i, r1) \<Rightarrow>
          (case scan_frac r1 of
             None \<Rightarrow> None
           | Some (f, r2) \<Rightarrow>
               (case scan_exp r2 of
                  None \<Rightarrow> None
                | Some (e, r3) \<Rightarrow> Some ((if neg then [CHR ''-''] else []) @ i @ f @ e, r3))))"

text \<open>What may follow a value inside a larger one.\<close>

definition value_end :: "string \<Rightarrow> bool" where
  "value_end s = (case s of [] \<Rightarrow> True | c # r \<Rightarrow> c \<in> {CHR '','', CHR ''}'', CHR '']''})"

lemma value_end_simps [simp]:
  "value_end []" "value_end (CHR '','' # r)" "value_end (CHR ''}'' # r)" "value_end (CHR '']'' # r)"
  by (simp_all add: value_end_def)

lemma takeWhile_digits:
  assumes "list_all is_digit d" "value_end r"
  shows "takeWhile is_digit (d @ r) = d" "dropWhile is_digit (d @ r) = r"
proof -
  have "case r of [] \<Rightarrow> True | c # _ \<Rightarrow> \<not> is_digit c"
    using assms(2) by (auto simp: value_end_def is_digit_def split: list.splits)
  then have "takeWhile is_digit r = []" "dropWhile is_digit r = r" by (cases r; simp)+
  with assms(1) show "takeWhile is_digit (d @ r) = d" "dropWhile is_digit (d @ r) = r"
    by (simp_all add: list_all_iff)
qed

lemma nat_dec_hd_zero: "nat_dec n = CHR ''0'' # r \<Longrightarrow> r = []"
proof (induction n arbitrary: r rule: nat_dec.induct)
  case (1 n)
  show ?case
  proof (cases "n < 10")
    case True
    then show ?thesis using 1(2) by (subst (asm) nat_dec.simps) simp
  next
    case False
    obtain c t where c: "nat_dec (n div 10) = c # t" by (cases "nat_dec (n div 10)") auto
    with 1(2) False have "c = CHR ''0''" by (subst (asm) nat_dec.simps) simp
    with 1(1)[OF False] c have "nat_dec (n div 10) = ''0''" by simp
    then have "dec_nat (nat_dec (n div 10)) = 0" by (simp add: dec_nat_def digit_val_def)
    then show ?thesis using False by simp
  qed
qed

lemma scan_nat_dec:
  assumes "value_end r"
  shows "scan_nat (nat_dec n @ r) = Some (nat_dec n, r)"
proof -
  obtain c t where c: "nat_dec n = c # t" by (cases "nat_dec n") auto
  have w: "takeWhile is_digit (nat_dec n @ r) = nat_dec n" "dropWhile is_digit (nat_dec n @ r) = r"
    using takeWhile_digits[OF nat_dec_digits assms] by auto
  show ?thesis
  proof (cases "c = CHR ''0''")
    case True
    then show ?thesis using c nat_dec_hd_zero[of n t] by (simp add: scan_nat_def)
  next
    case False
    then show ?thesis using c w by (simp add: scan_nat_def scan_digits_def)
  qed
qed

lemma scan_end: "value_end r \<Longrightarrow> scan_frac r = Some ([], r) \<and> scan_exp r = Some ([], r)"
  by (auto simp: scan_frac_def scan_exp_def value_end_def split: list.splits)

lemma scan_Itoa:
  assumes "value_end r"
  shows "scan_number (Itoa i @ r) = Some (Itoa i, r)"
proof -
  obtain c t where c: "nat_dec (nat i) = c # t" by (cases "nat_dec (nat i)") auto
  have "c \<noteq> CHR ''-''" using digit_not_sign[OF nat_dec_hd[OF c]] by simp
  moreover have "scan_nat (c # t @ r) = Some (c # t, r)" using scan_nat_dec[OF assms, of "nat i"] c by simp
  ultimately show ?thesis
    using scan_nat_dec[OF assms] scan_end[OF assms] c by (auto simp: scan_number_def Itoa_def)
qed


section \<open>Values\<close>

definition is_ws :: "char \<Rightarrow> bool" where
  "is_ws c = (c \<in> {CHR '' '', CHR 0x09, CHR 0x0A, CHR 0x0D})"

definition skip_ws :: "string \<Rightarrow> string" where
  "skip_ws s = dropWhile is_ws s"

text \<open>The text after white space and one expected character.\<close>

definition eat :: "char \<Rightarrow> string \<Rightarrow> string option" where
  "eat d s = (case skip_ws s of [] \<Rightarrow> None | c # r \<Rightarrow> if c = d then Some r else None)"

definition literal :: "string \<Rightarrow> json \<Rightarrow> string \<Rightarrow> (json \<times> string) option" where
  "literal w v s = (if take (length w) s = w then Some (v, drop (length w) s) else None)"

fun parse_value :: "nat \<Rightarrow> string \<Rightarrow> (json \<times> string) option"
  and parse_elems :: "nat \<Rightarrow> string \<Rightarrow> (json list \<times> string) option"
  and parse_members :: "nat \<Rightarrow> string \<Rightarrow> ((string \<times> json) list \<times> string) option" where
  "parse_value 0 s = None"
| "parse_value (Suc f) s =
     (case skip_ws s of
        [] \<Rightarrow> None
      | c # r \<Rightarrow>
          if c = quote then map_option (\<lambda>(t, r'). (JStr t, r')) (dec_str r)
          else if c = CHR ''{'' then
            (case eat CHR ''}'' r of
               Some r' \<Rightarrow> Some (JObj [], r')
             | None \<Rightarrow> map_option (\<lambda>(ms, r'). (JObj ms, r')) (parse_members f r))
          else if c = CHR ''['' then
            (case eat CHR '']'' r of
               Some r' \<Rightarrow> Some (JArr [], r')
             | None \<Rightarrow> map_option (\<lambda>(vs, r'). (JArr vs, r')) (parse_elems f r))
          else if c = CHR ''t'' then literal ''true'' (JBool True) (c # r)
          else if c = CHR ''f'' then literal ''false'' (JBool False) (c # r)
          else if c = CHR ''n'' then literal ''null'' JNull (c # r)
          else map_option (\<lambda>(t, r'). (JNum t, r')) (scan_number (c # r)))"
| "parse_elems 0 s = None"
| "parse_elems (Suc f) s =
     (case parse_value f s of
        None \<Rightarrow> None
      | Some (v, r) \<Rightarrow>
          (case eat CHR '']'' r of
             Some r' \<Rightarrow> Some ([v], r')
           | None \<Rightarrow>
               (case eat CHR '','' r of
                  None \<Rightarrow> None
                | Some r' \<Rightarrow> map_option (\<lambda>(vs, r''). (v # vs, r'')) (parse_elems f r'))))"
| "parse_members 0 s = None"
| "parse_members (Suc f) s =
     (case eat quote s of
        None \<Rightarrow> None
      | Some r0 \<Rightarrow>
          (case dec_str r0 of
             None \<Rightarrow> None
           | Some (k, r1) \<Rightarrow>
               (case eat CHR '':'' r1 of
                  None \<Rightarrow> None
                | Some r2 \<Rightarrow>
                    (case parse_value f r2 of
                       None \<Rightarrow> None
                     | Some (v, r) \<Rightarrow>
                         (case eat CHR ''}'' r of
                            Some r' \<Rightarrow> Some ([(k, v)], r')
                          | None \<Rightarrow>
                              (case eat CHR '','' r of
                                 None \<Rightarrow> None
                               | Some r' \<Rightarrow> map_option (\<lambda>(ms, r''). ((k, v) # ms, r'')) (parse_members f r')))))))"

definition json_parse :: "string \<Rightarrow> json option" where
  "json_parse s =
     (case parse_value (Suc (length s)) s of
        None \<Rightarrow> None
      | Some (v, r) \<Rightarrow> if skip_ws r = [] then Some v else None)"

definition json_string :: "string \<Rightarrow> string" where
  "json_string s = quote # enc_str s @ [quote]"

primrec json_print :: "json \<Rightarrow> string" where
  "json_print JNull = ''null''"
| "json_print (JBool b) = (if b then ''true'' else ''false'')"
| "json_print (JNum s) = s"
| "json_print (JStr s) = json_string s"
| "json_print (JArr vs) = ''['' @ Join (map json_print vs) '','' @ '']''"
| "json_print (JObj ms) =
     ''{'' @ Join (map (\<lambda>(k, t). json_string k @ '':'' @ t) (map (map_prod id json_print) ms)) '','' @ ''}''"

primrec json_ok :: "json \<Rightarrow> bool" where
  "json_ok JNull \<longleftrightarrow> True"
| "json_ok (JBool b) \<longleftrightarrow> True"
| "json_ok (JNum s) \<longleftrightarrow> is_int_literal s"
| "json_ok (JStr s) \<longleftrightarrow> ascii s"
| "json_ok (JArr vs) \<longleftrightarrow> list_all (\<lambda>b. b) (map json_ok vs)"
| "json_ok (JObj ms) \<longleftrightarrow> list_all (\<lambda>(k, b). ascii k \<and> b) (map (map_prod id json_ok) ms)"

section \<open>What is printed is read back\<close>

lemma skip_ws_not_ws: "\<not> is_ws c \<Longrightarrow> skip_ws (c # r) = c # r"
  by (simp add: skip_ws_def)

lemma eat_hit: "\<not> is_ws d \<Longrightarrow> eat d (d # r) = Some r"
  by (simp add: eat_def skip_ws_not_ws)

lemma eat_miss: "\<not> is_ws c \<Longrightarrow> c \<noteq> d \<Longrightarrow> eat d (c # r) = None"
  by (simp add: eat_def skip_ws_not_ws)

text \<open>The first character of a printed value.\<close>

definition value_start :: "char \<Rightarrow> bool" where
  "value_start c \<longleftrightarrow> c \<in> {quote, CHR ''{'', CHR ''['', CHR ''t'', CHR ''f'', CHR ''n'', CHR ''-''} \<or> is_digit c"

lemma value_start_props:
  assumes "value_start c"
  shows "\<not> is_ws c" "c \<noteq> CHR '']''" "c \<noteq> CHR ''}''"
  using assms by (auto simp: value_start_def is_ws_def is_digit_def)

lemma Itoa_hd: "Itoa i = c # r \<Longrightarrow> c = CHR ''-'' \<or> is_digit c"
  using nat_dec_digits[of "nat i"] by (auto simp: Itoa_def split: if_splits)

lemma print_hd: "json_ok j \<Longrightarrow> \<exists>c r. json_print j = c # r \<and> value_start c"
proof (cases j)
  case (JNum s)
  assume "json_ok j"
  with JNum obtain i where "s = Itoa i" by (auto simp: is_int_literal_def split: option.splits)
  moreover obtain c r where "Itoa i = c # r" by (cases "Itoa i") auto
  ultimately show ?thesis using JNum Itoa_hd[of i c r] by (auto simp: value_start_def)
qed (auto simp: value_start_def json_string_def)


definition reads :: "json \<Rightarrow> bool" where
  "reads j \<longleftrightarrow> (\<forall>f rest. length (json_print j) \<le> f \<longrightarrow> value_end rest \<longrightarrow>
     parse_value f (json_print j @ rest) = Some (j, rest))"

lemma not_ws_simps [simp]:
  "\<not> is_ws CHR '',''" "\<not> is_ws CHR '']''" "\<not> is_ws CHR ''}''" "\<not> is_ws CHR '':''" "\<not> is_ws quote"
  by (simp_all add: is_ws_def)

lemma Join_Cons: "vs \<noteq> [] \<Longrightarrow> Join (v # vs) sep = v @ sep @ Join vs sep"
  by (cases vs) auto

lemma parse_elems_print:
  assumes "vs \<noteq> []" "\<forall>v\<in>set vs. reads v" "Suc (length (Join (map json_print vs) '','')) \<le> f"
  shows "parse_elems f (Join (map json_print vs) '','' @ CHR '']'' # rest) = Some (vs, rest)"
  using assms
proof (induction vs arbitrary: f)
  case (Cons v vs)
  obtain f' where f: "f = Suc f'" using Cons.prems(3) by (cases f) auto
  have v: "reads v" using Cons.prems(2) by simp
  show ?case
  proof (cases "vs = []")
    case True
    then have "length (json_print v) \<le> f'" using Cons.prems(3) f by simp
    then have "parse_value f' (json_print v @ CHR '']'' # rest) = Some (v, CHR '']'' # rest)"
      using v by (simp add: reads_def)
    then show ?thesis using True f by (simp add: eat_hit)
  next
    case False
    let ?more = "Join (map json_print vs) '','' @ CHR '']'' # rest"
    have len: "length (json_print v) \<le> f'" "Suc (length (Join (map json_print vs) '','')) \<le> f'"
      using Cons.prems(3) f False by (simp_all add: Join_Cons)
    then have "parse_value f' (json_print v @ CHR '','' # ?more) = Some (v, CHR '','' # ?more)"
      using v by (simp add: reads_def)
    moreover have "parse_elems f' ?more = Some (vs, rest)"
      using Cons.IH[OF False _ len(2)] Cons.prems(2) by simp
    ultimately show ?thesis using False f by (simp add: Join_Cons eat_hit eat_miss)
  qed
qed simp

definition print_member :: "string \<times> json \<Rightarrow> string" where
  "print_member m = json_string (fst m) @ CHR '':'' # json_print (snd m)"

abbreviation print_members :: "(string \<times> json) list \<Rightarrow> string" where
  "print_members ms \<equiv> Join (map print_member ms) '',''"

lemma json_print_obj: "json_print (JObj ms) = CHR ''{'' # print_members ms @ ''}''"
proof -
  have "map (\<lambda>(k, t). json_string k @ '':'' @ t) (map (map_prod id json_print) ms) = map print_member ms"
    by (auto simp: print_member_def)
  then show ?thesis by (simp only: json_print.simps) simp
qed

declare json_print.simps(6) [simp del] json_print_obj [simp]

lemma parse_members_print:
  assumes "ms \<noteq> []" "\<forall>(k, v)\<in>set ms. ascii k \<and> reads v" "Suc (length (print_members ms)) \<le> f"
  shows "parse_members f (print_members ms @ CHR ''}'' # rest) = Some (ms, rest)"
  using assms
proof (induction ms arbitrary: f)
  case (Cons m ms)
  obtain k v where m: "m = (k, v)" by fastforce
  obtain f' where f: "f = Suc f'" using Cons.prems(3) by (cases f) auto
  have v: "reads v" "ascii k" using Cons.prems(2) m by auto
  show ?case
  proof (cases "ms = []")
    case True
    then have "length (json_print v) \<le> f'" using Cons.prems(3) f m by (simp add: print_member_def)
    then have "parse_value f' (json_print v @ CHR ''}'' # rest) = Some (v, CHR ''}'' # rest)"
      using v by (simp add: reads_def)
    then show ?thesis using True f m v(2) by (simp add: print_member_def json_string_def eat_hit dec_enc_str)
  next
    case False
    let ?more = "print_members ms @ CHR ''}'' # rest"
    have len: "length (json_print v) \<le> f'" "Suc (length (print_members ms)) \<le> f'"
      using Cons.prems(3) f m False by (simp_all add: Join_Cons print_member_def[of "(k, v)"])
    then have "parse_value f' (json_print v @ CHR '','' # ?more) = Some (v, CHR '','' # ?more)"
      using v by (simp add: reads_def)
    moreover have "parse_members f' ?more = Some (ms, rest)"
      using Cons.IH[OF False _ len(2)] Cons.prems(2) by simp
    ultimately show ?thesis
      using False f m v(2) by (simp add: Join_Cons print_member_def[of "(k, v)"] json_string_def eat_hit eat_miss dec_enc_str)
  qed
qed simp

lemma Join_hd: "v = c # r \<Longrightarrow> \<exists>r'. Join (v # vs) sep = c # r'"
  by (cases vs) auto

lemma json_ok_reads: "json_ok j \<Longrightarrow> reads j"
proof (induction j)
  case (JNum s)
  then obtain i where i: "s = Itoa i" by (auto simp: is_int_literal_def split: option.splits)
  obtain c r where c: "Itoa i = c # r" by (cases "Itoa i") auto
  have ne: "skip_ws (c # t) = c # t" "c \<notin> {quote, CHR ''{'', CHR ''['', CHR ''t'', CHR ''f'', CHR ''n''}" for t
    using Itoa_hd[OF c] by (auto simp: skip_ws_def is_ws_def is_digit_def)
  show ?case unfolding reads_def
  proof (intro allI impI)
    fix f rest
    assume f: "length (json_print (JNum s)) \<le> f" and e: "value_end rest"
    obtain f' where "f = Suc f'" using f i c by (cases f) auto
    moreover have "scan_number (c # r @ rest) = Some (c # r, rest)" using scan_Itoa[OF e, of i] c by simp
    ultimately show "parse_value f (json_print (JNum s) @ rest) = Some (JNum s, rest)"
      using i c ne by simp
  qed
next
  case (JArr vs)
  have vs: "\<forall>v\<in>set vs. reads v" using JArr by (auto simp: list_all_iff)
  show ?case unfolding reads_def
  proof (intro allI impI)
    fix f rest
    assume f: "length (json_print (JArr vs)) \<le> f" and e: "value_end rest"
    obtain f' where f': "f = Suc f'" using f by (cases f) auto
    show "parse_value f (json_print (JArr vs) @ rest) = Some (JArr vs, rest)"
    proof (cases vs)
      case Nil
      then show ?thesis using f' by (simp add: skip_ws_def is_ws_def eat_def)
    next
      case (Cons v vs')
      have "json_ok v" using JArr.prems Cons by simp
      from print_hd[OF this] obtain c r where "json_print v = c # r" and c: "value_start c" by blast
      from Join_hd[OF this(1)] obtain r' where h: "Join (map json_print vs) '','' = c # r'" using Cons by auto
      have "parse_elems f' (Join (map json_print vs) '','' @ CHR '']'' # rest) = Some (vs, rest)"
        by (rule parse_elems_print) (use Cons vs f f' in auto)
      then show ?thesis
        using f' h value_start_props[OF c] by (simp add: skip_ws_not_ws eat_miss is_ws_def)
    qed
  qed
next
  case (JObj ms)
  have ms: "\<forall>(k, v)\<in>set ms. ascii k \<and> reads v"
    using JObj by (fastforce simp: list_all_iff)
  show ?case unfolding reads_def
  proof (intro allI impI)
    fix f rest
    assume f: "length (json_print (JObj ms)) \<le> f" and e: "value_end rest"
    obtain f' where f': "f = Suc f'" using f by (cases f) auto
    show "parse_value f (json_print (JObj ms) @ rest) = Some (JObj ms, rest)"
    proof (cases ms)
      case Nil
      then show ?thesis using f' by (simp add: skip_ws_def is_ws_def eat_def)
    next
      case (Cons m ms')
      obtain r' where h: "print_members ms = quote # r'"
        using Cons Join_hd[of "print_member m" quote _ "map print_member ms'" "'',''"]
        by (auto simp: print_member_def json_string_def)
      have "parse_members f' (print_members ms @ CHR ''}'' # rest) = Some (ms, rest)"
        by (rule parse_members_print) (use Cons ms f f' in auto)
      then show ?thesis
        using f' h by (simp add: skip_ws_not_ws eat_miss is_ws_def)
    qed
  qed
qed (auto simp: reads_def skip_ws_def is_ws_def literal_def json_string_def dec_enc_str dest!: Suc_le_D)

text \<open>A value of ASCII strings and integers is what its text is read as.\<close>

theorem json_roundtrip: "json_ok j \<Longrightarrow> json_parse (json_print j) = Some j"
proof -
  assume "json_ok j"
  then have "reads j" by (rule json_ok_reads)
  then have "parse_value (Suc (length (json_print j))) (json_print j @ []) = Some (j, [])"
    unfolding reads_def by (meson le_SucI le_refl value_end_simps(1))
  then show ?thesis by (simp add: json_parse_def skip_ws_def)
qed


section \<open>Decoding into structures\<close>

text \<open>
  \<open>json.Unmarshal\<close> takes the members of an object in order and stores each into the field whose name
  equals the key up to case, a \<open>null\<close> leaving strings, numbers and arrays as they were. A member of
  the wrong type makes the whole call fail. Keys of other names are ignored.
\<close>

type_synonym 'a field_decoder = "'a \<Rightarrow> json \<Rightarrow> 'a option"

definition struct_members :: "json \<Rightarrow> (string \<times> json) list option" where
  "struct_members v = (case v of JObj ms \<Rightarrow> Some ms | JNull \<Rightarrow> Some [] | _ \<Rightarrow> None)"

definition decode_field :: "'a field_decoder \<Rightarrow> string \<Rightarrow> 'a \<Rightarrow> (string \<times> json) list \<Rightarrow> 'a option" where
  "decode_field dec name zero ms =
     fold (\<lambda>(k, v) acc. Option.bind acc (\<lambda>a. if ToLower k = ToLower name then dec a v else Some a)) ms (Some zero)"

definition dec_string :: "string field_decoder" where
  "dec_string old v = (case v of JStr s \<Rightarrow> Some s | JNull \<Rightarrow> Some old | _ \<Rightarrow> None)"

definition dec_int :: "int field_decoder" where
  "dec_int old v = (case v of JNum s \<Rightarrow> Atoi s | JNull \<Rightarrow> Some old | _ \<Rightarrow> None)"

definition dec_bool :: "bool field_decoder" where
  "dec_bool old v = (case v of JBool b \<Rightarrow> Some b | JNull \<Rightarrow> Some old | _ \<Rightarrow> None)"

definition dec_map :: "'a field_decoder \<Rightarrow> 'a \<Rightarrow> (string, 'a) gmap field_decoder" where
  "dec_map dec zero old v =
     (case v of
        JObj ms \<Rightarrow> fold (\<lambda>(k, x) acc. Option.bind acc (\<lambda>m. map_option (\<lambda>y. gput k y m) (dec zero x))) ms (Some old)
      | JNull \<Rightarrow> Some []
      | _ \<Rightarrow> None)"

definition dec_byte :: "byte field_decoder" where
  "dec_byte old v = (case v of JNum s \<Rightarrow> map_option of_nat (ParseUint 8 s) | JNull \<Rightarrow> Some old | _ \<Rightarrow> None)"

fun dec_elems :: "byte list \<Rightarrow> json list \<Rightarrow> byte list option" where
  "dec_elems [] vs = Some []"
| "dec_elems (b # bs) [] = Some (map (\<lambda>_. 0) (b # bs))"
| "dec_elems (b # bs) (v # vs) = Option.bind (dec_byte b v) (\<lambda>x. map_option (Cons x) (dec_elems bs vs))"

definition dec_array :: "byte list field_decoder" where
  \<comment> \<open>into an array of fixed length: further elements are dropped, missing ones are zero\<close>
  "dec_array old v = (case v of JArr vs \<Rightarrow> dec_elems old vs | JNull \<Rightarrow> Some old | _ \<Rightarrow> None)"

definition enc_int :: "int \<Rightarrow> json" where "enc_int i = JNum (Itoa i)"

definition enc_array :: "byte list \<Rightarrow> json" where "enc_array bs = JArr (map (\<lambda>b. enc_int (uint b)) bs)"

definition enc_map :: "('a \<Rightarrow> json) \<Rightarrow> (string, 'a) gmap \<Rightarrow> json" where
  \<comment> \<open>keys in increasing order; the empty map is printed as a nil map is\<close>
  "enc_map enc m = (if m = [] then JNull else JObj (map (\<lambda>k. (k, enc (the (map_of m k)))) (sort (gkeys m))))"

lemma decode_field_simps [simp]:
  "decode_field dec name zero [] = Some zero"
  "decode_field dec name zero ((k, v) # ms) =
     (if ToLower k = ToLower name then Option.bind (dec zero v) (\<lambda>a. decode_field dec name a ms)
      else decode_field dec name zero ms)"
proof -
  have none: "fold (\<lambda>(k, v) acc. Option.bind acc (\<lambda>a. if ToLower k = ToLower name then dec a v else Some a)) ms None = None" for ms
    by (induction ms) auto
  show "decode_field dec name zero [] = Some zero" by (simp add: decode_field_def)
  show "decode_field dec name zero ((k, v) # ms) =
     (if ToLower k = ToLower name then Option.bind (dec zero v) (\<lambda>a. decode_field dec name a ms)
      else decode_field dec name zero ms)"
    by (cases "dec zero v") (simp_all add: decode_field_def none)
qed

lemma dec_simps [simp]:
  "dec_string old (JStr s) = Some s" "dec_string old JNull = Some old"
  "dec_bool oldb (JBool b) = Some b"
  "dec_map dec zero oldm JNull = Some []"
  by (simp_all add: dec_string_def dec_bool_def dec_map_def)

lemma dec_enc_int: "- (2 ^ 63) \<le> i \<Longrightarrow> i < 2 ^ 63 \<Longrightarrow> dec_int old (enc_int i) = Some i"
  by (simp add: dec_int_def enc_int_def Atoi_Itoa)

lemma enc_int_ok: "- (2 ^ 63) \<le> i \<Longrightarrow> i < 2 ^ 63 \<Longrightarrow> json_ok (enc_int i)"
  by (simp add: enc_int_def is_int_literal_def Atoi_Itoa)

lemma uint_byte_bounds: "0 \<le> uint (b :: byte)" "uint b < 256"
  using uint_range_size[of b] by (simp_all add: word_size)

lemma enc_array_ok: "json_ok (enc_array bs)"
proof -
  have "json_ok (enc_int (uint (b :: byte)))" for b
    by (rule enc_int_ok[OF order_trans[OF _ uint_byte_bounds(1)] less_trans[OF uint_byte_bounds(2)]]) simp_all
  then show ?thesis by (simp add: enc_array_def list_all_iff)
qed

lemma dec_byte_enc: "dec_byte old (enc_int (uint b)) = Some b"
proof -
  have "Itoa (uint b) = nat_dec (unat b)" by (simp add: Itoa_def)
  moreover have "unat b < 2 ^ 8" using unsigned_less[of b] by simp
  ultimately show ?thesis by (simp add: dec_byte_def enc_int_def ParseUint_nat_dec)
qed

lemma dec_enc_array: "length old = length bs \<Longrightarrow> dec_array old (enc_array bs) = Some bs"
proof -
  have "length old = length bs \<Longrightarrow> dec_elems old (map (\<lambda>b. enc_int (uint b)) bs) = Some bs"
    by (induction old bs rule: list_induct2) (simp_all add: dec_byte_enc)
  then show "length old = length bs \<Longrightarrow> ?thesis" by (simp add: dec_array_def enc_array_def)
qed

lemma enc_map_ok:
  assumes "\<forall>k\<in>set (gkeys m). ascii k \<and> json_ok (enc (the (map_of m k)))"
  shows "json_ok (enc_map enc m)"
  using assms by (simp add: enc_map_def list_all_iff)

lemma dec_enc_map:
  assumes "\<And>x zero. x \<in> ran (map_of m) \<Longrightarrow> dec zero (enc x) = Some x"
  shows "\<exists>m'. dec_map dec zero [] (enc_map enc m) = Some m' \<and> map_of m' = map_of m"
proof (cases "m = []")
  case True
  then show ?thesis by (simp add: enc_map_def)
next
  case False
  let ?put = "\<lambda>(k, x) acc. Option.bind acc (\<lambda>m. map_option (\<lambda>y. gput k y m) (dec zero x))"
  have "fold ?put (map (\<lambda>k. (k, enc (the (map_of m k)))) ks) (Some acc) =
      Some (fold (\<lambda>k. gput k (the (map_of m k))) ks acc)" if "set ks \<subseteq> set (gkeys m)" for ks acc
    using that
  proof (induction ks arbitrary: acc)
    case (Cons k ks)
    then have "k \<in> set (gkeys m)" by simp
    then obtain x where "map_of m k = Some x" by (auto simp: gkeys_def map_of_eq_None_iff dest: weak_map_of_SomeI)
    with assms[of x zero] have "dec zero (enc (the (map_of m k))) = Some (the (map_of m k))" by (auto intro: ranI)
    with Cons show ?case by simp
  qed simp
  then have 1: "dec_map dec zero [] (enc_map enc m) = Some (fold (\<lambda>k. gput k (the (map_of m k))) (sort (gkeys m)) [])"
    using False by (simp add: dec_map_def enc_map_def)
  have "map_of (fold (\<lambda>k. gput k (the (map_of m k))) ks acc) = (\<lambda>k. if k \<in> set ks then Some (the (map_of m k)) else map_of acc k)" for ks acc
    by (induction ks arbitrary: acc) (auto simp: fun_eq_iff)
  then have "map_of (fold (\<lambda>k. gput k (the (map_of m k))) (sort (gkeys m)) []) = map_of m"
    by (auto simp: fun_eq_iff gkeys_def map_of_eq_None_iff) (metis map_of_eq_None_iff)
  with 1 show ?thesis by blast
qed

end
