(* ===== verification/Unit_Lexer.thy ===== *)
theory Unit_Lexer
  imports Unit_File Go_Json
begin

text \<open>
  Reading unit files: \<open>Deserialize\<close> of the vendored go-systemd package
  (\<open>vendor/github.com/coreos/go-systemd/unit/deserialize.go\<close>), a lexer whose steps name the step to
  take next, over a buffered reader, and \<open>NewUnitFile\<close> of \<open>unit/unit.go\<close>. The 4096-byte buffer of
  \<open>bufio.Reader\<close> is explicit because the check for overlong lines looks at what is buffered. The
  lexer terminates on every input; what \<open>Serialize\<close> writes is read back, grouped by section. Only
  the one-byte characters Go counts as space are treated as space.
\<close>

section \<open>The buffered reader\<close>

record reader =
  rd_buf :: string
  rd_rest :: string

definition text_of :: "reader \<Rightarrow> string" where
  "text_of rd = rd_buf rd @ rd_rest rd"

definition bufSize :: nat where "bufSize = 4096"

definition fill :: "reader \<Rightarrow> reader" where
  "fill rd =
     (let n = bufSize - length (rd_buf rd)
      in \<lparr>rd_buf = rd_buf rd @ take n (rd_rest rd), rd_rest = drop n (rd_rest rd)\<rparr>)"

lemma fill_shorter: "rd_rest rd \<noteq> [] \<Longrightarrow> length (rd_buf rd) < bufSize \<Longrightarrow> length (rd_rest (fill rd)) < length (rd_rest rd)"
  by (cases "rd_rest rd") (auto simp: fill_def Let_def)

lemma fill_shorter_empty: "rd_rest rd \<noteq> [] \<Longrightarrow> length (rd_rest (fill (rd\<lparr>rd_buf := []\<rparr>))) < length (rd_rest rd)"
  using fill_shorter[of "rd\<lparr>rd_buf := []\<rparr>"] by (simp add: bufSize_def)

text \<open>
  \<open>ReadBytes\<close>: up to and including the delimiter, or all that is left when it does not occur, with
  whether it was found.
\<close>

function ReadBytes :: "char \<Rightarrow> reader \<Rightarrow> string \<times> bool \<times> reader" where
  "ReadBytes d rd =
     (if d \<in> set (rd_buf rd) then
        (takeWhile (\<lambda>c. c \<noteq> d) (rd_buf rd) @ [d], True, rd\<lparr>rd_buf := tl (dropWhile (\<lambda>c. c \<noteq> d) (rd_buf rd))\<rparr>)
      else if rd_rest rd = [] then (rd_buf rd, False, \<lparr>rd_buf = [], rd_rest = []\<rparr>)
      else if bufSize \<le> length (rd_buf rd) then
        (let (line, found, rd') = ReadBytes d (fill (rd\<lparr>rd_buf := []\<rparr>)) in (rd_buf rd @ line, found, rd'))
      else ReadBytes d (fill rd))"
  by pat_completeness auto
termination
  by (relation "measure (\<lambda>(d, rd). length (rd_rest rd))") (auto simp: fill_shorter fill_shorter_empty bufSize_def)

declare ReadBytes.simps [simp del]

text \<open>\<open>utf8.FullRune\<close>: whether the bytes begin with a whole rune, an invalid encoding counting as one.\<close>

definition FullRune :: "string \<Rightarrow> bool" where
  "FullRune p =
     (case p of
        [] \<Rightarrow> False
      | a # r \<Rightarrow>
          let size = (if byte_in 0xC2 0xDF a then 2 else if byte_in 0xE0 0xEF a then 3
                      else if byte_in 0xF0 0xF4 a then 4 else 1) :: nat;
              lo = (if byte_in 0xE0 0xE0 a then 0xA0 else if byte_in 0xF0 0xF0 a then 0x90 else 0x80);
              hi = (if byte_in 0xED 0xED a then 0x9F else if byte_in 0xF4 0xF4 a then 0x8F else 0xBF)
          in size \<le> length p \<or> (1 < length p \<and> \<not> byte_in lo hi (p ! 1)) \<or> (2 < length p \<and> \<not> byte_in 0x80 0xBF (p ! 2)))"

definition fill_rune :: "reader \<Rightarrow> reader" where
  "fill_rune rd = (if length (rd_buf rd) < 4 \<and> \<not> FullRune (rd_buf rd) then fill rd else rd)"

text \<open>
  \<open>ReadRune\<close>: the bytes of the next rune as \<open>WriteRune\<close> would write them, an invalid byte as U+FFFD,
  and the reader after it; nothing at the end of the file.
\<close>

definition ReadRune :: "reader \<Rightarrow> (string \<times> reader) option" where
  "ReadRune rd =
     (let rd' = fill_rune rd in
      case rd_buf rd' of
        [] \<Rightarrow> None
      | c # r \<Rightarrow>
          if (of_char c :: nat) < 128 then Some ([c], rd'\<lparr>rd_buf := r\<rparr>)
          else
            (case utf8_size (c # r) of
               None \<Rightarrow> Some ([CHR 0xEF, CHR 0xBF, CHR 0xBD], rd'\<lparr>rd_buf := r\<rparr>)
             | Some n \<Rightarrow> Some (take n (c # r), rd'\<lparr>rd_buf := drop n (c # r)\<rparr>)))"

section \<open>The lexer\<close>

definition SYSTEMD_LINE_MAX :: nat where "SYSTEMD_LINE_MAX = 2048"

definition ErrLineTooLong :: string where "ErrLineTooLong = ''line too long (max 2048 bytes)''"

definition isComment :: "string \<Rightarrow> bool" where
  "isComment r = (r = ''#'' \<or> r = '';'')"

datatype lexStep =
    lexNextSection
  | lexSectionName
  | lexSectionSuffix string
  | ignoreLine lexStep
  | lexNextSectionOrOption string
  | lexOptionName string
  | lexOptionValue string string string

definition TrimSuffixByte :: "char \<Rightarrow> string \<Rightarrow> string" where
  "TrimSuffixByte c s = (if s \<noteq> [] \<and> last s = c then butlast s else s)"

definition toEOL :: "reader \<Rightarrow> string \<times> bool \<times> reader" where
  "toEOL rd =
     (let (line, found, rd') = ReadBytes CHR 0x0A rd
      in (TrimSuffixByte CHR 0x0A (TrimSuffixByte CHR 0x0D line), \<not> found, rd'))"

lemma fill_text [simp]: "text_of (fill rd) = text_of rd"
  by (simp add: text_of_def fill_def Let_def)

lemma fill_rune_text [simp]: "text_of (fill_rune rd) = text_of rd"
  by (simp add: fill_rune_def)

lemma takeWhile_found: "d \<in> set xs \<Longrightarrow> takeWhile (\<lambda>c. c \<noteq> d) (xs @ ys) = takeWhile (\<lambda>c. c \<noteq> d) xs"
  by (induction xs) auto

lemma dropWhile_found: "d \<in> set xs \<Longrightarrow> dropWhile (\<lambda>c. c \<noteq> d) (xs @ ys) = dropWhile (\<lambda>c. c \<noteq> d) xs @ ys"
  by (induction xs) auto

lemma takeWhile_absent: "d \<notin> set xs \<Longrightarrow> takeWhile (\<lambda>c. c \<noteq> d) (xs @ ys) = xs @ takeWhile (\<lambda>c. c \<noteq> d) ys"
  by (induction xs) auto

lemma dropWhile_absent: "d \<notin> set xs \<Longrightarrow> dropWhile (\<lambda>c. c \<noteq> d) (xs @ ys) = dropWhile (\<lambda>c. c \<noteq> d) ys"
  by (induction xs) auto

lemma dropWhile_none: "d \<notin> set xs \<Longrightarrow> dropWhile (\<lambda>c. c \<noteq> d) xs = []"
  by (induction xs) auto

text \<open>What \<open>ReadBytes\<close> returns depends on the text alone, not on how it is buffered.\<close>

lemma ReadBytes_text:
  "fst (ReadBytes d rd) =
     (if d \<in> set (text_of rd) then takeWhile (\<lambda>c. c \<noteq> d) (text_of rd) @ [d] else text_of rd) \<and>
   fst (snd (ReadBytes d rd)) = (d \<in> set (text_of rd)) \<and>
   text_of (snd (snd (ReadBytes d rd))) = tl (dropWhile (\<lambda>c. c \<noteq> d) (text_of rd))"
proof (induction d rd rule: ReadBytes.induct)
  case (1 d rd)
  let ?b = "rd_buf rd" and ?r = "rd_rest rd"
  have t: "text_of rd = ?b @ ?r" by (simp add: text_of_def)
  consider (hit) "d \<in> set ?b" | (eof) "d \<notin> set ?b" "?r = []"
    | (full) "d \<notin> set ?b" "?r \<noteq> []" "bufSize \<le> length ?b" | (more) "d \<notin> set ?b" "?r \<noteq> []" "\<not> bufSize \<le> length ?b"
    by blast
  then show ?case
  proof cases
    case hit
    then have "dropWhile (\<lambda>c. c \<noteq> d) ?b \<noteq> []" by (auto simp: dropWhile_eq_Nil_conv)
    with hit show ?thesis
      by (subst (1 2 3) ReadBytes.simps) (simp add: t takeWhile_found dropWhile_found text_of_def)
  next
    case eof
    have "tl (dropWhile (\<lambda>c. c \<noteq> d) ?b) = []" using eof(1) by (simp add: dropWhile_none)
    with eof show ?thesis by (subst (1 2 3) ReadBytes.simps) (simp add: t, simp add: text_of_def)
  next
    case full
    have "text_of (fill (rd\<lparr>rd_buf := []\<rparr>)) = ?r" unfolding fill_text by (simp add: text_of_def)
    then show ?thesis
      using 1(1)[OF full(1,2,3)] full
      by (subst (1 2 3) ReadBytes.simps) (auto simp: t takeWhile_absent dropWhile_absent split: prod.splits)
  next
    case more
    then show ?thesis
      using 1(2)[OF more] by (subst (1 2 3) ReadBytes.simps) simp
  qed
qed


definition left :: "reader \<Rightarrow> nat" where "left rd = length (text_of rd)"

lemma tl_dropWhile_less: "xs \<noteq> [] \<Longrightarrow> length (tl (dropWhile P xs)) < length xs"
  by (metis length_0_conv length_dropWhile_le length_tl less_le_trans not_gr_zero diff_less zero_less_one
      le_less_trans diff_le_self length_greater_0_conv list.size(3) tl_Nil dropWhile_eq_self_iff)

lemma toEOL_left: "toEOL rd = (line, eof, rd') \<Longrightarrow> text_of rd \<noteq> [] \<Longrightarrow> left rd' < left rd"
  using ReadBytes_text[of "CHR 0x0A" rd] tl_dropWhile_less[of "text_of rd"]
  by (auto simp: toEOL_def left_def split: prod.splits)

lemma toEOL_end: "text_of rd = [] \<Longrightarrow> toEOL rd = (line, eof, rd') \<Longrightarrow> line = [] \<and> text_of rd' = [] \<and> eof"
  using ReadBytes_text[of "CHR 0x0A" rd] by (auto simp: toEOL_def TrimSuffixByte_def split: prod.splits)

text \<open>The loop of \<open>ignoreLineFunc\<close>: lines are skipped as long as they end in a backslash.\<close>

function ignore_lines :: "reader \<Rightarrow> reader" where
  "ignore_lines rd =
     (let (line, eof, rd') = toEOL rd; line' = TrimSuffixByte CHR '' '' line
      in if line' \<noteq> [] \<and> last line' = bslash then ignore_lines rd' else rd')"
  by pat_completeness auto
termination
proof (relation "measure left", goal_cases)
  case (2 rd x line y eof rd' line')
  then have "text_of rd \<noteq> []" using toEOL_end[of rd line eof rd'] by (auto simp: TrimSuffixByte_def)
  with 2 show ?case using toEOL_left[of rd line eof rd'] by simp
qed simp

declare ignore_lines.simps [simp del]

text \<open>The loop of \<open>lexOptionNameFunc\<close>, with the bytes of the name read so far.\<close>

lemma ReadRune_left: "ReadRune rd = Some (r, rd') \<Longrightarrow> left rd' < left rd"
proof -
  assume r: "ReadRune rd = Some (r, rd')"
  have "left (fill_rune rd) = left rd" by (simp add: left_def)
  with r show ?thesis
    by (auto simp: ReadRune_def Let_def left_def text_of_def split: list.splits if_splits option.splits dest!: utf8_size_pos)
qed

function read_name :: "string \<Rightarrow> reader \<Rightarrow> (string \<times> reader) result" where
  "read_name partial rd =
     (case ReadRune rd of
        None \<Rightarrow> Inl ''EOF''
      | Some (r, rd') \<Rightarrow>
          if r = [CHR 0x0A] \<or> r = [CHR 0x0D] then Inl ''unexpected newline encountered while parsing option name''
          else if r = ''='' then Inr (partial, rd')
          else read_name (partial @ r) rd')"
  by pat_completeness auto
termination
  by (relation "measure (\<lambda>(p, rd). left rd)") (auto dest: ReadRune_left)

declare read_name.simps [simp del]

type_synonym lex_result = "(lexStep option \<times> UnitOption option \<times> reader) result"

definition finish_value :: "string \<Rightarrow> string" where
  "finish_value val = (if HasSuffix val newline then TrimSpace val @ newline else TrimSpace val)"

definition is_space_rune :: "string \<Rightarrow> bool" where
  "is_space_rune r = (r \<in> set white_spaces)"

fun lex_step :: "lexStep \<Rightarrow> reader \<Rightarrow> lex_result" where
  "lex_step lexNextSection rd =
     (case ReadRune rd of
        None \<Rightarrow> Inr (None, None, fill_rune rd)
      | Some (r, rd') \<Rightarrow>
          if r = ''['' then Inr (Some lexSectionName, None, rd')
          else if isComment r then Inr (Some (ignoreLine lexNextSection), None, rd')
          else Inr (Some lexNextSection, None, rd'))"
| "lex_step lexSectionName rd =
     (let (sec, found, rd') = ReadBytes CHR '']'' rd
      in if \<not> found then Inl ''unable to find end of section''
         else Inr (Some (lexSectionSuffix (butlast sec)), None, rd'))"
| "lex_step (lexSectionSuffix section) rd =
     (let (garbage, eof, rd') = toEOL rd
      in if TrimSpace garbage \<noteq> [] then Inl (''found garbage after section name : ['' @ Join (map (\<lambda>c. nat_dec (of_char c)) (TrimSpace garbage)) '' '' @ '']'')
         else Inr (Some (lexNextSectionOrOption section), None, rd'))"
| "lex_step (ignoreLine nxt) rd = Inr (Some nxt, None, ignore_lines rd)"
| "lex_step (lexNextSectionOrOption section) rd =
     (case ReadRune rd of
        None \<Rightarrow> Inr (None, None, fill_rune rd)
      | Some (r, rd') \<Rightarrow>
          if is_space_rune r then Inr (Some (lexNextSectionOrOption section), None, rd')
          else if r = ''['' then Inr (Some lexSectionName, None, rd')
          else if isComment r then Inr (Some (ignoreLine (lexNextSectionOrOption section)), None, rd')
          else Inr (Some (lexOptionName section), None, fill_rune rd))"
| "lex_step (lexOptionName section) rd =
     (case read_name [] rd of
        Inl e \<Rightarrow> Inl e
      | Inr (partial, rd') \<Rightarrow> Inr (Some (lexOptionValue section (TrimSpace partial) []), None, rd'))"
| "lex_step (lexOptionValue section name partial) rd =
     (let (line, eof, rd') = toEOL rd;
          blank = (TrimSpace line = []);
          partial' = (if blank then partial else partial @ line)
      in if \<not> blank \<and> last line = bslash
         then Inr (Some (lexOptionValue section name (partial' @ (if eof then [] else newline))), None, rd')
         else Inr (Some (lexNextSectionOrOption section),
                   Some \<lparr>uo_Section = section, uo_Name = name, uo_Value = finish_value partial'\<rparr>, rd'))"

definition lineTooLong :: "reader \<Rightarrow> bool" where
  "lineTooLong rd =
     (SYSTEMD_LINE_MAX \<le> length (rd_buf rd) \<and>
      list_all (\<lambda>c. c \<noteq> CHR 0x0D \<and> c \<noteq> CHR 0x0A) (take SYSTEMD_LINE_MAX (rd_buf rd)))"


section \<open>Termination\<close>

text \<open>Every step consumes text or leads to a step of lower rank.\<close>

primrec step_rank :: "lexStep \<Rightarrow> nat" where
  "step_rank lexNextSection = 0"
| "step_rank lexSectionName = 0"
| "step_rank (lexSectionSuffix s) = 2"
| "step_rank (ignoreLine nxt) = Suc (step_rank nxt)"
| "step_rank (lexNextSectionOrOption s) = 1"
| "step_rank (lexOptionName s) = 0"
| "step_rank (lexOptionValue s n p) = 2"

lemma toEOL_le: "toEOL rd = (line, eof, rd') \<Longrightarrow> left rd' \<le> left rd"
  using toEOL_left[of rd line eof rd'] toEOL_end[of rd line eof rd']
  by (cases "text_of rd = []") (auto simp: left_def)

lemma ignore_lines_le: "left (ignore_lines rd) \<le> left rd"
proof (induction rd rule: ignore_lines.induct)
  case (1 rd)
  obtain line eof rd' where e: "toEOL rd = (line, eof, rd')" by (metis prod_cases3)
  then show ?case
    using 1[OF e[symmetric] refl refl refl] toEOL_le[OF e] by (subst ignore_lines.simps) (auto simp: Let_def)
qed

lemma read_name_less: "read_name p rd = Inr (n, rd') \<Longrightarrow> left rd' < left rd"
proof (induction p rd arbitrary: n rd' rule: read_name.induct)
  case (1 p rd)
  from 1(2) show ?case
    using 1(1) by (subst (asm) read_name.simps) (fastforce split: option.splits prod.splits if_splits dest: ReadRune_left)
qed

lemma ReadBytes_found_less:
  assumes "ReadBytes d rd = (line, True, rd')"
  shows "left rd' < left rd"
proof -
  have "d \<in> set (text_of rd)" "text_of rd' = tl (dropWhile (\<lambda>c. c \<noteq> d) (text_of rd))"
    using ReadBytes_text[of d rd] assms by auto
  moreover from this have "text_of rd \<noteq> []" by auto
  ultimately show ?thesis using tl_dropWhile_less[of "text_of rd" "\<lambda>c. c \<noteq> d"] by (simp add: left_def)
qed

lemma lex_step_progress:
  assumes "lex_step st rd = Inr (Some st', opt, rd')"
  shows "left rd' < left rd \<or> left rd' \<le> left rd \<and> step_rank st' < step_rank st"
proof (cases st)
  case lexNextSection
  then show ?thesis using assms by (auto split: option.splits prod.splits if_splits dest: ReadRune_left)
next
  case lexSectionName
  then show ?thesis using assms by (auto simp: Let_def split: prod.splits if_splits dest: ReadBytes_found_less)
next
  case (lexSectionSuffix x)
  then show ?thesis using assms by (auto simp: Let_def split: prod.splits if_splits dest: toEOL_le)
next
  case (ignoreLine x)
  then show ?thesis using assms ignore_lines_le[of rd] by auto
next
  case (lexNextSectionOrOption x)
  then show ?thesis
    using assms by (auto simp: left_def split: option.splits prod.splits if_splits dest: ReadRune_left[unfolded left_def])
next
  case (lexOptionName x)
  then show ?thesis using assms by (auto split: sum.splits prod.splits dest: read_name_less)
next
  case (lexOptionValue s n p)
  obtain line eof rd1 where e: "toEOL rd = (line, eof, rd1)" by (metis prod_cases3)
  show ?thesis
  proof (cases "TrimSpace line \<noteq> [] \<and> last line = bslash")
    case True
    then have "text_of rd \<noteq> []" using toEOL_end[OF _ e] by auto
    then show ?thesis using assms lexOptionValue e toEOL_left[OF e] True by (auto simp: Let_def)
  next
    case False
    then show ?thesis using assms lexOptionValue e toEOL_le[OF e] by (auto simp: Let_def)
  qed
qed

definition emit :: "UnitOption list \<Rightarrow> UnitOption list result \<Rightarrow> UnitOption list result" where
  "emit out r = (case r of Inl e \<Rightarrow> Inl e | Inr opts \<Rightarrow> Inr (out @ opts))"

function lex :: "lexStep \<Rightarrow> reader \<Rightarrow> UnitOption list result" where
  "lex st rd =
     (if lineTooLong rd then Inl ErrLineTooLong
      else
        (case lex_step st rd of
           Inl e \<Rightarrow> Inl e
         | Inr (None, opt, rd') \<Rightarrow> Inr (case opt of None \<Rightarrow> [] | Some x \<Rightarrow> [x])
         | Inr (Some st', opt, rd') \<Rightarrow>
             emit (case opt of None \<Rightarrow> [] | Some x \<Rightarrow> [x]) (lex st' rd')))"
  by pat_completeness auto
termination
proof (relation "inv_image (less_than <*lex*> less_than) (\<lambda>(st, rd). (left rd, step_rank st))", goal_cases)
  case (2 st rd r x y st' opt rd')
  then have "lex_step st rd = Inr (Some st', opt, rd')" by simp
  then show ?case using lex_step_progress[of st rd st' opt rd'] by auto
qed auto

declare lex.simps [simp del]

definition newReader :: "string \<Rightarrow> reader" where
  "newReader s = \<lparr>rd_buf = [], rd_rest = s\<rparr>"

definition Deserialize :: "string \<Rightarrow> UnitOption list result" where
  "Deserialize f = lex lexNextSection (newReader f)"

definition NewUnitFile :: "string \<Rightarrow> UnitFile result" where
  "NewUnitFile raw = (case Deserialize raw of Inl e \<Rightarrow> Inl e | Inr opts \<Rightarrow> Inr (NewUnitFromOptions opts))"


section \<open>What is written is read back\<close>

definition option_lines :: "UnitOption \<Rightarrow> string list" where
  "option_lines opt = Split (uo_Value opt) CHR 0x0A"

text \<open>A line of a value that goes on in the next line, and one that does not.\<close>

definition continued :: "string \<Rightarrow> bool" where
  "continued l \<longleftrightarrow> l \<noteq> [] \<and> last l = bslash"

definition ends_value :: "string \<Rightarrow> bool" where
  "ends_value l \<longleftrightarrow> l = [] \<or> TrimSpace l \<noteq> [] \<and> last l \<noteq> bslash"

definition name_ok :: "string \<Rightarrow> bool" where
  "name_ok n \<longleftrightarrow> n \<noteq> [] \<and> ascii n \<and> hd n \<notin> {CHR ''['', CHR ''#'', CHR '';''} \<and>
     list_all (\<lambda>c. \<not> IsSpace c \<and> c \<noteq> CHR ''='') n"

definition value_ok :: "string \<Rightarrow> bool" where
  "value_ok v \<longleftrightarrow> finish_value v = v \<and> list_all continued (butlast (Split v CHR 0x0A)) \<and>
     ends_value (last (Split v CHR 0x0A))"

definition option_ok :: "UnitOption \<Rightarrow> bool" where
  "option_ok opt \<longleftrightarrow> name_ok (uo_Name opt) \<and> value_ok (uo_Value opt) \<and>
     CHR '']'' \<notin> set (uo_Section opt) \<and> length (uo_Section opt) + 2 < SYSTEMD_LINE_MAX \<and>
     list_all (\<lambda>l. length (uo_Name opt) + 1 + length l < SYSTEMD_LINE_MAX) (option_lines opt)"

lemma not_too_long:
  assumes "text_of rd = l @ CHR 0x0A # t" "length l < SYSTEMD_LINE_MAX"
  shows "\<not> lineTooLong rd"
proof
  assume l: "lineTooLong rd"
  then have "take SYSTEMD_LINE_MAX (rd_buf rd) = take SYSTEMD_LINE_MAX (text_of rd)"
    by (simp add: lineTooLong_def text_of_def)
  moreover have "CHR 0x0A \<in> set (take SYSTEMD_LINE_MAX (text_of rd))"
    using assms by (simp add: take_Cons')
  ultimately show False using l by (auto simp: lineTooLong_def list_all_iff)
qed

lemma FullRune_ascii: "(of_char c :: nat) < 128 \<Longrightarrow> FullRune (c # r)"
  by (simp add: FullRune_def byte_in_def)

lemma ReadRune_ascii:
  assumes "text_of rd = c # t" "(of_char c :: nat) < 128"
  shows "\<exists>rd'. ReadRune rd = Some ([c], rd') \<and> text_of rd' = t"
proof -
  obtain b where b: "rd_buf (fill_rune rd) = c # b"
  proof (cases "rd_buf rd")
    case Nil
    then have "\<not> FullRune (rd_buf rd)" "rd_rest rd = c # t" using assms(1) by (auto simp: FullRune_def text_of_def)
    then show thesis using that Nil by (simp add: fill_rune_def fill_def bufSize_def Let_def)
  next
    case (Cons x xs)
    then have "x = c" using assms(1) by (simp add: text_of_def)
    then show thesis using that Cons assms(2) by (simp add: fill_rune_def FullRune_ascii)
  qed
  then have "text_of ((fill_rune rd)\<lparr>rd_buf := b\<rparr>) = t"
    using assms(1) fill_rune_text[of rd] by (simp add: text_of_def)
  then show ?thesis using b assms(2) by (simp add: ReadRune_def Let_def)
qed

lemma ReadBytes_line:
  assumes "text_of rd = l @ d # t" "d \<notin> set l"
  shows "\<exists>rd'. ReadBytes d rd = (l @ [d], True, rd') \<and> text_of rd' = t"
proof -
  have "takeWhile (\<lambda>c. c \<noteq> d) (text_of rd) = l" "dropWhile (\<lambda>c. c \<noteq> d) (text_of rd) = d # t" "d \<in> set (text_of rd)"
    using assms by (simp_all add: takeWhile_absent dropWhile_absent)
  with ReadBytes_text[of d rd] show ?thesis by (cases "ReadBytes d rd") auto
qed

lemma toEOL_line:
  assumes "text_of rd = l @ CHR 0x0A # t" "CHR 0x0A \<notin> set l"
  shows "\<exists>rd'. toEOL rd = (l, False, rd') \<and> text_of rd' = t"
  using ReadBytes_line[OF assms] by (auto simp: toEOL_def TrimSuffixByte_def)

text \<open>One step of the lexer that is not stopped by an overlong line.\<close>

lemma lex_next:
  assumes "\<not> lineTooLong rd" "lex_step st rd = Inr (Some st', opt, rd')"
  shows "lex st rd = emit (case opt of None \<Rightarrow> [] | Some x \<Rightarrow> [x]) (lex st' rd')"
  using assms by (subst lex.simps) simp

lemma emit_simps [simp]: "emit [] r = r" "emit xs (emit ys r) = emit (xs @ ys) r" "emit xs (Inr ys) = Inr (xs @ ys)"
  by (cases r; simp add: emit_def)+

lemma read_name_line:
  assumes "text_of rd = n @ CHR ''='' # t" "ascii n" "list_all (\<lambda>c. \<not> IsSpace c \<and> c \<noteq> CHR ''='') n"
  shows "\<exists>rd'. read_name p rd = Inr (p @ n, rd') \<and> text_of rd' = t"
  using assms
proof (induction n arbitrary: p rd)
  case Nil
  then obtain rd' where "ReadRune rd = Some (''='', rd')" "text_of rd' = t"
    using ReadRune_ascii[of rd "CHR ''=''" t] by auto
  then show ?case by (subst read_name.simps) simp
next
  case (Cons c n)
  then obtain rd1 where r: "ReadRune rd = Some ([c], rd1)" "text_of rd1 = n @ CHR ''='' # t"
    using ReadRune_ascii[of rd c] by auto
  have "c \<noteq> CHR 0x0A" "c \<noteq> CHR 0x0D" "c \<noteq> CHR ''=''" using Cons.prems(3) by (auto simp: IsSpace_def)
  then have "read_name p rd = read_name (p @ [c]) rd1" using r by (subst read_name.simps) simp
  with Cons.IH[OF r(2), of "p @ [c]"] Cons.prems show ?case by simp
qed

lemma wide_spaces_wide: "list_all (list_all (\<lambda>c. 128 \<le> (of_char c :: nat))) wide_spaces"
  by (simp add: wide_spaces_def)

lemma ascii_space:
  assumes "(of_char c :: nat) < 128" "w \<in> set white_spaces" "c \<in> set w"
  shows "IsSpace c \<and> w = [c]"
proof -
  have "w \<notin> set wide_spaces" using assms(1,3) wide_spaces_wide by (fastforce simp: list_all_iff)
  then have "w \<in> {[CHR 0x09], [CHR 0x0A], [CHR 0x0B], [CHR 0x0C], [CHR 0x0D], '' ''}"
    using assms(2) by (simp add: white_spaces_def)
  then show ?thesis using assms(3) by (auto simp: IsSpace_def)
qed

lemma TrimSpace_no_space: "ascii n \<Longrightarrow> list_all (\<lambda>c. \<not> IsSpace c) n \<Longrightarrow> TrimSpace n = n"
  by (rule TrimSpace_same) (auto simp: ascii_def list_all_iff dest: ascii_space)

lemma continued_not_blank: "continued l \<Longrightarrow> TrimSpace l \<noteq> []"
proof
  assume "continued l" "TrimSpace l = []"
  moreover have "\<forall>w\<in>set white_spaces. bslash \<notin> set w" using ascii_space[of bslash] by (auto simp: IsSpace_def)
  ultimately show False using TrimSpace_keeps[of bslash l] last_in_set[of l] by (auto simp: continued_def)
qed

lemma ascii_space_rune: "(of_char c :: nat) < 128 \<Longrightarrow> is_space_rune [c] \<longleftrightarrow> IsSpace c"
  using ascii_space[of c "[c]"] by (auto simp: is_space_rune_def white_spaces_def IsSpace_def)

lemma lex_value:
  assumes "ls \<noteq> []" "list_all continued (butlast ls)" "ends_value (last ls)"
    and "\<forall>l\<in>set ls. CHR 0x0A \<notin> set l \<and> length l < SYSTEMD_LINE_MAX"
    and "text_of rd = Join ls newline @ CHR 0x0A # t"
  shows "\<exists>rd'. text_of rd' = t \<and>
    lex (lexOptionValue s n p) rd =
      emit [\<lparr>uo_Section = s, uo_Name = n, uo_Value = finish_value (p @ Join ls newline)\<rparr>]
        (lex (lexNextSectionOrOption s) rd')"
  using assms
proof (induction ls arbitrary: rd p)
  case (Cons l ls)
  let ?more = "if ls = [] then t else Join ls newline @ CHR 0x0A # t"
  have t: "text_of rd = l @ CHR 0x0A # ?more"
    using Cons.prems(5) by (cases ls) (auto simp: newline_def)
  have l: "CHR 0x0A \<notin> set l" "length l < SYSTEMD_LINE_MAX" using Cons.prems(4) by auto
  obtain rd1 where e: "toEOL rd = (l, False, rd1)" "text_of rd1 = ?more" using toEOL_line[OF t l(1)] by blast
  show ?case
  proof (cases "ls = []")
    case True
    then have "ends_value l" using Cons.prems(3) by simp
    then have "lex_step (lexOptionValue s n p) rd = Inr (Some (lexNextSectionOrOption s),
        Some \<lparr>uo_Section = s, uo_Name = n, uo_Value = finish_value (p @ l)\<rparr>, rd1)"
      using e by (auto simp: ends_value_def)
    from lex_next[OF not_too_long[OF t l(2)] this] show ?thesis
      using e(2) True by (auto intro!: exI[of _ rd1])
  next
    case False
    then have "continued l" using Cons.prems(2) by simp
    then have "lex_step (lexOptionValue s n p) rd = Inr (Some (lexOptionValue s n (p @ l @ newline)), None, rd1)"
      using e continued_not_blank[of l] by (auto simp: continued_def)
    from lex_next[OF not_too_long[OF t l(2)] this]
    have "lex (lexOptionValue s n p) rd = lex (lexOptionValue s n (p @ l @ newline)) rd1" by simp
    moreover have "\<exists>rd'. text_of rd' = t \<and> lex (lexOptionValue s n (p @ l @ newline)) rd1 =
        emit [\<lparr>uo_Section = s, uo_Name = n, uo_Value = finish_value ((p @ l @ newline) @ Join ls newline)\<rparr>]
          (lex (lexNextSectionOrOption s) rd')"
      by (rule Cons.IH) (use False Cons.prems e(2) in auto)
    ultimately show ?thesis using False by (cases ls) simp_all
  qed
qed simp

lemma lex_option:
  assumes "option_ok opt" "text_of rd = writeOption opt @ newline @ t"
  shows "\<exists>rd'. text_of rd' = t \<and>
    lex (lexNextSectionOrOption s) rd =
      emit [opt\<lparr>uo_Section := s\<rparr>] (lex (lexNextSectionOrOption s) rd')"
proof -
  let ?n = "uo_Name opt" and ?v = "uo_Value opt" and ?ls = "option_lines opt"
  have n: "name_ok ?n" and v: "value_ok ?v" using assms(1) by (simp_all add: option_ok_def)
  have v': "Join ?ls newline = ?v" unfolding option_lines_def newline_def by (rule Join_Split)
  obtain c n' where c: "?n = c # n'" using n by (auto simp: name_ok_def neq_Nil_conv)
  have len: "\<forall>l\<in>set ?ls. length ?n + 1 + length l < SYSTEMD_LINE_MAX"
    using assms(1) by (simp add: option_ok_def list_all_iff)
  obtain l ls where ls: "?ls = l # ls" by (cases ?ls) (auto simp: option_lines_def)
  obtain more where more: "Join ?ls newline @ CHR 0x0A # t = l @ CHR 0x0A # more"
    using ls by (cases ls) (auto simp: newline_def)
  have t: "text_of rd = ?n @ CHR ''='' # Join ?ls newline @ CHR 0x0A # t"
    using assms(2) v' by (simp add: writeOption_def newline_def)
  have t1: "text_of rd = (?n @ CHR ''='' # l) @ CHR 0x0A # more" using t more by simp
  have ok: "\<not> lineTooLong rd'" if "text_of rd' = text_of rd" for rd'
    by (rule not_too_long[of _ "?n @ CHR ''='' # l" more]) (use that t1 len ls in auto)
  obtain rd0 where "ReadRune rd = Some ([c], rd0)"
    using ReadRune_ascii[of rd c] t c n by (auto simp: name_ok_def)
  moreover have "\<not> IsSpace c" "(of_char c :: nat) < 128" "c \<notin> {CHR ''['', CHR ''#'', CHR '';''}"
    using n c by (auto simp: name_ok_def)
  ultimately have 1: "lex (lexNextSectionOrOption s) rd = lex (lexOptionName s) (fill_rune rd)"
    using lex_next[OF ok[of rd], of "lexNextSectionOrOption s" "lexOptionName s" None "fill_rune rd"]
    by (simp add: ascii_space_rune isComment_def)
  have rt: "text_of (fill_rune rd) = ?n @ CHR ''='' # Join ?ls newline @ CHR 0x0A # t" using t by simp
  obtain rd1 where r: "read_name [] (fill_rune rd) = Inr (?n, rd1)" "text_of rd1 = Join ?ls newline @ CHR 0x0A # t"
    using read_name_line[OF rt, of "[]"] n by (auto simp: name_ok_def)
  have "TrimSpace ?n = ?n" by (rule TrimSpace_no_space) (use n in \<open>auto simp: name_ok_def list_all_iff\<close>)
  then have "lex (lexOptionName s) (fill_rune rd) = lex (lexOptionValue s ?n []) rd1"
    using lex_next[OF ok[of "fill_rune rd"], of "lexOptionName s" "lexOptionValue s ?n []" None rd1] r by simp
  moreover have "\<exists>rd'. text_of rd' = t \<and> lex (lexOptionValue s ?n []) rd1 =
      emit [\<lparr>uo_Section = s, uo_Name = ?n, uo_Value = finish_value ([] @ Join ?ls newline)\<rparr>]
        (lex (lexNextSectionOrOption s) rd')"
  proof (rule lex_value)
    show "\<forall>l\<in>set ?ls. CHR 0x0A \<notin> set l \<and> length l < SYSTEMD_LINE_MAX"
      using len by (auto simp: option_lines_def dest: Split_pieces)
  qed (use v ls r(2) in \<open>auto simp: value_ok_def option_lines_def\<close>)
  moreover have "finish_value ([] @ Join ?ls newline) = ?v" using v v' by (simp add: value_ok_def)
  moreover have o: "opt\<lparr>uo_Section := s\<rparr> = \<lparr>uo_Section = s, uo_Name = ?n, uo_Value = ?v\<rparr>" by (cases opt) simp
  ultimately show ?thesis unfolding 1 o by simp
qed


lemma lex_options:
  assumes "list_all option_ok opts" "text_of rd = concat (map (\<lambda>opt. writeOption opt @ newline) opts) @ t"
    and "list_all (\<lambda>opt. uo_Section opt = s) opts"
  shows "\<exists>rd'. text_of rd' = t \<and>
    lex (lexNextSectionOrOption s) rd = emit opts (lex (lexNextSectionOrOption s) rd')"
  using assms
proof (induction opts arbitrary: rd)
  case (Cons opt opts)
  have ot: "option_ok opt" "text_of rd = writeOption opt @ newline @ (concat (map (\<lambda>opt. writeOption opt @ newline) opts) @ t)"
    using Cons.prems by simp_all
  obtain rd1 where r1: "text_of rd1 = concat (map (\<lambda>opt. writeOption opt @ newline) opts) @ t"
    "lex (lexNextSectionOrOption s) rd = emit [opt\<lparr>uo_Section := s\<rparr>] (lex (lexNextSectionOrOption s) rd1)"
    using lex_option[OF ot] by blast
  obtain rd2 where r2: "text_of rd2 = t"
    "lex (lexNextSectionOrOption s) rd1 = emit opts (lex (lexNextSectionOrOption s) rd2)"
    using Cons.IH[OF _ r1(1)] Cons.prems by auto
  have "opt\<lparr>uo_Section := s\<rparr> = opt" using Cons.prems(3) by (cases opt) simp
  then show ?case using r1 r2 by auto
qed auto

definition section_start :: "lexStep \<Rightarrow> bool" where
  "section_start st \<longleftrightarrow> st = lexNextSection \<or> (\<exists>s. st = lexNextSectionOrOption s)"

lemma lex_header:
  assumes "section_start st" "CHR '']'' \<notin> set sect" "length sect + 2 < SYSTEMD_LINE_MAX"
    and "text_of rd = writeSectionHeader sect @ newline @ t"
  shows "\<exists>rd'. text_of rd' = t \<and> lex st rd = lex (lexNextSectionOrOption sect) rd'"
proof -
  have t: "text_of rd = CHR ''['' # sect @ CHR '']'' # CHR 0x0A # t"
    using assms(4) by (simp add: writeSectionHeader_def newline_def)
  obtain rd1 where r1: "ReadRune rd = Some (''['', rd1)" "text_of rd1 = sect @ CHR '']'' # CHR 0x0A # t"
    using ReadRune_ascii[OF t] by auto
  have "lex st rd = lex lexSectionName rd1"
  proof -
    have "lex_step st rd = Inr (Some lexSectionName, None, rd1)"
      using assms(1) r1 by (auto simp: section_start_def ascii_space_rune IsSpace_def)
    moreover have "\<not> lineTooLong rd"
      by (rule not_too_long[of _ "CHR ''['' # sect @ '']''" t]) (use t assms(3) in auto)
    ultimately show ?thesis using lex_next by fastforce
  qed
  also obtain rd2 where r2: "ReadBytes CHR '']'' rd1 = (sect @ '']'', True, rd2)" "text_of rd2 = CHR 0x0A # t"
    using ReadBytes_line[OF r1(2) assms(2)] by blast
  have "lex lexSectionName rd1 = lex (lexSectionSuffix sect) rd2"
  proof -
    have "lex_step lexSectionName rd1 = Inr (Some (lexSectionSuffix sect), None, rd2)" using r2(1) by simp
    moreover have "\<not> lineTooLong rd1"
      by (rule not_too_long[of _ "sect @ '']''" t]) (use r1(2) assms(3) in auto)
    ultimately show ?thesis using lex_next by fastforce
  qed
  also obtain rd3 where r3: "toEOL rd2 = ([], False, rd3)" "text_of rd3 = t"
    using toEOL_line[of rd2 "[]" t] r2(2) by auto
  have "lex (lexSectionSuffix sect) rd2 = lex (lexNextSectionOrOption sect) rd3"
  proof -
    have "lex_step (lexSectionSuffix sect) rd2 = Inr (Some (lexNextSectionOrOption sect), None, rd3)"
      using r3(1) by simp
    moreover have "\<not> lineTooLong rd2"
      by (rule not_too_long[of _ "[]" t]) (use r2(2) in \<open>auto simp: SYSTEMD_LINE_MAX_def\<close>)
    ultimately show ?thesis using lex_next by fastforce
  qed
  finally show ?thesis using r3(2) by blast
qed

lemma lex_newline:
  assumes "text_of rd = newline @ t"
  shows "\<exists>rd'. text_of rd' = t \<and> lex (lexNextSectionOrOption s) rd = lex (lexNextSectionOrOption s) rd'"
proof -
  obtain rd1 where r1: "ReadRune rd = Some ([CHR 0x0A], rd1)" "text_of rd1 = t"
    using ReadRune_ascii[of rd "CHR 0x0A" t] assms by (auto simp: newline_def)
  then have "lex_step (lexNextSectionOrOption s) rd = Inr (Some (lexNextSectionOrOption s), None, rd1)"
    by (simp add: ascii_space_rune IsSpace_def)
  moreover have "\<not> lineTooLong rd"
    by (rule not_too_long[of _ "[]" t]) (use assms in \<open>auto simp: newline_def SYSTEMD_LINE_MAX_def\<close>)
  ultimately show ?thesis using lex_next r1(2) by fastforce
qed

lemma ReadRune_end: "text_of rd = [] \<Longrightarrow> ReadRune rd = None"
  using fill_rune_text[of rd] by (auto simp: ReadRune_def Let_def text_of_def)

lemma lex_end: "text_of rd = [] \<Longrightarrow> section_start st \<Longrightarrow> lex st rd = Inr []"
proof -
  assume rd: "text_of rd = []" "section_start st"
  then have "\<not> lineTooLong rd" by (auto simp: lineTooLong_def SYSTEMD_LINE_MAX_def text_of_def)
  with rd show ?thesis using ReadRune_end[OF rd(1)] by (subst lex.simps) (auto simp: section_start_def)
qed


text \<open>The sections of a list of options in the order of their first options, and the options by section.\<close>

definition sections_of :: "UnitOption list \<Rightarrow> string list" where
  "sections_of opts = fold (\<lambda>opt ss. if uo_Section opt \<in> set ss then ss else ss @ [uo_Section opt]) opts []"

definition section_options :: "UnitOption list \<Rightarrow> string \<Rightarrow> UnitOption list" where
  "section_options opts s = filter (\<lambda>opt. uo_Section opt = s) opts"

definition by_section :: "UnitOption list \<Rightarrow> UnitOption list" where
  "by_section opts = concat (map (section_options opts) (sections_of opts))"

lemma sections_of_snoc:
  "sections_of (opts @ [opt]) =
     (if uo_Section opt \<in> set (sections_of opts) then sections_of opts else sections_of opts @ [uo_Section opt])"
  by (simp add: sections_of_def)

lemma sections_of_set: "set (sections_of opts) = uo_Section ` set opts \<and> distinct (sections_of opts)"
proof (induction opts rule: rev_induct)
  case (snoc opt opts)
  then show ?case by (auto simp: sections_of_snoc)
qed (simp add: sections_of_def)

lemma Serialize_fold:
  "fold Serialize_step opts ([], []) = (idx, sects) \<Longrightarrow>
     sects = sections_of opts \<and>
     map_of idx = (\<lambda>s. if s \<in> set (sections_of opts) then Some (section_options opts s) else None)"
proof (induction opts arbitrary: idx sects rule: rev_induct)
  case Nil
  then show ?case by (auto simp: sections_of_def)
next
  case (snoc opt opts)
  obtain idx1 sects1 where f: "fold Serialize_step opts ([], []) = (idx1, sects1)" by fastforce
  note ih = snoc.IH[OF f]
  have r: "idx = gput (uo_Section opt) ((case map_of idx1 (uo_Section opt) of None \<Rightarrow> [] | Some os \<Rightarrow> os) @ [opt]) idx1"
    "sects = (if gmem (uo_Section opt) idx1 then sects1 else sects1 @ [uo_Section opt])"
    using snoc.prems f by (simp_all add: Serialize_step_def[of opt] Let_def)
  have none: "section_options opts (uo_Section opt) = []" if "uo_Section opt \<notin> set (sections_of opts)"
    using that sections_of_set[of opts] by (auto simp: section_options_def filter_empty_conv) (metis imageI)
  have "section_options (opts @ [opt]) s = section_options opts s @ (if uo_Section opt = s then [opt] else [])" for s
    by (simp add: section_options_def)
  then show ?case
    using ih none r by (auto simp: sections_of_snoc gmem_def fun_eq_iff)
qed

lemma lex_sections:
  assumes "section_start st" "list_all option_ok opts" "set sects \<subseteq> set (sections_of opts)"
    and idx: "\<And>s. s \<in> set (sections_of opts) \<Longrightarrow> map_of idx s = Some (section_options opts s)"
    and "text_of rd = Serialize_sections idx sects"
  shows "lex st rd = Inr (concat (map (section_options opts) sects))"
  using assms(1,3,5)
proof (induction sects arbitrary: st rd)
  case Nil
  then show ?case using lex_end by simp
next
  case (Cons s sects)
  let ?os = "section_options opts s"
  let ?tail = "(if sects \<noteq> [] then newline else []) @ Serialize_sections idx sects"
  have s: "s \<in> set (sections_of opts)" using Cons.prems(2) by simp
  then obtain o0 where "o0 \<in> set opts" "uo_Section o0 = s" using sections_of_set[of opts] by auto
  then have sec: "CHR '']'' \<notin> set s" "length s + 2 < SYSTEMD_LINE_MAX"
    using assms(2) by (auto simp: list_all_iff option_ok_def)
  have t: "text_of rd = writeSectionHeader s @ newline @ (concat (map (\<lambda>opt. writeOption opt @ newline) ?os) @ ?tail)"
    using Cons.prems(3) idx[OF s] by simp
  obtain rd1 where r1: "text_of rd1 = concat (map (\<lambda>opt. writeOption opt @ newline) ?os) @ ?tail"
    "lex st rd = lex (lexNextSectionOrOption s) rd1"
    using lex_header[OF Cons.prems(1) sec t] by blast
  have "list_all option_ok ?os" "list_all (\<lambda>opt. uo_Section opt = s) ?os"
    using assms(2) by (auto simp: section_options_def list_all_iff)
  then obtain rd2 where r2: "text_of rd2 = ?tail"
    "lex (lexNextSectionOrOption s) rd1 = emit ?os (lex (lexNextSectionOrOption s) rd2)"
    using lex_options[OF _ r1(1)] by blast
  obtain rd3 where r3: "text_of rd3 = Serialize_sections idx sects"
    "lex (lexNextSectionOrOption s) rd2 = lex (lexNextSectionOrOption s) rd3"
  proof (cases "sects = []")
    case True
    then show thesis using that[of rd2] r2(1) by simp
  next
    case False
    then show thesis using that lex_newline[of rd2 "Serialize_sections idx sects" s] r2(1) by auto
  qed
  have "section_start (lexNextSectionOrOption s)" by (simp add: section_start_def)
  then have "lex (lexNextSectionOrOption s) rd3 = Inr (concat (map (section_options opts) sects))"
    using Cons.IH[OF _ _ r3(1)] Cons.prems(2) by simp
  then show ?case using r1(2) r2(2) r3(2) by simp
qed

theorem Deserialize_Serialize:
  assumes "list_all option_ok opts"
  shows "Deserialize (Serialize opts) = Inr (by_section opts)"
proof (cases "opts = []")
  case True
  then show ?thesis
    using lex_end[of "newReader []" lexNextSection]
    by (simp add: Deserialize_def Serialize_def by_section_def sections_of_def newReader_def text_of_def section_start_def)
next
  case False
  obtain idx sects where f: "fold Serialize_step opts ([], []) = (idx, sects)" by fastforce
  note sp = Serialize_fold[OF f]
  have "lex lexNextSection (newReader (Serialize opts)) = Inr (concat (map (section_options opts) sects))"
  proof (rule lex_sections)
    show "text_of (newReader (Serialize opts)) = Serialize_sections idx sects"
      using False f by (simp add: newReader_def text_of_def Serialize_def)
  qed (use sp assms in \<open>auto simp: section_start_def\<close>)
  then show ?thesis using sp by (simp add: Deserialize_def by_section_def)
qed

text \<open>Grouping the options by section does not change the text.\<close>

lemma sections_of_concat:
  assumes "distinct ss" "\<forall>s\<in>set ss. f s \<noteq> [] \<and> (\<forall>opt\<in>set (f s). uo_Section opt = s)"
  shows "sections_of (concat (map f ss)) = ss"
  using assms
proof (induction ss rule: rev_induct)
  case (snoc s ss)
  have keep: "sections_of (os @ xs) = sections_of os @ [s]"
    if "s \<notin> set (sections_of os)" "xs \<noteq> []" "\<forall>opt\<in>set xs. uo_Section opt = s" for os xs
    using that(2,3)
  proof (induction xs rule: rev_nonempty_induct)
    case (single x)
    then show ?case using that(1) by (simp add: sections_of_snoc)
  next
    case (snoc x xs)
    then show ?case using sections_of_snoc[of "os @ xs" x] by simp
  qed
  show ?case using snoc keep[of "concat (map f ss)" "f s"] by simp
qed (simp add: sections_of_def)

lemma section_options_by_section: "section_options (by_section opts) s = section_options opts s"
proof -
  have f: "filter (\<lambda>opt. uo_Section opt = s) (concat (map (section_options opts) ss)) =
      (if s \<in> set ss then section_options opts s else [])" if "distinct ss" for ss
    using that by (induction ss) (auto simp: section_options_def filter_empty_conv)
  have "section_options opts s = []" if "s \<notin> set (sections_of opts)"
    using that sections_of_set[of opts] by (auto simp: section_options_def filter_empty_conv)
  with f sections_of_set[of opts] show ?thesis by (auto simp: by_section_def section_options_def)
qed

lemma sections_of_by_section: "sections_of (by_section opts) = sections_of opts"
  unfolding by_section_def
  by (rule sections_of_concat)
    (use sections_of_set[of opts] in \<open>auto simp: section_options_def filter_empty_conv\<close>)

lemma Serialize_cong:
  assumes "sections_of opts = sections_of opts'" "\<And>s. section_options opts s = section_options opts' s"
  shows "Serialize opts = Serialize opts'"
proof -
  obtain idx sects where f: "fold Serialize_step opts ([], []) = (idx, sects)" by fastforce
  obtain idx' sects' where f': "fold Serialize_step opts' ([], []) = (idx', sects')" by fastforce
  note sp = Serialize_fold[OF f] and sp' = Serialize_fold[OF f']
  have m: "map_of idx = map_of idx'" using sp sp' assms by (simp add: fun_eq_iff)
  have "Serialize_sections idx ss = Serialize_sections idx' ss" for ss by (induction ss) (simp_all add: m)
  moreover have "opts = [] \<longleftrightarrow> opts' = []"
    using assms(1) sections_of_set[of opts] sections_of_set[of opts'] by (metis image_is_empty set_empty)
  ultimately show ?thesis using f f' sp sp' assms(1) by (simp add: Serialize_def)
qed

lemma Serialize_by_section: "Serialize (by_section opts) = Serialize opts"
  by (rule Serialize_cong[OF sections_of_by_section section_options_by_section])

text \<open>Options that are grouped by section already are read back as they were.\<close>

definition grouped :: "UnitOption list \<Rightarrow> bool" where
  "grouped opts \<longleftrightarrow> by_section opts = opts"

lemma NewUnitFile_String:
  assumes "list_all option_ok opts" "grouped opts"
  shows "NewUnitFile (uf_String (NewUnitFromOptions opts)) = Inr (NewUnitFromOptions opts)"
  using Deserialize_Serialize[OF assms(1)] assms(2)
  by (simp add: NewUnitFile_def uf_String_def NewUnitFromOptions_def grouped_def)

end
