(* ===== verification/Registry_Etcd.thy ===== *)
theory Registry_Etcd
  imports Etcd_Client Unit_Lexer Registry_Interface
begin

text \<open>
  The registry kept in etcd: \<open>registry/etcd.go\<close>, \<open>registry.go\<close>, \<open>job.go\<close>, \<open>job_state.go\<close>, \<open>unit.go\<close>,
  \<open>unit_state.go\<close>, \<open>machine.go\<close>, \<open>version.go\<close> and the parsing of \<open>event.go\<close>, function by function, over
  an arbitrary client of etcd. Structures are stored as the JSON text of their fields. Metrics and
  logging are left out; contexts carry nothing.
\<close>

section \<open>Keys and stored structures\<close>

definition DefaultKeyPrefix :: string where "DefaultKeyPrefix = ''/_coreos.com/fleet/''"
definition jobPrefix :: string where "jobPrefix = ''job''"
definition unitPrefix :: string where "unitPrefix = ''/unit/''"
definition statePrefix :: string where "statePrefix = ''/state/''"
definition statesPrefix :: string where "statesPrefix = ''/states/''"
definition machinePrefix :: string where "machinePrefix = ''machines''"

definition prefixed :: "string \<Rightarrow> string list \<Rightarrow> string" where
  "prefixed keyPrefix p = path_Join [keyPrefix, path_Join p]"

definition marshal :: "json \<Rightarrow> string" where
  "marshal v = json_print v"

text \<open>Decoding the text of a structure: nothing when it is no JSON or a field has the wrong type.\<close>

definition unmarshal :: "((string \<times> json) list \<Rightarrow> 'a option) \<Rightarrow> string \<Rightarrow> 'a option" where
  "unmarshal dec val = Option.bind (json_parse val) (\<lambda>v. Option.bind (struct_members v) dec)"

definition deserialize_error :: go_error where
  "deserialize_error = OtherError ''unable to JSON-deserialize object''"

record jobModel =
  jm_Name :: string
  jm_UnitHash :: Hash

definition enc_jobModel :: "jobModel \<Rightarrow> json" where
  "enc_jobModel jm = JObj [(''Name'', JStr (jm_Name jm)), (''UnitHash'', enc_array (jm_UnitHash jm))]"

definition dec_jobModel :: "(string \<times> json) list \<Rightarrow> jobModel option" where
  "dec_jobModel ms =
     Option.bind (decode_field dec_string ''Name'' [] ms) (\<lambda>n.
       map_option (\<lambda>h. \<lparr>jm_Name = n, jm_UnitHash = h\<rparr>)
         (decode_field dec_array ''UnitHash'' (replicate sha1_Size 0) ms))"

record unitModel =
  um_Raw :: string

definition enc_unitModel :: "unitModel \<Rightarrow> json" where
  "enc_unitModel um = JObj [(''Raw'', JStr (um_Raw um))]"

definition dec_unitModel :: "(string \<times> json) list \<Rightarrow> unitModel option" where
  "dec_unitModel ms = map_option (\<lambda>raw. \<lparr>um_Raw = raw\<rparr>) (decode_field dec_string ''Raw'' [] ms)"

definition zero_machine :: MachineState where
  "zero_machine = \<lparr>ms_ID = [], ms_PublicIP = [], ms_Metadata = [], ms_Capabilities = [], ms_Version = []\<rparr>"

definition enc_machine :: "MachineState \<Rightarrow> json" where
  "enc_machine ms =
     JObj [(''ID'', JStr (ms_ID ms)), (''PublicIP'', JStr (ms_PublicIP ms)), (''Metadata'', enc_map JStr (ms_Metadata ms)),
           (''Capabilities'', enc_map JBool (ms_Capabilities ms)), (''Version'', JStr (ms_Version ms))]"

definition dec_machine :: "MachineState \<Rightarrow> (string \<times> json) list \<Rightarrow> MachineState option" where
  "dec_machine old ms =
     Option.bind (decode_field dec_string ''ID'' (ms_ID old) ms) (\<lambda>i.
     Option.bind (decode_field dec_string ''PublicIP'' (ms_PublicIP old) ms) (\<lambda>p.
     Option.bind (decode_field (dec_map dec_string []) ''Metadata'' (ms_Metadata old) ms) (\<lambda>md.
     Option.bind (decode_field (dec_map dec_bool False) ''Capabilities'' (ms_Capabilities old) ms) (\<lambda>c.
     map_option (\<lambda>v. \<lparr>ms_ID = i, ms_PublicIP = p, ms_Metadata = md, ms_Capabilities = c, ms_Version = v\<rparr>)
       (decode_field dec_string ''Version'' (ms_Version old) ms)))))"

record unitStateModel =
  usm_LoadState :: string
  usm_ActiveState :: string
  usm_SubState :: string
  usm_MachineState :: "MachineState option"
  usm_UnitHash :: string

definition enc_unitStateModel :: "unitStateModel \<Rightarrow> json" where
  "enc_unitStateModel usm =
     JObj [(''loadState'', JStr (usm_LoadState usm)), (''activeState'', JStr (usm_ActiveState usm)),
           (''subState'', JStr (usm_SubState usm)),
           (''machineState'', case usm_MachineState usm of None \<Rightarrow> JNull | Some ms \<Rightarrow> enc_machine ms),
           (''unitHash'', JStr (usm_UnitHash usm))]"

definition dec_machine_pointer :: "MachineState option field_decoder" where
  "dec_machine_pointer old v =
     (case v of
        JNull \<Rightarrow> Some None
      | JObj ms \<Rightarrow> map_option Some (dec_machine (case old of None \<Rightarrow> zero_machine | Some m \<Rightarrow> m) ms)
      | _ \<Rightarrow> None)"

definition dec_unitStateModel :: "(string \<times> json) list \<Rightarrow> unitStateModel option" where
  "dec_unitStateModel ms =
     Option.bind (decode_field dec_string ''loadState'' [] ms) (\<lambda>l.
     Option.bind (decode_field dec_string ''activeState'' [] ms) (\<lambda>a.
     Option.bind (decode_field dec_string ''subState'' [] ms) (\<lambda>s.
     Option.bind (decode_field dec_machine_pointer ''machineState'' None ms) (\<lambda>m.
     map_option (\<lambda>h. \<lparr>usm_LoadState = l, usm_ActiveState = a, usm_SubState = s, usm_MachineState = m, usm_UnitHash = h\<rparr>)
       (decode_field dec_string ''unitHash'' [] ms)))))"

section \<open>Unit states\<close>

definition modelToUnitState :: "unitStateModel \<Rightarrow> string \<Rightarrow> UnitState" where
  "modelToUnitState usm name =
     \<lparr>us_LoadState = usm_LoadState usm, us_ActiveState = usm_ActiveState usm, us_SubState = usm_SubState usm,
      us_MachineID = (case usm_MachineState usm of None \<Rightarrow> [] | Some ms \<Rightarrow> ms_ID ms),
      us_UnitHash = usm_UnitHash usm, us_UnitName = name\<rparr>"

definition unitStateToModel :: "UnitState \<Rightarrow> unitStateModel option" where
  "unitStateToModel us =
     (if us_UnitHash us = [] then None
      else Some
        \<lparr>usm_LoadState = us_LoadState us, usm_ActiveState = us_ActiveState us, usm_SubState = us_SubState us,
         usm_MachineState = (if us_MachineID us \<noteq> [] then Some (zero_machine\<lparr>ms_ID := us_MachineID us\<rparr>) else None),
         usm_UnitHash = us_UnitHash us\<rparr>)"

definition legacyUnitStatePath :: "string \<Rightarrow> string \<Rightarrow> string" where
  "legacyUnitStatePath keyPrefix jobName = prefixed keyPrefix [statePrefix, jobName]"

definition unitStatesNamespace :: "string \<Rightarrow> string \<Rightarrow> string" where
  "unitStatesNamespace keyPrefix jobName = prefixed keyPrefix [statesPrefix, jobName]"

definition unitStatePath :: "string \<Rightarrow> string \<Rightarrow> string \<Rightarrow> string" where
  "unitStatePath keyPrefix machID jobName = path_Join [unitStatesNamespace keyPrefix jobName, machID]"

type_synonym MUSKey = "string \<times> string"

definition MUSKeys_Less :: "MUSKey \<Rightarrow> MUSKey \<Rightarrow> bool" where
  "MUSKeys_Less mi mj \<longleftrightarrow> fst mi < fst mj \<or> (fst mi = fst mj \<and> snd mi < snd mj)"

text \<open>The unit state a node holds for a unit of the given name, if it can be read.\<close>

definition node_state :: "string \<Rightarrow> Node \<Rightarrow> UnitState option" where
  "node_state name node =
     map_option (\<lambda>usm. modelToUnitState usm name) (unmarshal dec_unitStateModel (nd_Value node))"

definition add_state :: "string \<Rightarrow> Node \<Rightarrow> (MUSKey, UnitState) gmap \<Rightarrow> (MUSKey, UnitState) gmap" where
  "add_state name node mus =
     (case node_state name node of
        None \<Rightarrow> mus
      | Some us \<Rightarrow> gput (name, snd (path_Split (nd_Key node))) us mus)"

definition add_states :: "Node \<Rightarrow> (MUSKey, UnitState) gmap \<Rightarrow> (MUSKey, UnitState) gmap" where
  "add_states dir mus = fold (add_state (snd (path_Split (nd_Key dir)))) (nd_Nodes dir) mus"

definition statesByMUSKey :: "'e KeysAPI \<Rightarrow> string \<Rightarrow> 'e \<Rightarrow> (MUSKey, UnitState) gmap reply" where
  "statesByMUSKey api keyPrefix e =
     (case k_Get api (prefixed keyPrefix [statesPrefix]) (getOptions\<lparr>go_Recursive := True\<rparr>) e of
        Inl err \<Rightarrow> if isEtcdError err ErrorCodeKeyNotFound then Inr [] else Inl err
      | Inr res \<Rightarrow> Inr (fold add_states (nd_Nodes res) []))"

definition stateByMUSKey :: "'e KeysAPI \<Rightarrow> string \<Rightarrow> string \<Rightarrow> 'e \<Rightarrow> UnitState option reply" where
  "stateByMUSKey api keyPrefix uName e =
     (case k_Get api (prefixed keyPrefix [statesPrefix]) (getOptions\<lparr>go_Recursive := True\<rparr>) e of
        Inl err \<Rightarrow> if isEtcdError err ErrorCodeKeyNotFound then Inr None else Inl err
      | Inr res \<Rightarrow>
          Inr (case List.find (\<lambda>us. us \<noteq> None)
                      (concat (map (\<lambda>dir. map (node_state uName) (nd_Nodes dir))
                         (filter (\<lambda>dir. snd (path_Split (nd_Key dir)) = uName) (nd_Nodes res)))) of
                 None \<Rightarrow> None
               | Some us \<Rightarrow> us))"

definition er_UnitState :: "'e KeysAPI \<Rightarrow> string \<Rightarrow> string \<Rightarrow> 'e \<Rightarrow> UnitState option reply" where
  "er_UnitState api keyPrefix name e = stateByMUSKey api keyPrefix name e"

definition er_UnitStates :: "(MUSKey list \<Rightarrow> MUSKey list) \<Rightarrow> 'e KeysAPI \<Rightarrow> string \<Rightarrow> 'e \<Rightarrow> UnitState list reply" where
  \<comment> \<open>the first argument is the sorting routine behind \<open>sort.Sort\<close>\<close>
  "er_UnitStates srt api keyPrefix e =
     (case statesByMUSKey api keyPrefix e of
        Inl err \<Rightarrow> Inl err
      | Inr mus \<Rightarrow> Inr (map (\<lambda>key. the (map_of mus key)) (srt (gkeys mus))))"

definition getUnitState_etcd :: "'e KeysAPI \<Rightarrow> string \<Rightarrow> string \<Rightarrow> string \<Rightarrow> 'e \<Rightarrow> UnitState option reply" where
  "getUnitState_etcd api keyPrefix uName machID e =
     (case k_Get api (unitStatePath keyPrefix machID uName) getOptions e of
        Inl err \<Rightarrow> if isEtcdError err ErrorCodeKeyNotFound then Inr None else Inl err
      | Inr res \<Rightarrow>
          (case unmarshal dec_unitStateModel (nd_Value res) of
             None \<Rightarrow> Inl deserialize_error
           | Some usm \<Rightarrow> Inr (Some (modelToUnitState usm uName))))"

definition er_SaveUnitState :: "'e KeysAPI \<Rightarrow> string \<Rightarrow> string \<Rightarrow> UnitState \<Rightarrow> Duration \<Rightarrow> 'e \<Rightarrow> 'e" where
  "er_SaveUnitState api keyPrefix jobName us ttl e =
     (case unitStateToModel us of
        None \<Rightarrow> e
      | Some usm \<Rightarrow>
          let val = marshal (enc_unitStateModel usm); opts = setOptions\<lparr>so_TTL := ttl\<rparr>;
              (_, e1) = k_Set api (legacyUnitStatePath keyPrefix jobName) val opts e;
              (_, e2) = k_Set api (unitStatePath keyPrefix (us_MachineID us) jobName) val opts e1
          in e2)"

text \<open>The error of a call that ignores a missing key.\<close>

definition unless_missing :: "'a reply \<Rightarrow> go_error option" where
  "unless_missing r =
     (case r of Inr _ \<Rightarrow> None | Inl err \<Rightarrow> if isEtcdError err ErrorCodeKeyNotFound then None else Some err)"

definition er_RemoveUnitState :: "'e KeysAPI \<Rightarrow> string \<Rightarrow> string \<Rightarrow> 'e \<Rightarrow> go_error option \<times> 'e" where
  "er_RemoveUnitState api keyPrefix jobName e =
     (let (r1, e1) = k_Delete api (legacyUnitStatePath keyPrefix jobName) deleteOptions e
      in case unless_missing r1 of
           Some err \<Rightarrow> (Some err, e1)
         | None \<Rightarrow>
             (let (r2, e2) = k_Delete api (unitStatesNamespace keyPrefix jobName) (deleteOptions\<lparr>do_Recursive := True\<rparr>) e1
              in (unless_missing r2, e2)))"


section \<open>Units and the schedule\<close>

definition getValueInDir :: "Node \<Rightarrow> string \<Rightarrow> string" where
  "getValueInDir dir key =
     (case List.find (\<lambda>node. nd_Key node = path_Join [nd_Key dir, key]) (nd_Nodes dir) of
        None \<Rightarrow> []
      | Some node \<Rightarrow> nd_Value node)"

definition dirToTargetMachineID :: "Node \<Rightarrow> string" where
  "dirToTargetMachineID dir = getValueInDir dir ''target''"

definition dirToTargetState :: "Node \<Rightarrow> string" where
  "dirToTargetState dir = getValueInDir dir ''target-state''"

definition dirToHeartbeat :: "Node \<Rightarrow> string" where
  "dirToHeartbeat dir = getValueInDir dir ''job-state''"

definition determineJobState :: "string \<Rightarrow> string \<Rightarrow> UnitState option \<Rightarrow> JobState" where
  "determineJobState heartbeat tgt us =
     (if tgt = [] \<or> us = None then JobStateInactive
      else if heartbeat \<noteq> tgt then JobStateLoaded
      else JobStateLaunched)"

definition hashedUnitPath :: "string \<Rightarrow> Hash \<Rightarrow> string" where
  "hashedUnitPath keyPrefix hash = prefixed keyPrefix [unitPrefix, Hash_String hash]"

definition storeOrGetUnitFile :: "'e KeysAPI \<Rightarrow> string \<Rightarrow> UnitFile \<Rightarrow> 'e \<Rightarrow> go_error option \<times> 'e" where
  "storeOrGetUnitFile api keyPrefix u e =
     (let val = marshal (enc_unitModel \<lparr>um_Raw = uf_String u\<rparr>)
      in case k_Set api (hashedUnitPath keyPrefix (uf_Hash u)) val (setOptions\<lparr>so_PrevExist := PrevNoExist\<rparr>) e of
           (Inl err, e') \<Rightarrow> (if isEtcdError err ErrorCodeNodeExist then None else Some err, e')
         | (Inr _, e') \<Rightarrow> (None, e'))"

definition unitFromEtcdNode :: "Node \<Rightarrow> UnitFile option" where
  "unitFromEtcdNode node =
     (case unmarshal dec_unitModel (nd_Value node) of
        None \<Rightarrow> None
      | Some um \<Rightarrow> (case NewUnitFile (um_Raw um) of Inl err \<Rightarrow> None | Inr u \<Rightarrow> Some u))"

definition getUnitByHash :: "'e KeysAPI \<Rightarrow> string \<Rightarrow> 'e \<Rightarrow> Hash \<Rightarrow> UnitFile option" where
  "getUnitByHash api keyPrefix e hash =
     (case k_Get api (hashedUnitPath keyPrefix hash) (getOptions\<lparr>go_Recursive := True\<rparr>) e of
        Inl err \<Rightarrow> None
      | Inr resp \<Rightarrow> unitFromEtcdNode resp)"

definition add_unit_by_hash :: "Node \<Rightarrow> (string, UnitFile) gmap \<Rightarrow> (string, UnitFile) gmap" where
  "add_unit_by_hash node hashToUnit =
     (let stringHash = last (Split (nd_Key node) slash)
      in case HashFromHexString stringHash of
           Inl err \<Rightarrow> hashToUnit
         | Inr hash \<Rightarrow>
             (case unitFromEtcdNode node of None \<Rightarrow> hashToUnit | Some u \<Rightarrow> gput stringHash u hashToUnit))"

definition getAllUnitsHashMap :: "'e KeysAPI \<Rightarrow> string \<Rightarrow> 'e \<Rightarrow> (string, UnitFile) gmap reply" where
  "getAllUnitsHashMap api keyPrefix e =
     (case k_Get api (prefixed keyPrefix [unitPrefix]) (getOptions\<lparr>go_Recursive := True, go_Quorum := True\<rparr>) e of
        Inl err \<Rightarrow> Inl err
      | Inr resp \<Rightarrow> Inr (fold add_unit_by_hash (nd_Nodes resp) []))"

definition getUnitFromObjectNode :: "(Hash \<Rightarrow> UnitFile option) \<Rightarrow> Node \<Rightarrow> Unit option reply" where
  "getUnitFromObjectNode unitHashLookupFunc node =
     (case unmarshal dec_jobModel (nd_Value node) of
        None \<Rightarrow> Inl deserialize_error
      | Some jm \<Rightarrow>
          Inr (map_option (\<lambda>u. \<lparr>u_Name = jm_Name jm, u_Unit = u, u_TargetState = []\<rparr>) (unitHashLookupFunc (jm_UnitHash jm))))"

definition dirToUnit :: "(Hash \<Rightarrow> UnitFile option) \<Rightarrow> Node \<Rightarrow> Unit option reply" where
  "dirToUnit unitHashLookupFunc dir =
     (let objKey = path_Join [nd_Key dir, ''object''];
          objNode = fold (\<lambda>node obj. if nd_Key node = objKey then Some node else obj) (nd_Nodes dir) None
      in case objNode of
           None \<Rightarrow> Inr None
         | Some node \<Rightarrow>
             (case getUnitFromObjectNode unitHashLookupFunc node of
                Inl err \<Rightarrow> Inl err
              | Inr None \<Rightarrow> Inl (OtherError (''unable to parse Unit in Registry at key '' @ objKey))
              | Inr (Some u) \<Rightarrow>
                  let tgtstate = dirToTargetState dir in
                  if tgtstate = [] then Inr (Some u)
                  else
                    (case ParseJobState tgtstate of
                       (ts, Some err) \<Rightarrow> Inl (OtherError (''failed to parse Unit('' @ u_Name u @ '') target-state: '' @ err))
                     | (ts, None) \<Rightarrow> Inr (Some (u\<lparr>u_TargetState := ts\<rparr>)))))"

definition er_Schedule :: "'e KeysAPI \<Rightarrow> string \<Rightarrow> 'e \<Rightarrow> ScheduledUnit list reply" where
  "er_Schedule api keyPrefix e =
     (case k_Get api (prefixed keyPrefix [jobPrefix]) (getOptions\<lparr>go_Sort := True, go_Recursive := True\<rparr>) e of
        Inl err \<Rightarrow> if isEtcdError err ErrorCodeKeyNotFound then Inr [] else Inl err
      | Inr res \<Rightarrow>
          let name = (\<lambda>dir. snd (path_Split (nd_Key dir)));
              heartbeats = gput_all name dirToHeartbeat (nd_Nodes res) [];
              uMap = gput_all name
                (\<lambda>dir. \<lparr>su_Name = name dir, su_State = None, su_TargetMachineID = dirToTargetMachineID dir\<rparr>) (nd_Nodes res) []
          in case statesByMUSKey api keyPrefix e of
               Inl err \<Rightarrow> Inl err
             | Inr states \<Rightarrow>
                 Inr (map (\<lambda>n.
                     let su = the (map_of uMap n);
                         heartbeat = (case map_of heartbeats n of None \<Rightarrow> [] | Some h \<Rightarrow> h);
                         js = determineJobState heartbeat (su_TargetMachineID su) (map_of states (n, su_TargetMachineID su))
                     in su\<lparr>su_State := Some js\<rparr>) (sort (gkeys uMap))))"

definition er_Units :: "'e KeysAPI \<Rightarrow> string \<Rightarrow> 'e \<Rightarrow> Unit list reply" where
  "er_Units api keyPrefix e =
     (case k_Get api (prefixed keyPrefix [jobPrefix]) (getOptions\<lparr>go_Sort := True, go_Recursive := True\<rparr>) e of
        Inl err \<Rightarrow> if isEtcdError err ErrorCodeKeyNotFound then Inr [] else Inl err
      | Inr res \<Rightarrow>
          (case getAllUnitsHashMap api keyPrefix e of
             Inl err \<Rightarrow> Inl err
           | Inr hashToUnit \<Rightarrow>
               Inr (concat (map (\<lambda>dir.
                   case dirToUnit (\<lambda>hash. map_of hashToUnit (Hash_String hash)) dir of
                     Inl err \<Rightarrow> []
                   | Inr None \<Rightarrow> []
                   | Inr (Some u) \<Rightarrow> [u]) (nd_Nodes res)))))"

definition er_Unit :: "'e KeysAPI \<Rightarrow> string \<Rightarrow> string \<Rightarrow> 'e \<Rightarrow> Unit option reply" where
  "er_Unit api keyPrefix name e =
     (case k_Get api (prefixed keyPrefix [jobPrefix, name]) (getOptions\<lparr>go_Recursive := True\<rparr>) e of
        Inl err \<Rightarrow> if isEtcdError err ErrorCodeKeyNotFound then Inr None else Inl err
      | Inr res \<Rightarrow> dirToUnit (getUnitByHash api keyPrefix e) res)"

definition er_ScheduledUnit :: "'e KeysAPI \<Rightarrow> string \<Rightarrow> string \<Rightarrow> 'e \<Rightarrow> ScheduledUnit option reply" where
  "er_ScheduledUnit api keyPrefix name e =
     (case k_Get api (prefixed keyPrefix [jobPrefix, name]) (getOptions\<lparr>go_Recursive := True\<rparr>) e of
        Inl err \<Rightarrow> if isEtcdError err ErrorCodeKeyNotFound then Inr None else Inl err
      | Inr res \<Rightarrow>
          let tgt = dirToTargetMachineID res in
          (case (if tgt \<noteq> [] then getUnitState_etcd api keyPrefix name tgt e else Inr None) of
             Inl err \<Rightarrow> Inl err
           | Inr us \<Rightarrow>
               Inr (Some \<lparr>su_Name = name, su_State = Some (determineJobState (dirToHeartbeat res) tgt us),
                          su_TargetMachineID = tgt\<rparr>)))"

definition jobTargetAgentPath :: "string \<Rightarrow> string \<Rightarrow> string" where
  "jobTargetAgentPath keyPrefix jobName = prefixed keyPrefix [jobPrefix, jobName, ''target'']"

definition jobTargetStatePath :: "string \<Rightarrow> string \<Rightarrow> string" where
  "jobTargetStatePath keyPrefix jobName = prefixed keyPrefix [jobPrefix, jobName, ''target-state'']"

definition jobHeartbeatPath :: "string \<Rightarrow> string \<Rightarrow> string" where
  "jobHeartbeatPath keyPrefix jobName = prefixed keyPrefix [jobPrefix, jobName, ''job-state'']"

text \<open>The error of a call that has no other result.\<close>

definition error_of :: "'a reply \<times> 'e \<Rightarrow> go_error option \<times> 'e" where
  "error_of r = (case r of (Inl err, e') \<Rightarrow> (Some err, e') | (Inr _, e') \<Rightarrow> (None, e'))"

definition er_UnscheduleUnit :: "'e KeysAPI \<Rightarrow> string \<Rightarrow> string \<Rightarrow> string \<Rightarrow> 'e \<Rightarrow> go_error option \<times> 'e" where
  "er_UnscheduleUnit api keyPrefix name machID e =
     (let (r, e') = k_Delete api (jobTargetAgentPath keyPrefix name) (deleteOptions\<lparr>do_PrevValue := machID\<rparr>) e
      in (unless_missing r, e'))"

definition er_DestroyUnit :: "'e KeysAPI \<Rightarrow> string \<Rightarrow> string \<Rightarrow> 'e \<Rightarrow> go_error option \<times> 'e" where
  "er_DestroyUnit api keyPrefix name e =
     (case k_Delete api (prefixed keyPrefix [jobPrefix, name]) (deleteOptions\<lparr>do_Recursive := True\<rparr>) e of
        (Inl err, e') \<Rightarrow>
          (Some (if isEtcdError err ErrorCodeKeyNotFound then OtherError ''job does not exist'' else err), e')
      | (Inr _, e') \<Rightarrow> (None, e'))"

definition er_SetUnitTargetState :: "'e KeysAPI \<Rightarrow> string \<Rightarrow> string \<Rightarrow> JobState \<Rightarrow> 'e \<Rightarrow> go_error option \<times> 'e" where
  "er_SetUnitTargetState api keyPrefix name state e =
     error_of (k_Set api (jobTargetStatePath keyPrefix name) state setOptions e)"

definition er_CreateUnit :: "'e KeysAPI \<Rightarrow> string \<Rightarrow> Unit \<Rightarrow> 'e \<Rightarrow> go_error option \<times> 'e" where
  "er_CreateUnit api keyPrefix u e =
     (case storeOrGetUnitFile api keyPrefix (u_Unit u) e of
        (Some err, e1) \<Rightarrow> (Some err, e1)
      | (None, e1) \<Rightarrow>
          let val = marshal (enc_jobModel \<lparr>jm_Name = u_Name u, jm_UnitHash = uf_Hash (u_Unit u)\<rparr>)
          in case k_Set api (prefixed keyPrefix [jobPrefix, u_Name u, ''object'']) val (setOptions\<lparr>so_PrevExist := PrevIgnore\<rparr>) e1 of
               (Inl err, e2) \<Rightarrow> (Some err, e2)
             | (Inr _, e2) \<Rightarrow> er_SetUnitTargetState api keyPrefix (u_Name u) (u_TargetState u) e2)"

definition er_ScheduleUnit :: "'e KeysAPI \<Rightarrow> string \<Rightarrow> string \<Rightarrow> string \<Rightarrow> 'e \<Rightarrow> go_error option \<times> 'e" where
  "er_ScheduleUnit api keyPrefix name machID e =
     error_of (k_Set api (jobTargetAgentPath keyPrefix name) machID (setOptions\<lparr>so_PrevExist := PrevNoExist\<rparr>) e)"

definition er_UnitHeartbeat :: "'e KeysAPI \<Rightarrow> string \<Rightarrow> string \<Rightarrow> string \<Rightarrow> Duration \<Rightarrow> 'e \<Rightarrow> go_error option \<times> 'e" where
  "er_UnitHeartbeat api keyPrefix name machID ttl e =
     error_of (k_Set api (jobHeartbeatPath keyPrefix name) machID (setOptions\<lparr>so_TTL := ttl\<rparr>) e)"

definition er_ClearUnitHeartbeat :: "'e KeysAPI \<Rightarrow> string \<Rightarrow> string \<Rightarrow> 'e \<Rightarrow> 'e" where
  "er_ClearUnitHeartbeat api keyPrefix name e = snd (k_Delete api (jobHeartbeatPath keyPrefix name) deleteOptions e)"


section \<open>Machines\<close>

definition mergeMetadata :: "(string, string) gmap \<Rightarrow> (string, string) gmap option \<Rightarrow> (string, string) gmap" where
  \<comment> \<open>the dynamic metadata may be a nil map\<close>
  "mergeMetadata machineMetadata dynamicMetadata =
     (case dynamicMetadata of
        None \<Rightarrow> machineMetadata
      | Some dyn \<Rightarrow>
          fold (\<lambda>(k, v) final. if v = [] then gdel k final else gput k v final) dyn
            (gput_all fst snd machineMetadata []))"

fun read_objects :: "Node list \<Rightarrow> MachineState \<Rightarrow> (string, string) gmap option \<Rightarrow>
    (MachineState \<times> (string, string) gmap option) option" where
  "read_objects [] mach metadata = Some (mach, metadata)"
| "read_objects (obj # objs) mach metadata =
     (if HasSuffix (nd_Key obj) ''/object'' then
        (case unmarshal (dec_machine mach) (nd_Value obj) of
           None \<Rightarrow> None
         | Some mach' \<Rightarrow> read_objects objs mach' metadata)
      else if HasSuffix (nd_Key obj) ''/metadata'' then
        read_objects objs mach (Some (gput_all (\<lambda>mdnode. path_Base (nd_Key mdnode)) nd_Value (nd_Nodes obj) []))
      else read_objects objs mach metadata)"

definition readMachineState :: "Node \<Rightarrow> MachineState reply" where
  "readMachineState node =
     (case read_objects (nd_Nodes node) zero_machine None of
        None \<Rightarrow> Inl deserialize_error
      | Some (mach, metadata) \<Rightarrow> Inr (mach\<lparr>ms_Metadata := mergeMetadata (ms_Metadata mach) metadata\<rparr>))"

fun read_machines :: "Node list \<Rightarrow> MachineState list reply" where
  "read_machines [] = Inr []"
| "read_machines (node # nodes) =
     (case readMachineState node of
        Inl err \<Rightarrow> Inl err
      | Inr mach \<Rightarrow>
          (case read_machines nodes of
             Inl err \<Rightarrow> Inl err
           | Inr machs \<Rightarrow> Inr (if ms_ID mach \<noteq> [] then mach # machs else machs)))"

definition er_Machines :: "'e KeysAPI \<Rightarrow> string \<Rightarrow> 'e \<Rightarrow> MachineState list reply" where
  "er_Machines api keyPrefix e =
     (case k_Get api (prefixed keyPrefix [machinePrefix]) (getOptions\<lparr>go_Sort := True, go_Recursive := True\<rparr>) e of
        Inl err \<Rightarrow> if isEtcdError err ErrorCodeKeyNotFound then Inr [] else Inl err
      | Inr resp \<Rightarrow> read_machines (nd_Nodes resp))"

definition machine_key :: "string \<Rightarrow> string \<Rightarrow> string" where
  "machine_key keyPrefix machID = prefixed keyPrefix [machinePrefix, machID, ''object'']"

definition index_of :: "Node reply \<times> 'e \<Rightarrow> 64 word reply \<times> 'e" where
  "index_of r = (case r of (Inl err, e') \<Rightarrow> (Inl err, e') | (Inr resp, e') \<Rightarrow> (Inr (of_nat (nd_ModifiedIndex resp)), e'))"

definition er_CreateMachineState :: "'e KeysAPI \<Rightarrow> string \<Rightarrow> MachineState \<Rightarrow> Duration \<Rightarrow> 'e \<Rightarrow> 64 word reply \<times> 'e" where
  "er_CreateMachineState api keyPrefix ms ttl e =
     index_of (k_Set api (machine_key keyPrefix (ms_ID ms)) (marshal (enc_machine ms))
       (setOptions\<lparr>so_PrevExist := PrevNoExist, so_TTL := ttl\<rparr>) e)"

definition er_SetMachineState :: "'e KeysAPI \<Rightarrow> string \<Rightarrow> MachineState \<Rightarrow> Duration \<Rightarrow> 'e \<Rightarrow> 64 word reply \<times> 'e" where
  "er_SetMachineState api keyPrefix ms ttl e =
     (let key = machine_key keyPrefix (ms_ID ms); val = marshal (enc_machine ms)
      in case k_Set api key val (setOptions\<lparr>so_PrevExist := PrevExist, so_TTL := ttl\<rparr>) e of
           (Inr resp, e1) \<Rightarrow> (Inr (of_nat (nd_ModifiedIndex resp)), e1)
         | (Inl err, e1) \<Rightarrow> index_of (k_Set api key val (setOptions\<lparr>so_PrevExist := PrevNoExist, so_TTL := ttl\<rparr>) e1))"

definition er_MachineState :: "'e KeysAPI \<Rightarrow> string \<Rightarrow> string \<Rightarrow> 'e \<Rightarrow> MachineState reply" where
  "er_MachineState api keyPrefix machID e =
     (case k_Get api (path_Join [keyPrefix, machinePrefix, machID]) (getOptions\<lparr>go_Recursive := True, go_Sort := True\<rparr>) e of
        Inl err \<Rightarrow> Inl err
      | Inr resp \<Rightarrow> readMachineState resp)"

definition er_SetMachineMetadata :: "'e KeysAPI \<Rightarrow> string \<Rightarrow> string \<Rightarrow> string \<Rightarrow> string \<Rightarrow> 'e \<Rightarrow> go_error option \<times> 'e" where
  "er_SetMachineMetadata api keyPrefix machID key value e =
     error_of (k_Set api (path_Join [keyPrefix, machinePrefix, machID, ''metadata'', key]) value setOptions e)"

definition er_DeleteMachineMetadata :: "'e KeysAPI \<Rightarrow> string \<Rightarrow> string \<Rightarrow> string \<Rightarrow> 'e \<Rightarrow> go_error option \<times> 'e" where
  "er_DeleteMachineMetadata api keyPrefix machID key e = er_SetMachineMetadata api keyPrefix machID key [] e"

definition er_RemoveMachineState :: "'e KeysAPI \<Rightarrow> string \<Rightarrow> string \<Rightarrow> 'e \<Rightarrow> go_error option \<times> 'e" where
  "er_RemoveMachineState api keyPrefix machID e =
     (let (r, e') = k_Delete api (machine_key keyPrefix machID) deleteOptions e in (unless_missing r, e'))"

section \<open>The version of the cluster\<close>

definition engineVersionPath :: "string \<Rightarrow> string" where
  "engineVersionPath keyPrefix = prefixed keyPrefix [''/engine/version'']"

definition er_EngineVersion :: "'e KeysAPI \<Rightarrow> string \<Rightarrow> 'e \<Rightarrow> int reply" where
  "er_EngineVersion api keyPrefix e =
     (case k_Get api (engineVersionPath keyPrefix) getOptions e of
        Inl err \<Rightarrow> if isEtcdError err ErrorCodeKeyNotFound then Inr 0 else Inl err
      | Inr res \<Rightarrow>
          (case Atoi (nd_Value res) of
             None \<Rightarrow> Inl (OtherError (''strconv.ParseInt: parsing '' @ nd_Value res))
           | Some v \<Rightarrow> Inr v))"

definition er_UpdateEngineVersion :: "'e KeysAPI \<Rightarrow> string \<Rightarrow> int \<Rightarrow> int \<Rightarrow> 'e \<Rightarrow> go_error option \<times> 'e" where
  "er_UpdateEngineVersion api keyPrefix from to e =
     (case k_Set api (engineVersionPath keyPrefix) (Itoa to) (setOptions\<lparr>so_PrevValue := Itoa from\<rparr>) e of
        (Inr _, e1) \<Rightarrow> (None, e1)
      | (Inl err, e1) \<Rightarrow>
          if \<not> isEtcdError err ErrorCodeKeyNotFound then (Some err, e1)
          else error_of (k_Set api (engineVersionPath keyPrefix) (Itoa to) (setOptions\<lparr>so_PrevExist := PrevNoExist\<rparr>) e1))"

section \<open>Events\<close>

datatype Event = JobTargetChangeEvent | JobTargetStateChangeEvent

definition parse_event :: "Node option \<Rightarrow> string \<Rightarrow> Event option" where
  "parse_event res pre =
     (case res of
        None \<Rightarrow> None
      | Some node \<Rightarrow>
          if \<not> HasPrefix (nd_Key node) (path_Join [pre, jobPrefix]) then None
          else if path_Base (nd_Key node) = ''target-state'' then Some JobTargetStateChangeEvent
          else if path_Base (nd_Key node) = ''target'' then Some JobTargetChangeEvent
          else None)"

section \<open>The registry\<close>

definition er_IsRegistryReady :: "'e \<Rightarrow> bool" where
  "er_IsRegistryReady e = True"

definition er_UseEtcdRegistry :: "'e \<Rightarrow> bool" where
  "er_UseEtcdRegistry e = True"

definition text_error :: "go_error option \<times> 'e \<Rightarrow> string option \<times> 'e" where
  "text_error r = map_prod (map_option err_text) (\<lambda>e. e) r"

definition text_result :: "'a reply \<Rightarrow> 'a result" where
  "text_result r = map_sum err_text (\<lambda>x. x) r"

definition NewEtcdRegistry :: "(MUSKey list \<Rightarrow> MUSKey list) \<Rightarrow> 'e KeysAPI \<Rightarrow> string \<Rightarrow> 'e Registry" where
  "NewEtcdRegistry srt api keyPrefix =
     \<lparr>reg_ClearUnitHeartbeat = er_ClearUnitHeartbeat api keyPrefix,
      reg_CreateMachineState = (\<lambda>ms ttl e. map_prod text_result (\<lambda>e. e) (er_CreateMachineState api keyPrefix ms ttl e)),
      reg_CreateUnit = (\<lambda>u e. text_error (er_CreateUnit api keyPrefix u e)),
      reg_DestroyUnit = (\<lambda>n e. text_error (er_DestroyUnit api keyPrefix n e)),
      reg_UnitHeartbeat = (\<lambda>n m ttl e. text_error (er_UnitHeartbeat api keyPrefix n m ttl e)),
      reg_Machines = (\<lambda>e. text_result (er_Machines api keyPrefix e)),
      reg_RemoveMachineState = (\<lambda>m e. text_error (er_RemoveMachineState api keyPrefix m e)),
      reg_RemoveUnitState = (\<lambda>n e. text_error (er_RemoveUnitState api keyPrefix n e)),
      reg_SaveUnitState = er_SaveUnitState api keyPrefix,
      reg_ScheduleUnit = (\<lambda>n m e. text_error (er_ScheduleUnit api keyPrefix n m e)),
      reg_SetUnitTargetState = (\<lambda>n st e. text_error (er_SetUnitTargetState api keyPrefix n st e)),
      reg_SetMachineState = (\<lambda>ms ttl e. map_prod text_result (\<lambda>e. e) (er_SetMachineState api keyPrefix ms ttl e)),
      reg_MachineState = (\<lambda>m e. text_result (er_MachineState api keyPrefix m e)),
      reg_UnscheduleUnit = (\<lambda>n m e. text_error (er_UnscheduleUnit api keyPrefix n m e)),
      reg_SetMachineMetadata = (\<lambda>m k v e. text_error (er_SetMachineMetadata api keyPrefix m k v e)),
      reg_DeleteMachineMetadata = (\<lambda>m k e. text_error (er_DeleteMachineMetadata api keyPrefix m k e)),
      reg_IsRegistryReady = er_IsRegistryReady,
      reg_UseEtcdRegistry = er_UseEtcdRegistry,
      reg_Schedule = (\<lambda>e. text_result (er_Schedule api keyPrefix e)),
      reg_ScheduledUnit = (\<lambda>n e. text_result (er_ScheduledUnit api keyPrefix n e)),
      reg_Unit = (\<lambda>n e. text_result (er_Unit api keyPrefix n e)),
      reg_Units = (\<lambda>e. text_result (er_Units api keyPrefix e)),
      reg_UnitState = (\<lambda>n e. text_result (er_UnitState api keyPrefix n e)),
      reg_UnitStates = (\<lambda>e. text_result (er_UnitStates srt api keyPrefix e))\<rparr>"

definition EtcdClusterRegistry :: "'e KeysAPI \<Rightarrow> string \<Rightarrow> 'e ClusterRegistry" where
  "EtcdClusterRegistry api keyPrefix =
     \<lparr>cr_EngineVersion = (\<lambda>e. text_result (er_EngineVersion api keyPrefix e)),
      cr_UpdateEngineVersion = (\<lambda>from to e. text_error (er_UpdateEngineVersion api keyPrefix from to e))\<rparr>"


section \<open>Keys\<close>

lemma comps_prefixed:
  assumes "rooted_path keyPrefix" "''..'' \<notin> set (concat (map comps ps))"
  shows "comps (prefixed keyPrefix ps) = comps keyPrefix @ concat (map comps ps)"
proof -
  have c: "comps (path_Join ps) = concat (map comps ps)" by (rule comps_path_Join[OF assms(2)])
  have "''..'' \<notin> set (concat (map comps [keyPrefix, path_Join ps]))"
    using assms c by (auto simp: rooted_path_def)
  from comps_path_Join[OF this] show ?thesis by (simp add: prefixed_def c)
qed

lemma prefixed_abs:
  assumes "rooted_path keyPrefix" "''..'' \<notin> set (concat (map comps ps))" "concat (map comps ps) \<noteq> []"
  shows "prefixed keyPrefix ps = abs_path (comps keyPrefix @ concat (map comps ps))"
proof -
  have c: "comps (path_Join ps) = concat (map comps ps)" by (rule comps_path_Join[OF assms(2)])
  show ?thesis
    unfolding prefixed_def using path_Join_rooted[OF assms(1), of "[path_Join ps]"] assms(2,3) c by simp
qed

lemma comps_literals [simp]:
  "comps jobPrefix = [''job'']" "comps unitPrefix = [''unit'']" "comps statePrefix = [''state'']"
  "comps statesPrefix = [''states'']" "comps machinePrefix = [''machines'']" "comps ''target'' = [''target'']"
  "comps ''target-state'' = [''target-state'']" "comps ''job-state'' = [''job-state'']" "comps ''object'' = [''object'']"
  "comps ''metadata'' = [''metadata'']" "comps ''/engine/version'' = [''engine'', ''version'']"
  by (simp_all add: comps_def jobPrefix_def unitPrefix_def statePrefix_def statesPrefix_def machinePrefix_def)

definition job_key :: "string \<Rightarrow> string \<Rightarrow> string \<Rightarrow> string list" where
  "job_key keyPrefix n file = comps keyPrefix @ [''job'', n, file]"

lemma plain_not_dots [simp]: "plain n \<Longrightarrow> ''..'' \<noteq> n"
  by (auto simp: plain_def)

lemma comps_job_paths:
  assumes "rooted_path keyPrefix" "plain n"
  shows "comps (jobTargetAgentPath keyPrefix n) = job_key keyPrefix n ''target''"
    "comps (jobTargetStatePath keyPrefix n) = job_key keyPrefix n ''target-state''"
    "comps (jobHeartbeatPath keyPrefix n) = job_key keyPrefix n ''job-state''"
    "comps (prefixed keyPrefix [jobPrefix, n, ''object'']) = job_key keyPrefix n ''object''"
    "comps (prefixed keyPrefix [jobPrefix, n]) = comps keyPrefix @ [''job'', n]"
    "comps (prefixed keyPrefix [jobPrefix]) = comps keyPrefix @ [''job'']"
    "comps (engineVersionPath keyPrefix) = comps keyPrefix @ [''engine'', ''version'']"
  using assms
  by (simp_all add: jobTargetAgentPath_def jobTargetStatePath_def jobHeartbeatPath_def engineVersionPath_def
      comps_prefixed job_key_def)

lemma prefix_no_dots: "rooted_path keyPrefix \<Longrightarrow> ''..'' \<notin> set (comps keyPrefix)"
  by (simp add: rooted_path_def)

lemma job_key_no_dots: "rooted_path keyPrefix \<Longrightarrow> plain n \<Longrightarrow> plain f \<Longrightarrow> ''..'' \<notin> set (job_key keyPrefix n f)"
  by (auto simp: job_key_def rooted_path_def)

lemma job_key_inj [simp]: "job_key keyPrefix n f = job_key keyPrefix n' f' \<longleftrightarrow> n = n' \<and> f = f'"
  by (auto simp: job_key_def)

lemma job_key_prefix [simp]: "prefix (job_key keyPrefix n f) (job_key keyPrefix n' f') \<longleftrightarrow> n = n' \<and> f = f'"
  by (auto simp: job_key_def)

end
