(* ===== verification/Engine_Tasks.thy ===== *)
theory Engine_Tasks
  imports Engine_Reconcile Registry_Interface Go_File_Path
begin

text \<open>
  The tasks of a pass as instructions to the registry: they name units of the cluster only, and
  executing them with the conditions of the registry (a unit is scheduled only if it has no target,
  unscheduled only from the machine named) gives the schedule of the final cluster state. The
  contract \<open>schedule_registry\<close> is what the engine relies on when it executes them.
\<close>

section \<open>The names in tasks\<close>

definition unit_names :: "clusterState \<Rightarrow> string set" where
  "unit_names cs = dom (map_of (cs_jobs cs)) \<union> dom (map_of (cs_gUnits cs))"

text \<open>A task for a unit of the cluster and, where every machine has a name, to or from a named machine.\<close>

definition task_named :: "clusterState \<Rightarrow> task \<Rightarrow> bool" where
  "task_named cs t \<longleftrightarrow> t_JobName t \<in> unit_names cs \<and> ([] \<notin> dom (map_of (cs_machines cs)) \<longrightarrow> t_MachineID t \<noteq> [])"

definition named :: "run \<Rightarrow> run \<Rightarrow> bool" where
  "named r r' \<longleftrightarrow> (\<exists>ts. r_tasks r' = r_tasks r @ ts \<and> list_all (task_named (r_clust r)) ts)"

lemma unit_names_same: "same_but_targets cs cs' \<Longrightarrow> unit_names cs' = unit_names cs"
  using same_but_targets_dom[of cs cs'] by (simp add: unit_names_def same_but_targets_def)

lemma task_named_same: "same_but_targets cs cs' \<Longrightarrow> task_named cs' = task_named cs"
  using unit_names_same[of cs cs'] by (simp add: fun_eq_iff task_named_def same_but_targets_def)

lemma named_refl [simp]: "named r r"
  by (simp add: named_def)

lemma named_trans: "named a b \<Longrightarrow> named b c \<Longrightarrow> same_but_targets (r_clust a) (r_clust b) \<Longrightarrow> named a c"
  using task_named_same[of "r_clust a" "r_clust b"] by (auto simp: named_def)

lemma agent_unit_named:
  assumes "valid_order ord" "cluster_ok cs" "map_of (agents ord cs) m = Some a" "e \<in> ran (map_of (as_Units a))"
  shows "u_Name e \<in> unit_names cs"
proof -
  obtain n where n: "map_of (as_Units a) n = Some e" using assms(4) by (auto simp: ran_def)
  have "agent_units_ok cs m a" using agents_spec[OF assms(1,2)] assms(3) by (auto simp: agents_sound_def)
  with n show ?thesis unfolding agent_units_ok_def unit_names_def by blast
qed

lemma visit_event_named:
  assumes "visit_event stopAt k r r'" "cluster_ok (r_clust r)"
  shows "named r r'"
  using assms
proof (induction rule: visit_event.induct)
  case (unscheduled r j o1 a r1 reason)
  then show ?case by (auto simp: named_def task_named_def unit_names_def Scheduled_def)
next
  case (moved r j o1 a e r1 reason m r2)
  have "u_Name e \<in> unit_names (r_clust r)"
    by (rule agent_unit_named[OF moved.hyps(4) moved.prems moved.hyps(5,6)])
  then show ?case using moved by (auto simp: named_def task_named_def Scheduled_def)
next
  case (half_moved r j o1 a e r1 reason)
  have "u_Name e \<in> unit_names (r_clust r)"
    by (rule agent_unit_named[OF half_moved.hyps(4) half_moved.prems half_moved.hyps(5,6)])
  then show ?case using half_moved by (auto simp: named_def task_named_def Scheduled_def)
qed (auto simp: named_def)

lemma place_event_named:
  assumes "place_event stopAt k r r'" "cluster_ok (r_clust r)"
  shows "named r r'"
  using assms
proof (induction rule: place_event.induct)
  case (placed r j o1 m a r1 reason)
  with agents_live[OF placed.hyps(4) placed.prems placed.hyps(5)]
  show ?case by (auto simp: named_def task_named_def unit_names_def)
qed (auto simp: named_def)

section \<open>Executing tasks conditionally\<close>

definition exec_task :: "string set \<Rightarrow> task \<Rightarrow> (string \<rightharpoonup> string) \<Rightarrow> (string \<rightharpoonup> string)" where
  "exec_task J t f =
     (if t_JobName t \<notin> J then f
      else if t_Type t = taskTypeUnscheduleUnit
      then (if f (t_JobName t) = Some (t_MachineID t) then f(t_JobName t := None) else f)
      else if t_Type t = taskTypeAttemptScheduleUnit
      then (if f (t_JobName t) = None then f(t_JobName t \<mapsto> t_MachineID t) else f)
      else f)"

definition executed :: "run \<Rightarrow> run \<Rightarrow> bool" where
  "executed r r' \<longleftrightarrow> (\<exists>ts. r_tasks r' = r_tasks r @ ts \<and>
     abs_schedule (r_clust r') =
       fold (exec_task (dom (map_of (cs_jobs (r_clust r))))) ts (abs_schedule (r_clust r)))"

lemma executed_refl [simp]: "executed r r"
  by (simp add: executed_def)

lemma executed_trans:
  assumes "executed a b" "executed b c" "same_but_targets (r_clust a) (r_clust b)"
  shows "executed a c"
  using assms same_but_targets_dom[OF assms(3)] by (auto simp: executed_def)

lemma executed_done [simp]: "executed r (r\<lparr>r_done := b\<rparr>)"
  by (auto simp: executed_def)

lemma executed_move:
  assumes "m \<noteq> []" "map_of (cs_jobs (r_clust r)) n \<noteq> None \<Longrightarrow> abs_schedule (r_clust r) n = Some m0"
    "r2 = push_task taskTypeAttemptScheduleUnit rs2 n m (push_task taskTypeUnscheduleUnit rs1 n m0 r)"
  shows "executed r (r2\<lparr>r_clust := cs_schedule n m (r_clust r)\<rparr>)"
proof (cases "map_of (cs_jobs (r_clust r)) n = None")
  case True
  then show ?thesis using assms(3) by (simp add: executed_def exec_task_def cs_schedule_absent domIff)
next
  case False
  then show ?thesis
    using assms abs_schedule_schedule[OF False assms(1)] by (simp add: executed_def exec_task_def domIff)
qed

lemma executed_place:
  assumes "m \<noteq> []" "map_of (cs_jobs (r_clust r)) n = Some j" "\<not> Scheduled j"
  shows "executed r ((push_task taskTypeAttemptScheduleUnit rs n m r)\<lparr>r_clust := cs_schedule n m (r_clust r)\<rparr>)"
proof -
  have "abs_schedule (r_clust r) n = None" using assms(2,3) by (simp add: abs_schedule_def)
  then show ?thesis
    using assms abs_schedule_schedule[of "r_clust r" n m] by (simp add: executed_def exec_task_def domIff)
qed

lemma executed_unschedule:
  assumes "map_of (cs_jobs (r_clust r)) n = Some j" "Scheduled j"
  shows "executed r ((push_task taskTypeUnscheduleUnit rs n (j_TargetMachineID j) r)\<lparr>r_clust := cs_unschedule n (r_clust r)\<rparr>)"
proof -
  have "abs_schedule (r_clust r) n = Some (j_TargetMachineID j)" using assms by (simp add: abs_schedule_def)
  then show ?thesis
    using assms by (simp add: executed_def exec_task_def domIff abs_schedule_unschedule)
qed

lemma visit_event_executed:
  assumes "visit_event None k r r'" "cluster_ok (r_clust r)" "names_disjoint (r_clust r)" "several_machines (r_clust r)"
  shows "executed r r'"
  using assms
proof (induction rule: visit_event.induct)
  case (moved r j o1 a e r1 reason m r2)
  have m: "m \<noteq> []" using moved by (auto simp: several_machines_def)
  have "abs_schedule (r_clust r) (u_Name e) = Some (j_TargetMachineID j)"
    if job: "map_of (cs_jobs (r_clust r)) (u_Name e) \<noteq> None"
  proof -
    obtain j' where j': "map_of (cs_jobs (r_clust r)) (u_Name e) = Some j'" using job by auto
    moreover have "map_of (cs_gUnits (r_clust r)) (u_Name e) = None"
      using j' moved.prems(2) by (auto simp: names_disjoint_def dom_def)
    ultimately show ?thesis
      using agent_unit_active[OF moved.hyps(4) moved.prems(1) moved.hyps(5,6)] by (simp add: abs_schedule_def)
  qed
  from executed_move[OF m this] moved show ?case by simp
next
  case (half_moved r j o1 a e r1 reason)
  then have False unfolding several_machines_def by (metis can_send_None singletonD subsetD)
  then show ?case ..
qed (auto simp: executed_unschedule)

lemma place_event_executed:
  assumes "place_event stopAt k r r'" "cluster_ok (r_clust r)" "[] \<notin> dom (map_of (cs_machines (r_clust r)))"
  shows "executed r r'"
  using assms
proof (induction rule: place_event.induct)
  case (placed r j o1 m a r1 reason)
  with agents_live[OF placed.hyps(4) placed.prems(1) placed.hyps(5)]
  show ?case by (auto intro!: executed_place)
qed auto


section \<open>Relating the start and the end of a pass\<close>

text \<open>
  A relation between runs that every event satisfies, that is reflexive, and that composes as long
  as only targets change holds between the start and the end of a pass.
\<close>

context scheduler
begin

lemma pass_relates:
  assumes R: "\<And>r. R r r" "\<And>a b c. R a b \<Longrightarrow> R b c \<Longrightarrow> same_but_targets (r_clust a) (r_clust b) \<Longrightarrow> R a c"
    and visit: "\<And>k r r'. visit_event None k r r' \<Longrightarrow> cluster_ok (r_clust r) \<Longrightarrow> P (r_clust r) \<Longrightarrow> R r r'"
    and place: "\<And>k r r'. place_event None k r r' \<Longrightarrow> cluster_ok (r_clust r) \<Longrightarrow> P (r_clust r) \<Longrightarrow> R r r'"
    and P: "\<And>cs cs'. same_but_targets cs cs' \<Longrightarrow> P cs \<Longrightarrow> P cs'" "P cs"
    and ok: "valid_order ord" "cluster_ok cs"
  shows "R \<lparr>r_clust = cs, r_tasks = [], r_done = False\<rparr> (calculateClusterTasks ord sched None cs)"
proof -
  let ?r0 = "\<lparr>r_clust = cs, r_tasks = [], r_done = False\<rparr>"
  have steps: "R r (fold f ks r) \<and> cluster_ok (r_clust (fold f ks r)) \<and> same_but_targets (r_clust r) (r_clust (fold f ks r))"
    if "\<And>k r j. cluster_ok (r_clust r) \<Longrightarrow> P (r_clust r) \<Longrightarrow> map_of (cs_jobs (r_clust r)) k = Some j \<Longrightarrow>
          R r (f k r) \<and> cluster_ok (r_clust (f k r)) \<and> same_but_targets (r_clust r) (r_clust (f k r))"
      "cluster_ok (r_clust r)" "P (r_clust r)" "set ks \<subseteq> dom (map_of (cs_jobs (r_clust r)))" for f :: "string \<Rightarrow> run \<Rightarrow> run" and ks r
    using that(2-4)
  proof (induction ks arbitrary: r)
    case (Cons k ks)
    obtain j where j: "map_of (cs_jobs (r_clust r)) k = Some j" using Cons.prems(3) by auto
    note st = that(1)[OF Cons.prems(1,2) j]
    have d: "set ks \<subseteq> dom (map_of (cs_jobs (r_clust (f k r))))"
      using Cons.prems(3) same_but_targets_dom[of "r_clust r" "r_clust (f k r)"] st by simp
    have "P (r_clust (f k r))" using P(1) st Cons.prems(2) by blast
    from Cons.IH[OF _ this d] st show ?case using R(2) same_but_targets_trans by (metis fold_simps(2))
  qed (simp add: R(1))
  let ?f = "unschedule_step (at ord ''unschedule'') sched None" and ?ks = "ord [''unscheduleJobs''] (gkeys (cs_jobs cs))"
  let ?g = "schedule_step (at ord ''schedule'') sched None"
  have f: "R r (?f k r) \<and> cluster_ok (r_clust (?f k r)) \<and> same_but_targets (r_clust r) (r_clust (?f k r))"
    if c: "cluster_ok (r_clust r)" "P (r_clust r)" "map_of (cs_jobs (r_clust r)) k = Some j" for k r j
  proof -
    have "valid_order (at ord ''unschedule'')" using ok by auto
    note ev = unschedule_step_event[OF this c(1,3), of None]
    show ?thesis using visit[OF ev c(1,2)] visit_event_frame[OF ev c(1)] by blast
  qed
  have g: "R r (?g k r) \<and> cluster_ok (r_clust (?g k r)) \<and> same_but_targets (r_clust r) (r_clust (?g k r))"
    if c: "cluster_ok (r_clust r)" "P (r_clust r)" "map_of (cs_jobs (r_clust r)) k = Some j" for k r j
  proof -
    have "valid_order (at ord ''schedule'')" using ok by auto
    note ev = schedule_step_event[OF this c(1,3), of None]
    show ?thesis using place[OF ev c(1,2)] place_event_frame[OF ev c(1)] by blast
  qed
  define r1 where "r1 = fold ?f ?ks ?r0"
  have "R ?r0 (fold ?f ?ks ?r0) \<and> cluster_ok (r_clust (fold ?f ?ks ?r0)) \<and>
      same_but_targets (r_clust ?r0) (r_clust (fold ?f ?ks ?r0))"
    by (rule steps) (rule f, assumption+, use ok P(2) in \<open>simp_all add: order_simps\<close>)
  then have 1: "R ?r0 r1 \<and> cluster_ok (r_clust r1) \<and> same_but_targets cs (r_clust r1)" by (simp add: r1_def)
  let ?ks2 = "ord [''scheduleJobs''] (gkeys (cs_jobs (r_clust r1)))"
  have "P (r_clust r1)" using P 1 by blast
  have "R r1 (fold ?g ?ks2 r1)"
    by (rule conjunct1[OF steps]) (rule g, assumption+, use 1 ok \<open>P (r_clust r1)\<close> in \<open>simp_all add: order_simps\<close>)
  moreover have "calculateClusterTasks ord sched None cs = fold ?g ?ks2 r1"
    by (simp add: calculateClusterTasks_def r1_def Let_def)
  ultimately show ?thesis using R(2)[of ?r0 r1] 1 by simp
qed

lemma pass_named:
  assumes "valid_order ord" "cluster_ok cs"
  shows "list_all (task_named cs) (r_tasks (calculateClusterTasks ord sched stop cs))"
proof -
  have n: "named \<lparr>r_clust = cs, r_tasks = [], r_done = False\<rparr> (calculateClusterTasks ord sched None cs)"
    by (rule pass_relates[where P = "\<lambda>_. True"])
      (use assms named_trans in \<open>auto intro: visit_event_named place_event_named\<close>)
  show ?thesis
  proof (cases stop)
    case None
    then show ?thesis using n by (simp add: named_def)
  next
    case (Some k)
    then show ?thesis using n by (auto simp: named_def pass_stop_prefix list_all_iff dest: in_set_takeD)
  qed
qed

lemma pass_executes:
  assumes "valid_order ord" "cluster_ok cs" "names_disjoint cs" "several_machines cs"
  shows "abs_schedule (r_clust (calculateClusterTasks ord sched None cs)) =
    fold (exec_task (dom (map_of (cs_jobs cs)))) (r_tasks (calculateClusterTasks ord sched None cs)) (abs_schedule cs)"
proof -
  have "executed \<lparr>r_clust = cs, r_tasks = [], r_done = False\<rparr> (calculateClusterTasks ord sched None cs)"
  proof (rule pass_relates[where P = "\<lambda>cs. names_disjoint cs \<and> several_machines cs"])
    show "place_event None k r r' \<Longrightarrow> cluster_ok (r_clust r) \<Longrightarrow>
        names_disjoint (r_clust r) \<and> several_machines (r_clust r) \<Longrightarrow> executed r r'" for k r r'
      by (rule place_event_executed) (auto simp: several_machines_def)
  qed (use assms executed_trans visit_event_executed in \<open>auto simp: names_disjoint_same several_machines_same\<close>)
  then show ?thesis by (simp add: executed_def)
qed

end


section \<open>The cluster state the engine starts from\<close>

lemma newClusterState_abs:
  assumes "\<forall>su\<in>set sus. su_TargetMachineID su = (case f (su_Name su) of None \<Rightarrow> [] | Some m \<Rightarrow> m)"
    and "\<And>n m. f n = Some m \<Longrightarrow> m \<noteq> []" "u_Name ` set units \<subseteq> su_Name ` set sus"
    and "n \<in> dom (map_of (cs_jobs (newClusterState units sus machines)))"
  shows "abs_schedule (newClusterState units sus machines) n = f n"
proof -
  let ?sm = "gput_all su_Name (\<lambda>su. su) sus []"
  let ?tgt = "\<lambda>n. case f n of None \<Rightarrow> [] | Some m \<Rightarrow> m"
  have sm: "\<exists>su. map_of ?sm n = Some su \<and> su_TargetMachineID su = ?tgt n" if "n \<in> su_Name ` set sus" for n
  proof -
    have "n \<in> dom (map_of ?sm)" using that by (simp add: dom_gput_all)
    then obtain su where su: "map_of ?sm n = Some su" by auto
    then have "su \<in> set sus" "su_Name su = n" using map_of_gput_all_SomeD[of su_Name "\<lambda>su. su" sus "[]" n su] by auto
    with su assms(1) show ?thesis by auto
  qed
  have add: "\<forall>k j. map_of jm' k = Some j \<longrightarrow> j_TargetMachineID j = ?tgt k"
    if "fold (cs_add_unit ?sm) us (jm, gm) = (jm', gm')" "u_Name ` set us \<subseteq> su_Name ` set sus"
      "\<forall>k j. map_of jm k = Some j \<longrightarrow> j_TargetMachineID j = ?tgt k" for us jm gm jm' gm'
    using that
  proof (induction us arbitrary: jm gm)
    case (Cons u us)
    obtain jm1 gm1 where st: "cs_add_unit ?sm u (jm, gm) = (jm1, gm1)" by fastforce
    obtain su where "map_of ?sm (u_Name u) = Some su" "su_TargetMachineID su = ?tgt (u_Name u)"
      using sm[of "u_Name u"] Cons.prems(2) by auto
    then have "\<forall>k j. map_of jm1 k = Some j \<longrightarrow> j_TargetMachineID j = ?tgt k"
      using st Cons.prems(3) by (auto simp: cs_add_unit_def Let_def split: if_splits)
    with Cons.IH[of jm1 gm1] st Cons.prems(1,2) show ?case by simp
  qed simp
  obtain jm gm where f: "fold (cs_add_unit ?sm) units ([], []) = (jm, gm)" by fastforce
  then have "cs_jobs (newClusterState units sus machines) = jm" by (simp add: newClusterState_def)
  then show ?thesis
    using add[OF f assms(3)] assms(2,4) by (auto simp: abs_schedule_def Scheduled_def split: option.splits)
qed

lemma newClusterState_names:
  assumes "n \<in> unit_names (newClusterState units sus machines)"
  shows "n \<in> u_Name ` set units"
proof -
  have add: "dom (map_of jm') \<union> dom (map_of gm') = u_Name ` set us \<union> (dom (map_of jm) \<union> dom (map_of gm))"
    if "fold (cs_add_unit sm) us (jm, gm) = (jm', gm')" for sm us jm gm jm' gm'
    using that
  proof (induction us arbitrary: jm gm)
    case (Cons u us)
    obtain jm1 gm1 where st: "cs_add_unit sm u (jm, gm) = (jm1, gm1)" by fastforce
    have "dom (map_of jm1) \<union> dom (map_of gm1) = insert (u_Name u) (dom (map_of jm) \<union> dom (map_of gm))"
      using cs_add_unit_doms[OF st] by (elim disjE conjE) simp_all
    with Cons.IH[of jm1 gm1] st Cons.prems show ?case by simp
  qed simp
  obtain jm gm where f: "fold (cs_add_unit (gput_all su_Name (\<lambda>su. su) sus [])) units ([], []) = (jm, gm)" by fastforce
  with add[OF f] assms show ?thesis by (simp add: newClusterState_def unit_names_def)
qed

section \<open>The keeper of the schedule\<close>

text \<open>
  The contract of a registry as the keeper of the schedule: \<open>sched s n\<close> is the machine the unit \<open>n\<close>
  is scheduled to and \<open>listed s n\<close> holds of the units the registry lists.
\<close>

locale schedule_registry =
  fixes reg :: "'s Registry"
    and inv :: "'s \<Rightarrow> bool"
    and sched :: "'s \<Rightarrow> string \<rightharpoonup> string"
    and listed :: "'s \<Rightarrow> string \<Rightarrow> bool"
  assumes Units_names: "\<lbrakk>inv s; reg_Units reg s = Inr us\<rbrakk> \<Longrightarrow>
      distinct (map u_Name us) \<and> (\<forall>u\<in>set us. plain (u_Name u) \<and> listed s (u_Name u))"
    and Schedule_list: "\<lbrakk>inv s; reg_Schedule reg s = Inr sus\<rbrakk> \<Longrightarrow>
      (\<forall>su\<in>set sus. su_TargetMachineID su = (case sched s (su_Name su) of None \<Rightarrow> [] | Some m \<Rightarrow> m)) \<and>
      {n. listed s n} \<subseteq> su_Name ` set sus"
    and Machines_named: "\<lbrakk>inv s; reg_Machines reg s = Inr ms\<rbrakk> \<Longrightarrow> [] \<notin> ms_ID ` set ms"
    and targets: "\<lbrakk>inv s; sched s n = Some m\<rbrakk> \<Longrightarrow> m \<noteq> []"
    and Schedule_ok: "\<lbrakk>inv s; plain n; m \<noteq> []; reg_ScheduleUnit reg n m s = (None, s')\<rbrakk> \<Longrightarrow>
      inv s' \<and> sched s n = None \<and> sched s' = (sched s)(n \<mapsto> m)"
    and Unschedule_ok: "\<lbrakk>inv s; plain n; m \<noteq> []; reg_UnscheduleUnit reg n m s = (None, s')\<rbrakk> \<Longrightarrow>
      inv s' \<and> (sched s n = Some m \<and> sched s' = (sched s)(n := None) \<or> sched s n = None \<and> sched s' = sched s)"

end
