(* ===== verification/Lease.thy ===== *)
theory Lease
  imports Etcd_Client Go_Json
begin

text \<open>
  Package \<open>pkg/lease\<close>: the \<open>Lease\<close> and \<open>Manager\<close> interfaces (\<open>interface.go\<close>) as a record of functions,
  what their comments promise as the locale \<open>lease_manager\<close>, and the implementation on etcd
  (\<open>etcd.go\<close>), which meets it for every client that meets the contract of etcd. A lease is a value
  here; \<open>Renew\<close>, which overwrites the lease it is called on, returns the new one.
\<close>

section \<open>The interfaces\<close>

record Lease =
  le_key :: string
  le_MachineID :: string
  le_Version :: int
  le_Index :: nat
  le_TimeRemaining :: Duration

record 's Manager =
  lm_GetLease :: "string \<Rightarrow> 's \<Rightarrow> Lease option reply"
  lm_AcquireLease :: "string \<Rightarrow> string \<Rightarrow> int \<Rightarrow> Duration \<Rightarrow> 's \<Rightarrow> Lease option reply \<times> 's"
  lm_StealLease :: "string \<Rightarrow> string \<Rightarrow> int \<Rightarrow> Duration \<Rightarrow> nat \<Rightarrow> 's \<Rightarrow> Lease option reply \<times> 's"
  lm_Renew :: "Duration \<Rightarrow> Lease \<Rightarrow> 's \<Rightarrow> Lease reply \<times> 's"
  lm_Release :: "Lease \<Rightarrow> 's \<Rightarrow> go_error option \<times> 's"

section \<open>Leases in etcd\<close>

definition leasePrefix :: string where "leasePrefix = ''lease''"

record etcdLeaseMetadata =
  elm_MachineID :: string
  elm_Version :: int

definition serializeLeaseMetadata :: "string \<Rightarrow> int \<Rightarrow> string" where
  "serializeLeaseMetadata machID ver =
     json_print (JObj [(''MachineID'', JStr machID), (''Version'', enc_int ver)])"

definition unmarshalLeaseMetadata :: "string \<Rightarrow> etcdLeaseMetadata option" where
  "unmarshalLeaseMetadata val =
     Option.bind (json_parse val) (\<lambda>v. Option.bind (struct_members v) (\<lambda>ms.
       Option.bind (decode_field dec_string ''MachineID'' [] ms) (\<lambda>m.
         map_option (\<lambda>ver. \<lparr>elm_MachineID = m, elm_Version = ver\<rparr>) (decode_field dec_int ''Version'' 0 ms))))"

definition leasePath :: "string \<Rightarrow> string \<Rightarrow> string" where
  "leasePath keyPrefix name = path_Join [keyPrefix, leasePrefix, name]"

definition leaseFromResponse :: "Node \<Rightarrow> Lease" where
  "leaseFromResponse n =
     (let meta = (case unmarshalLeaseMetadata (nd_Value n) of
                    Some m \<Rightarrow> m
                  | None \<Rightarrow> \<lparr>elm_MachineID = nd_Value n, elm_Version = 0\<rparr>)
      in \<lparr>le_key = nd_Key n, le_MachineID = elm_MachineID meta, le_Version = elm_Version meta,
          le_Index = nd_ModifiedIndex n, le_TimeRemaining = TTLDuration n\<rparr>)"

definition GetLease :: "'e KeysAPI \<Rightarrow> string \<Rightarrow> string \<Rightarrow> 'e \<Rightarrow> Lease option reply" where
  "GetLease api keyPrefix name e =
     (case k_Get api (leasePath keyPrefix name) getOptions e of
        Inl err \<Rightarrow> if isEtcdError err ErrorCodeKeyNotFound then Inr None else Inl err
      | Inr resp \<Rightarrow> Inr (Some (leaseFromResponse resp)))"

definition StealLease ::
  "'e KeysAPI \<Rightarrow> string \<Rightarrow> string \<Rightarrow> string \<Rightarrow> int \<Rightarrow> Duration \<Rightarrow> nat \<Rightarrow> 'e \<Rightarrow> Lease option reply \<times> 'e" where
  "StealLease api keyPrefix name machID ver period idx e =
     (let val = serializeLeaseMetadata machID ver;
          opts = setOptions\<lparr>so_PrevIndex := idx, so_TTL := period\<rparr>
      in case k_Set api (leasePath keyPrefix name) val opts e of
           (Inl err, e') \<Rightarrow> (if isEtcdError err ErrorCodeNodeExist then Inr None else Inl err, e')
         | (Inr resp, e') \<Rightarrow> (Inr (Some (leaseFromResponse resp)), e'))"

definition AcquireLease ::
  "'e KeysAPI \<Rightarrow> string \<Rightarrow> string \<Rightarrow> string \<Rightarrow> int \<Rightarrow> Duration \<Rightarrow> 'e \<Rightarrow> Lease option reply \<times> 'e" where
  "AcquireLease api keyPrefix name machID ver period e =
     (let val = serializeLeaseMetadata machID ver;
          opts = setOptions\<lparr>so_TTL := period, so_PrevExist := PrevNoExist\<rparr>
      in case k_Set api (leasePath keyPrefix name) val opts e of
           (Inl err, e') \<Rightarrow> (if isEtcdError err ErrorCodeNodeExist then Inr None else Inl err, e')
         | (Inr resp, e') \<Rightarrow> (Inr (Some (leaseFromResponse resp)), e'))"

definition Renew :: "'e KeysAPI \<Rightarrow> Duration \<Rightarrow> Lease \<Rightarrow> 'e \<Rightarrow> Lease reply \<times> 'e" where
  "Renew api period l e =
     (let val = serializeLeaseMetadata (le_MachineID l) (le_Version l);
          opts = setOptions\<lparr>so_PrevIndex := le_Index l, so_TTL := period\<rparr>
      in case k_Set api (le_key l) val opts e of
           (Inl err, e') \<Rightarrow> (Inl err, e')
         | (Inr resp, e') \<Rightarrow> (Inr (leaseFromResponse resp), e'))"

definition Release :: "'e KeysAPI \<Rightarrow> Lease \<Rightarrow> 'e \<Rightarrow> go_error option \<times> 'e" where
  "Release api l e =
     (case k_Delete api (le_key l) (deleteOptions\<lparr>do_PrevIndex := le_Index l\<rparr>) e of
        (Inl err, e') \<Rightarrow> (Some err, e')
      | (Inr resp, e') \<Rightarrow> (None, e'))"

definition NewEtcdLeaseManager :: "'e KeysAPI \<Rightarrow> string \<Rightarrow> 'e Manager" where
  "NewEtcdLeaseManager api keyPrefix =
     \<lparr>lm_GetLease = GetLease api keyPrefix, lm_AcquireLease = AcquireLease api keyPrefix,
      lm_StealLease = StealLease api keyPrefix, lm_Renew = Renew api, lm_Release = Release api\<rparr>"

text \<open>A serialised lease is read back with the machine and the version it was written for.\<close>

definition int64 :: "int \<Rightarrow> bool" where
  "int64 i \<longleftrightarrow> - (2 ^ 63) \<le> i \<and> i < 2 ^ 63"

lemma lease_metadata_roundtrip:
  assumes "ascii machID" "int64 ver"
  shows "unmarshalLeaseMetadata (serializeLeaseMetadata machID ver) = Some \<lparr>elm_MachineID = machID, elm_Version = ver\<rparr>"
proof -
  have "json_ok (JObj [(''MachineID'', JStr machID), (''Version'', enc_int ver)])"
    using assms enc_int_ok[of ver] by (simp add: int64_def)
  from json_roundtrip[OF this] show ?thesis
    using assms dec_enc_int[of ver 0]
    by (simp add: unmarshalLeaseMetadata_def serializeLeaseMetadata_def struct_members_def int64_def
        ToLower_def ToLowerByte_def)
qed


text \<open>The version of a lease that was read is a 64-bit integer, whatever was stored.\<close>

lemma decode_int64: "int64 z \<Longrightarrow> decode_field dec_int name z ms = Some i \<Longrightarrow> int64 i"
proof (induction ms arbitrary: z)
  case (Cons kv ms)
  obtain k v where kv: "kv = (k, v)" by fastforce
  have "int64 a" if "dec_int z v = Some a" for a
    using that Cons.prems(1) Atoi_range by (auto simp: dec_int_def int64_def split: json.splits)
  with Cons kv show ?case by (auto simp: Option.bind_eq_Some_conv split: if_splits)
qed simp

lemma lease_version_int64: "int64 (le_Version (leaseFromResponse n))"
proof -
  have "int64 0" by (simp add: int64_def)
  then show ?thesis
    using decode_int64 by (auto simp: leaseFromResponse_def unmarshalLeaseMetadata_def Let_def Option.bind_eq_Some_conv split: option.split)
qed

section \<open>The contract of a lease manager\<close>

text \<open>
  \<open>holder s n\<close> is the machine, the version and the index of the lease held under the name \<open>n\<close>; every
  write gives a new index, and the clock is the latest. An operation that reports a failure of the
  connection may have taken effect nevertheless.
\<close>

type_synonym holder = "string \<times> int \<times> nat"

definition lease_of :: "Lease \<Rightarrow> holder" where
  "lease_of l = (le_MachineID l, le_Version l, le_Index l)"

locale lease_manager =
  fixes lm :: "'s Manager"
    and inv :: "'s \<Rightarrow> bool"
    and key :: "string \<Rightarrow> string"
    and holder :: "'s \<Rightarrow> string \<rightharpoonup> holder"
    and clock :: "'s \<Rightarrow> nat"
  assumes holder_index: "\<lbrakk>inv s; plain n; holder s n = Some (m, v, i)\<rbrakk> \<Longrightarrow> 0 < i \<and> i \<le> clock s \<and> int64 v"
    and get: "\<lbrakk>inv s; plain n; lm_GetLease lm n s = Inr lo\<rbrakk> \<Longrightarrow>
      map_option lease_of lo = holder s n \<and> (\<forall>l. lo = Some l \<longrightarrow> le_key l = key n)"
    and acquire: "\<lbrakk>inv s; plain n; ascii m; int64 v; lm_AcquireLease lm n m v t s = (r, s')\<rbrakk> \<Longrightarrow>
      inv s' \<and> clock s \<le> clock s' \<and>
      (holder s' = holder s \<and> (\<forall>l. r \<noteq> Inr (Some l)) \<or>
       holder s n = None \<and> holder s' = (holder s)(n \<mapsto> (m, v, clock s')) \<and> clock s < clock s' \<and>
         r \<noteq> Inr None \<and> (\<forall>l. r = Inr (Some l) \<longrightarrow> lease_of l = (m, v, clock s') \<and> le_key l = key n))"
    and steal: "\<lbrakk>inv s; plain n; ascii m; int64 v; 0 < idx; lm_StealLease lm n m v t idx s = (r, s')\<rbrakk> \<Longrightarrow>
      inv s' \<and> clock s \<le> clock s' \<and>
      (holder s' = holder s \<and> (\<forall>l. r \<noteq> Inr (Some l)) \<or>
       (\<exists>m0 v0. holder s n = Some (m0, v0, idx)) \<and> holder s' = (holder s)(n \<mapsto> (m, v, clock s')) \<and> clock s < clock s' \<and>
         (\<forall>l. r = Inr (Some l) \<longrightarrow> lease_of l = (m, v, clock s') \<and> le_key l = key n))"
    and renew: "\<lbrakk>inv s; plain n; ascii (le_MachineID l); int64 (le_Version l); 0 < le_Index l; le_key l = key n;
        lm_Renew lm t l s = (q, s')\<rbrakk> \<Longrightarrow>
      inv s' \<and> clock s \<le> clock s' \<and>
      (holder s' = holder s \<and> (\<forall>l'. q \<noteq> Inr l') \<or>
       (\<exists>m0 v0. holder s n = Some (m0, v0, le_Index l)) \<and>
         holder s' = (holder s)(n \<mapsto> (le_MachineID l, le_Version l, clock s')) \<and> clock s < clock s' \<and>
         (\<forall>l'. q = Inr l' \<longrightarrow> lease_of l' = (le_MachineID l, le_Version l, clock s') \<and> le_key l' = key n))"
    and release: "\<lbrakk>inv s; plain n; 0 < le_Index l; le_key l = key n; lm_Release lm l s = (eo, s')\<rbrakk> \<Longrightarrow>
      inv s' \<and> clock s \<le> clock s' \<and>
      (holder s' = holder s \<and> eo \<noteq> None \<or>
       (\<exists>m0 v0. holder s n = Some (m0, v0, le_Index l)) \<and> holder s' = (holder s)(n := None))"

section \<open>etcd leases meet it\<close>

definition lease_key :: "string \<Rightarrow> string \<Rightarrow> string list" where
  "lease_key keyPrefix n = comps keyPrefix @ [leasePrefix, n]"

definition lease_holder :: "string \<Rightarrow> store \<Rightarrow> string \<rightharpoonup> holder" where
  "lease_holder keyPrefix s n =
     (if plain n then
        map_option (\<lambda>(v, i). lease_of (leaseFromResponse (Node [] v [] i 0))) (files s (lease_key keyPrefix n))
      else None)"

definition lease_inv :: "string \<Rightarrow> store \<Rightarrow> bool" where
  "lease_inv keyPrefix s \<longleftrightarrow> store_ok s \<and>
     (\<forall>n j ch. plain n \<longrightarrow> lookup (lease_key keyPrefix n) (es_root s) \<noteq> Some (Dir j ch))"

lemma plain_lease: "plain leasePrefix"
  by (simp add: leasePrefix_def plain_def)

lemma leasePath_key:
  assumes "rooted_path keyPrefix" "plain n"
  shows "leasePath keyPrefix n = abs_path (lease_key keyPrefix n)" "comps (leasePath keyPrefix n) = lease_key keyPrefix n"
    "''..'' \<notin> set (lease_key keyPrefix n)"
proof -
  have nd: "''..'' \<notin> set (lease_key keyPrefix n)"
    using assms plain_lease by (auto simp: lease_key_def rooted_path_def plain_def)
  have "concat (map comps [leasePrefix, n]) = [leasePrefix, n]" using assms plain_lease by simp
  then have j: "leasePath keyPrefix n = abs_path (lease_key keyPrefix n)"
    using path_Join_rooted[OF assms(1), of "[leasePrefix, n]"] nd
    by (simp add: leasePath_def lease_key_def)
  have "list_all plain (lease_key keyPrefix n)"
    using nd assms plain_lease by (auto simp: lease_key_def list_all_iff intro: comps_plain_all)
  then show "leasePath keyPrefix n = abs_path (lease_key keyPrefix n)" "comps (leasePath keyPrefix n) = lease_key keyPrefix n"
    "''..'' \<notin> set (lease_key keyPrefix n)"
    using j nd comps_abs_path by auto
qed

lemma lease_key_other: "n \<noteq> n' \<Longrightarrow> \<not> prefix (lease_key keyPrefix n) (lease_key keyPrefix n')"
  by (simp add: lease_key_def)

lemma lease_key_inj: "lease_key keyPrefix n = lease_key keyPrefix n' \<longleftrightarrow> n = n'"
  by (simp add: lease_key_def)

lemma lease_of_node: "lease_of (leaseFromResponse n) = lease_of (leaseFromResponse (Node [] (nd_Value n) [] (nd_ModifiedIndex n) 0))"
  by (simp add: lease_of_def leaseFromResponse_def Let_def split: option.split)

lemma lease_of_written:
  assumes "ascii m" "int64 v"
  shows "lease_of (leaseFromResponse (Node k (serializeLeaseMetadata m v) ns i ttl)) = (m, v, i)"
  using lease_metadata_roundtrip[OF assms] by (simp add: lease_of_def leaseFromResponse_def)

text \<open>A write to a lease key that succeeds, seen through the holders.\<close>

lemma set_holder:
  assumes "lease_inv keyPrefix s" "plain n" "ascii m" "int64 v" "rooted_path keyPrefix"
    and set: "spec_set (leasePath keyPrefix n) (serializeLeaseMetadata m v) so s = (Inr nd, s')"
  shows "lease_inv keyPrefix s'" "es_index s' = Suc (es_index s)"
    "lease_holder keyPrefix s' = (lease_holder keyPrefix s)(n \<mapsto> (m, v, es_index s'))"
    "lease_of (leaseFromResponse nd) = (m, v, es_index s')" "le_key (leaseFromResponse nd) = leasePath keyPrefix n"
proof -
  note key = leasePath_key[OF assms(5,2)]
  note sd = spec_set_done[OF set, unfolded key(2)]
  show "es_index s' = Suc (es_index s)" by (rule sd(2))
  show "lease_holder keyPrefix s' = (lease_holder keyPrefix s)(n \<mapsto> (m, v, es_index s'))"
  proof
    fix n'
    show "lease_holder keyPrefix s' n' = ((lease_holder keyPrefix s)(n \<mapsto> (m, v, es_index s'))) n'"
      using sd(1) assms(2) lease_of_written[OF assms(3,4)]
      by (cases "n' = n") (auto simp: lease_holder_def lease_key_inj)
  qed
  show "lease_of (leaseFromResponse nd) = (m, v, es_index s')"
    using sd lease_of_written[OF assms(3,4)] lease_of_node[of nd] by simp
  show "le_key (leaseFromResponse nd) = leasePath keyPrefix n"
    using sd(3) key(1) by (simp add: leaseFromResponse_def Let_def)
  have "store_ok s'"
    using spec_set_store_ok[OF set] assms(1) key by (simp add: lease_inv_def)
  moreover have "lookup (lease_key keyPrefix n') (es_root s') \<noteq> Some (Dir j ch)" if "plain n'" for n' j ch
    using set
  proof (cases rule: spec_set_cases)
    case written
    show ?thesis
    proof (cases "n' = n")
      case True
      then show ?thesis using put_lookup[OF written(3)] key(2) by simp
    next
      case False
      then have "lookup (lease_key keyPrefix n') (es_root s') = lookup (lease_key keyPrefix n') (es_root s)"
        using lookup_put_other[OF written(3)] key(2) lease_key_other[of n n'] lease_key_other[of n' n] by simp
      then show ?thesis using assms(1) that by (simp add: lease_inv_def)
    qed
  qed simp
  ultimately show "lease_inv keyPrefix s'" by (simp add: lease_inv_def)
qed


lemma delete_holder:
  assumes "lease_inv keyPrefix s" "plain n" "rooted_path keyPrefix"
    and del: "spec_delete (leasePath keyPrefix n) dopt s = (Inr nd, s')"
  shows "lease_inv keyPrefix s'" "lease_holder keyPrefix s' = (lease_holder keyPrefix s)(n := None)"
    "es_index s \<le> es_index s'"
proof -
  note key = leasePath_key[OF assms(3,2)]
  have ne: "comps (leasePath keyPrefix n) \<noteq> []" using key(2) by (simp add: lease_key_def)
  note sd = spec_delete_done[OF del ne, unfolded key(2)]
  show "lease_holder keyPrefix s' = (lease_holder keyPrefix s)(n := None)"
  proof
    fix n'
    show "lease_holder keyPrefix s' n' = ((lease_holder keyPrefix s)(n := None)) n'"
      using sd(1) lease_key_other[of n n'] by (cases "n' = n") (auto simp: lease_holder_def)
  qed
  from del have r: "es_root s' = prune (lease_key keyPrefix n) (es_root s)" "es_index s' = Suc (es_index s)"
    by (cases rule: spec_delete_cases; simp add: key(2))+
  then show "es_index s \<le> es_index s'" by simp
  have "lookup (lease_key keyPrefix n') (es_root s') \<noteq> Some (Dir j ch)" if "plain n'" for n' j ch
  proof (cases "n' = n")
    case True
    then show ?thesis using r lookup_prune_same[of "lease_key keyPrefix n"] by (simp add: lease_key_def)
  next
    case False
    then show ?thesis
      using r assms(1) that lookup_prune_other[OF lease_key_other lease_key_other, of n n' keyPrefix]
      by (simp add: lease_inv_def)
  qed
  then show "lease_inv keyPrefix s'"
    using spec_delete_store_ok[OF del _ ne] assms(1) by (simp add: lease_inv_def)
qed

text \<open>The index of a file and of its holder.\<close>

lemma holder_file:
  "plain n \<Longrightarrow> files s (lease_key keyPrefix n) = Some (v, i) \<Longrightarrow> \<exists>m ver. lease_holder keyPrefix s n = Some (m, ver, i)"
  by (simp add: lease_holder_def lease_of_def leaseFromResponse_def Let_def)

lemma holder_None_iff: "plain n \<Longrightarrow> lease_holder keyPrefix s n = None \<longleftrightarrow> files s (lease_key keyPrefix n) = None"
  by (simp add: lease_holder_def)

locale etcd_leases = etcd api store for api :: "'e KeysAPI" and store +
  fixes keyPrefix :: string
  assumes prefix_rooted: "rooted_path keyPrefix"
begin

text \<open>The three outcomes of a conditional write to a lease key.\<close>

lemma lease_write:
  assumes "lease_inv keyPrefix (store e)" "plain n" "ascii m" "int64 v"
    and "k_Set api (leasePath keyPrefix n) (serializeLeaseMetadata m v) so e = (r, e')"
  shows "lease_inv keyPrefix (store e') \<and> es_index (store e) \<le> es_index (store e') \<and>
    (store e' = store e \<and> (\<exists>err. r = Inl err) \<or>
     (\<exists>nd. spec_set (leasePath keyPrefix n) (serializeLeaseMetadata m v) so (store e) = (Inr nd, store e') \<and>
       (r = Inr nd \<or> (\<exists>msg. r = Inl (OtherError msg)))))"
  using assms(5)
proof (cases rule: set_outcomes)
  case (written nd)
  then show ?thesis using set_holder[OF assms(1-4) prefix_rooted written(1)] by auto
qed (use assms(1) in auto)

lemma write_needs:
  assumes "plain n" "spec_set (leasePath keyPrefix n) val so (store e) = (Inr nd, s')"
  shows "so_PrevExist so = PrevNoExist \<Longrightarrow> lease_holder keyPrefix (store e) n = None"
    "0 < so_PrevIndex so \<Longrightarrow> \<exists>m v. lease_holder keyPrefix (store e) n = Some (m, v, so_PrevIndex so)"
proof -
  note key = leasePath_key[OF prefix_rooted assms(1)]
  note sd = spec_set_done[OF assms(2), unfolded key(2)]
  show "so_PrevExist so = PrevNoExist \<Longrightarrow> lease_holder keyPrefix (store e) n = None"
    using sd(7) holder_None_iff[OF assms(1)] by (simp add: files_def file_at_def)
  show "0 < so_PrevIndex so \<Longrightarrow> \<exists>m v. lease_holder keyPrefix (store e) n = Some (m, v, so_PrevIndex so)"
    using sd(9) holder_file[OF assms(1)] by auto
qed

lemma etcd_acquire:
  assumes "lease_inv keyPrefix (store s)" "plain n" "ascii m" "int64 v" "AcquireLease api keyPrefix n m v t s = (r, s')"
  shows "lease_inv keyPrefix (store s') \<and> es_index (store s) \<le> es_index (store s') \<and>
    (lease_holder keyPrefix (store s') = lease_holder keyPrefix (store s) \<and> (\<forall>l. r \<noteq> Inr (Some l)) \<or>
     lease_holder keyPrefix (store s) n = None \<and>
       lease_holder keyPrefix (store s') = (lease_holder keyPrefix (store s))(n \<mapsto> (m, v, es_index (store s'))) \<and>
       es_index (store s) < es_index (store s') \<and> r \<noteq> Inr None \<and>
       (\<forall>l. r = Inr (Some l) \<longrightarrow> lease_of l = (m, v, es_index (store s')) \<and> le_key l = leasePath keyPrefix n))"
proof -
  let ?so = "setOptions\<lparr>so_TTL := t, so_PrevExist := PrevNoExist\<rparr>"
  obtain q where k: "k_Set api (leasePath keyPrefix n) (serializeLeaseMetadata m v) ?so s = (q, s')"
    using assms(5) by (auto simp: AcquireLease_def Let_def split: prod.splits sum.splits)
  note w = lease_write[OF assms(1-4) k]
  consider (kept) err where "q = Inl err" "store s' = store s"
    | (wrote) nd where "spec_set (leasePath keyPrefix n) (serializeLeaseMetadata m v) ?so (store s) = (Inr nd, store s')"
        "q = Inr nd \<or> (\<exists>msg. q = Inl (OtherError msg))"
    using w by auto
  then show ?thesis
  proof cases
    case kept
    then show ?thesis using w k assms(5) by (auto simp: AcquireLease_def Let_def split: if_splits)
  next
    case wrote
    have "lease_holder keyPrefix (store s) n = None"
      using write_needs(1)[OF assms(2) wrote(1)] by (simp add: setOptions_def)
    with wrote(2) set_holder[OF assms(1-4) prefix_rooted wrote(1)] show ?thesis
      using k assms(5) by (auto simp: AcquireLease_def Let_def isEtcdError_def)
  qed
qed

lemma etcd_steal:
  assumes "lease_inv keyPrefix (store s)" "plain n" "ascii m" "int64 v" "0 < idx"
    and "StealLease api keyPrefix n m v t idx s = (r, s')"
  shows "lease_inv keyPrefix (store s') \<and> es_index (store s) \<le> es_index (store s') \<and>
    (lease_holder keyPrefix (store s') = lease_holder keyPrefix (store s) \<and> (\<forall>l. r \<noteq> Inr (Some l)) \<or>
     (\<exists>m0 v0. lease_holder keyPrefix (store s) n = Some (m0, v0, idx)) \<and>
       lease_holder keyPrefix (store s') = (lease_holder keyPrefix (store s))(n \<mapsto> (m, v, es_index (store s'))) \<and>
       es_index (store s) < es_index (store s') \<and>
       (\<forall>l. r = Inr (Some l) \<longrightarrow> lease_of l = (m, v, es_index (store s')) \<and> le_key l = leasePath keyPrefix n))"
proof -
  let ?so = "setOptions\<lparr>so_PrevIndex := idx, so_TTL := t\<rparr>"
  obtain q where k: "k_Set api (leasePath keyPrefix n) (serializeLeaseMetadata m v) ?so s = (q, s')"
    using assms(6) by (auto simp: StealLease_def Let_def split: prod.splits sum.splits)
  note w = lease_write[OF assms(1-4) k]
  consider (kept) err where "q = Inl err" "store s' = store s"
    | (wrote) nd where "spec_set (leasePath keyPrefix n) (serializeLeaseMetadata m v) ?so (store s) = (Inr nd, store s')"
        "q = Inr nd \<or> (\<exists>msg. q = Inl (OtherError msg))"
    using w by auto
  then show ?thesis
  proof cases
    case kept
    then show ?thesis using w k assms(6) by (auto simp: StealLease_def Let_def split: if_splits)
  next
    case wrote
    have "\<exists>m0 v0. lease_holder keyPrefix (store s) n = Some (m0, v0, idx)"
      using write_needs(2)[OF assms(2) wrote(1)] assms(5) by simp
    with wrote(2) set_holder[OF assms(1-4) prefix_rooted wrote(1)] show ?thesis
      using k assms(6) by (auto simp: StealLease_def Let_def isEtcdError_def)
  qed
qed

lemma etcd_renew:
  assumes "lease_inv keyPrefix (store s)" "plain n" "ascii (le_MachineID l)" "int64 (le_Version l)" "0 < le_Index l"
    and "le_key l = leasePath keyPrefix n" "Renew api t l s = (q, s')"
  shows "lease_inv keyPrefix (store s') \<and> es_index (store s) \<le> es_index (store s') \<and>
    (lease_holder keyPrefix (store s') = lease_holder keyPrefix (store s) \<and> (\<forall>l'. q \<noteq> Inr l') \<or>
     (\<exists>m0 v0. lease_holder keyPrefix (store s) n = Some (m0, v0, le_Index l)) \<and>
       lease_holder keyPrefix (store s') =
         (lease_holder keyPrefix (store s))(n \<mapsto> (le_MachineID l, le_Version l, es_index (store s'))) \<and>
       es_index (store s) < es_index (store s') \<and>
       (\<forall>l'. q = Inr l' \<longrightarrow> lease_of l' = (le_MachineID l, le_Version l, es_index (store s')) \<and> le_key l' = leasePath keyPrefix n))"
proof -
  let ?so = "setOptions\<lparr>so_PrevIndex := le_Index l, so_TTL := t\<rparr>"
  let ?val = "serializeLeaseMetadata (le_MachineID l) (le_Version l)"
  obtain r where k: "k_Set api (leasePath keyPrefix n) ?val ?so s = (r, s')"
    using assms(6,7) by (auto simp: Renew_def Let_def split: prod.splits sum.splits)
  note w = lease_write[OF assms(1-4) k]
  consider (kept) err where "r = Inl err" "store s' = store s"
    | (wrote) nd where "spec_set (leasePath keyPrefix n) ?val ?so (store s) = (Inr nd, store s')"
        "r = Inr nd \<or> (\<exists>msg. r = Inl (OtherError msg))"
    using w by auto
  then show ?thesis
  proof cases
    case kept
    then show ?thesis using w k assms(6,7) by (auto simp: Renew_def Let_def)
  next
    case wrote
    have "\<exists>m0 v0. lease_holder keyPrefix (store s) n = Some (m0, v0, le_Index l)"
      using write_needs(2)[OF assms(2) wrote(1)] assms(5) by simp
    with wrote(2) set_holder[OF assms(1-4) prefix_rooted wrote(1)] show ?thesis
      using k assms(6,7) by (auto simp: Renew_def Let_def)
  qed
qed

lemma etcd_release:
  assumes "lease_inv keyPrefix (store s)" "plain n" "0 < le_Index l" "le_key l = leasePath keyPrefix n"
    and "Release api l s = (eo, s')"
  shows "lease_inv keyPrefix (store s') \<and> es_index (store s) \<le> es_index (store s') \<and>
    (lease_holder keyPrefix (store s') = lease_holder keyPrefix (store s) \<and> eo \<noteq> None \<or>
     (\<exists>m0 v0. lease_holder keyPrefix (store s) n = Some (m0, v0, le_Index l)) \<and>
       lease_holder keyPrefix (store s') = (lease_holder keyPrefix (store s))(n := None))"
proof -
  let ?do = "deleteOptions\<lparr>do_PrevIndex := le_Index l\<rparr>"
  let ?sp = "spec_delete (leasePath keyPrefix n) ?do (store s)"
  obtain q where k: "k_Delete api (leasePath keyPrefix n) ?do s = (q, s')" "eo = None \<longleftrightarrow> (\<exists>nd. q = Inr nd)"
    using assms(4,5) by (auto simp: Release_def split: prod.splits sum.splits)
  note key = leasePath_key[OF prefix_rooted assms(2)]
  have ne: "comps (leasePath keyPrefix n) \<noteq> []" using key(2) by (simp add: lease_key_def)
  have removed: "lease_inv keyPrefix s2 \<and> es_index (store s) \<le> es_index s2 \<and>
      (\<exists>m0 v0. lease_holder keyPrefix (store s) n = Some (m0, v0, le_Index l)) \<and>
      lease_holder keyPrefix s2 = (lease_holder keyPrefix (store s))(n := None)" if "?sp = (Inr nd, s2)" for nd s2
    using spec_delete_done(3)[OF that ne] delete_holder[OF assms(1,2) prefix_rooted that] assms(3) key(2)
      holder_file[OF assms(2)] by auto
  from k(1) show ?thesis
  proof (cases rule: delete_outcomes)
    case (deleted nd)
    then show ?thesis using removed[OF deleted(1)] by simp
  qed (use k(2) assms(1) in auto)
qed

lemma etcd_get:
  assumes "lease_inv keyPrefix (store s)" "plain n" "GetLease api keyPrefix n s = Inr lo"
  shows "map_option lease_of lo = lease_holder keyPrefix (store s) n \<and> (\<forall>l. lo = Some l \<longrightarrow> le_key l = leasePath keyPrefix n)"
proof -
  note key = leasePath_key[OF prefix_rooted assms(2)]
  let ?r = "k_Get api (leasePath keyPrefix n) getOptions s"
  have r: "?r = spec_get (leasePath keyPrefix n) getOptions (store s)"
    using Get[OF refl, of "leasePath keyPrefix n" getOptions s] assms(3)
    by (auto simp: GetLease_def isEtcdError_def split: sum.splits if_splits)
  show ?thesis
  proof (cases "files (store s) (lease_key keyPrefix n)")
    case None
    then have "lookup (lease_key keyPrefix n) (es_root (store s)) = None"
      using assms(1,2) by (auto simp: lease_inv_def files_def file_at_def split: option.splits etree.splits)
    then show ?thesis
      using r assms(3) key(2) None assms(2)
      by (simp add: GetLease_def spec_get_def isEtcdError_def lease_holder_def)
  next
    case (Some vi)
    obtain v i where vi: "files (store s) (lease_key keyPrefix n) = Some (v, i)" using Some by (cases vi) auto
    then obtain ttl where "?r = Inr (Node (leasePath keyPrefix n) v [] i ttl)"
      using spec_get_file[of "store s" "leasePath keyPrefix n" v i getOptions] r key by auto
    then have "lo = Some (leaseFromResponse (Node (leasePath keyPrefix n) v [] i ttl))"
      using assms(3) by (simp add: GetLease_def)
    then show ?thesis
      using vi assms(2) lease_of_node[of "Node (leasePath keyPrefix n) v [] i ttl"]
      by (simp add: lease_holder_def leaseFromResponse_def Let_def)
  qed
qed

end

sublocale etcd_leases \<subseteq> leases: lease_manager "NewEtcdLeaseManager api keyPrefix" "\<lambda>e. lease_inv keyPrefix (store e)"
  "leasePath keyPrefix" "\<lambda>e. lease_holder keyPrefix (store e)" "\<lambda>e. es_index (store e)"
proof
  show "0 < i \<and> i \<le> es_index (store s) \<and> int64 v"
    if h: "lease_inv keyPrefix (store s)" "plain n" "lease_holder keyPrefix (store s) n = Some (m, v, i)" for s n m v i
  proof -
    obtain val j where f: "files (store s) (lease_key keyPrefix n) = Some (val, j)"
      and l: "lease_of (leaseFromResponse (Node [] val [] j 0)) = (m, v, i)"
      using h(2,3) by (auto simp: lease_holder_def)
    moreover from l have "j = i" by (simp add: lease_of_def leaseFromResponse_def Let_def)
    ultimately show ?thesis using h(1) lease_version_int64[of "Node [] val [] i 0"]
      by (auto simp: lease_inv_def store_ok_def lease_of_def)
  qed
qed (unfold NewEtcdLeaseManager_def Manager.simps, rule etcd_get etcd_acquire etcd_steal etcd_renew etcd_release; assumption)+

interpretation local_leases: etcd_leases local_etcd "\<lambda>s. s" "''/_coreos.com/fleet/''"
  by unfold_locales (simp add: rooted_path_def comps_def)

end
