(* ===== verification/Engine_Leader.thy ===== *)
theory Engine_Leader
  imports Engine_Tasks Lease
begin

text \<open>
  The engine around its reconciler: \<open>engine/engine.go\<close> (leadership, the version of the cluster, one
  round of \<open>Run\<close>), \<open>engine/rpcengine.go\<close> (leadership when the registry is served over gRPC) and the
  execution of tasks from \<open>engine/reconciler.go\<close>. Registry, cluster registry and lease manager are
  records of functions over one state. Logging, metrics and waiting are left out; the lease an
  engine holds and whether a round reconciled are results.
\<close>

definition engineLeaseName :: string where "engineLeaseName = ''engine-leader''"

definition engineVersion :: int where "engineVersion = 1"

lemma engine_lease_plain [simp]: "plain engineLeaseName"
  by (simp add: engineLeaseName_def plain_def)

section \<open>Leadership\<close>

definition isLeader :: "Lease option \<Rightarrow> string \<Rightarrow> bool" where
  "isLeader l machID = (case l of None \<Rightarrow> False | Some l \<Rightarrow> le_MachineID l = machID)"

definition ensureEngineVersionMatch :: "'s ClusterRegistry \<Rightarrow> int \<Rightarrow> 's \<Rightarrow> bool \<times> 's" where
  "ensureEngineVersionMatch cReg expect s =
     (case cr_EngineVersion cReg s of
        Inl err \<Rightarrow> (False, s)
      | Inr v \<Rightarrow>
          if v < expect then
            (case cr_UpdateEngineVersion cReg v expect s of
               (Some err, s') \<Rightarrow> (False, s')
             | (None, s') \<Rightarrow> (True, s'))
          else if expect < v then (False, s)
          else (True, s))"

text \<open>What a failed or refused attempt and a granted one leave the engine with.\<close>

definition granted :: "Lease option reply \<times> 's \<Rightarrow> Lease option \<times> 's" where
  "granted r = (case r of (Inl err, s') \<Rightarrow> (None, s') | (Inr l, s') \<Rightarrow> (l, s'))"

definition acquireLeadership :: "'s Manager \<Rightarrow> string \<Rightarrow> int \<Rightarrow> Duration \<Rightarrow> 's \<Rightarrow> Lease option \<times> 's" where
  "acquireLeadership lManager machID ver ttl s =
     (case lm_GetLease lManager engineLeaseName s of
        Inl err \<Rightarrow> (None, s)
      | Inr None \<Rightarrow> granted (lm_AcquireLease lManager engineLeaseName machID ver ttl s)
      | Inr (Some existing) \<Rightarrow>
          if ver \<le> le_Version existing then (Some existing, s)
          else granted (lm_StealLease lManager engineLeaseName machID ver
                          (ttl + le_TimeRemaining existing) (le_Index existing) s))"

definition renewLeadership :: "'s Manager \<Rightarrow> Lease \<Rightarrow> Duration \<Rightarrow> 's \<Rightarrow> Lease option \<times> 's" where
  "renewLeadership lManager l ttl s =
     (case lm_Renew lManager ttl l s of
        (Inl err, s') \<Rightarrow> (None, s')
      | (Inr l', s') \<Rightarrow> (Some l', s'))"

section \<open>Leadership with gRPC\<close>

definition rpcAcquireLeadership ::
  "'s Registry \<Rightarrow> 's Manager \<Rightarrow> string \<Rightarrow> int \<Rightarrow> Duration \<Rightarrow> 's \<Rightarrow> Lease option \<times> 's" where
  "rpcAcquireLeadership reg lManager machID ver ttl s =
     (case lm_GetLease lManager engineLeaseName s of
        Inl err \<Rightarrow> (None, s)
      | Inr None \<Rightarrow>
          if reg_UseEtcdRegistry reg s \<or> \<not> reg_IsRegistryReady reg s
          then granted (lm_AcquireLease lManager engineLeaseName machID ver ttl s)
          else (None, s)
      | Inr (Some existing) \<Rightarrow>
          if ver \<le> le_Version existing then (Some existing, s)
          else if reg_UseEtcdRegistry reg s \<or> \<not> reg_IsRegistryReady reg s
          then granted (lm_StealLease lManager engineLeaseName machID ver
                          (ttl + le_TimeRemaining existing) (le_Index existing) s)
          else (Some existing, s))"

text \<open>The type of error \<open>rpcRenewLeadership\<close> looks for before it tries to acquire the lease again.\<close>

definition isServerError :: "go_error \<Rightarrow> nat \<Rightarrow> bool" where
  "isServerError err code = (case err of ServerError c \<Rightarrow> c = code | _ \<Rightarrow> False)"

definition rpcRenewLeadership :: "'s Manager \<Rightarrow> Lease \<Rightarrow> int \<Rightarrow> Duration \<Rightarrow> 's \<Rightarrow> Lease option \<times> 's" where
  "rpcRenewLeadership lManager l ver ttl s =
     (case lm_Renew lManager ttl l s of
        (Inl err, s') \<Rightarrow>
          if isServerError err ErrorCodeKeyNotFound
          then granted (lm_AcquireLease lManager engineLeaseName (le_MachineID l) ver ttl s')
          else (None, s')
      | (Inr l', s') \<Rightarrow> (Some l', s'))"

definition getMachineState :: "'s Registry \<Rightarrow> string \<Rightarrow> 's \<Rightarrow> MachineState option result" where
  "getMachineState reg machID s =
     (case reg_Machines reg s of
        Inl err \<Rightarrow> Inl err
      | Inr machines \<Rightarrow> Inr (List.find (\<lambda>m. ms_ID m = machID) machines))"

text \<open>\<open>IsGrpcLeader\<close> dereferences the machine state it looked up: without one it panics.\<close>

datatype grpc_answer = GrpcAnswer bool | GrpcError string | GrpcPanic

definition IsGrpcLeader :: "'s Registry \<Rightarrow> 's Manager \<Rightarrow> 's \<Rightarrow> grpc_answer" where
  "IsGrpcLeader reg lManager s =
     (case lm_GetLease lManager engineLeaseName s of
        Inl err \<Rightarrow> GrpcError (err_text err)
      | Inr None \<Rightarrow> GrpcError ''Unable to get the current leader''
      | Inr (Some leader) \<Rightarrow>
          (case getMachineState reg (le_MachineID leader) s of
             Inl err \<Rightarrow> GrpcError err
           | Inr None \<Rightarrow> GrpcPanic
           | Inr (Some st) \<Rightarrow> GrpcAnswer (Capabilities_Has (ms_Capabilities st) CapGRPC)))"

record Engine =
  e_machine :: MachineState
  e_lease :: "Lease option"

definition Engine_New :: "MachineState \<Rightarrow> Engine" where
  "Engine_New mach = \<lparr>e_machine = mach, e_lease = None\<rparr>"

text \<open>The new lease and the machine state the gRPC layer is told of when the leader changes.\<close>

definition rpcLeadership :: "'s Registry \<Rightarrow> 's Manager \<Rightarrow> Engine \<Rightarrow> Duration \<Rightarrow> 's \<Rightarrow>
    Lease option \<times> MachineState option \<times> 's" where
  "rpcLeadership reg lManager e leaseTTL s =
     (let machID = ms_ID (e_machine e);
          previousEngine = (case e_lease e of None \<Rightarrow> [] | Some l \<Rightarrow> le_MachineID l);
          (l, s') =
            (case e_lease e of
               Some old \<Rightarrow>
                 if le_MachineID old = machID then rpcRenewLeadership lManager old engineVersion leaseTTL s
                 else rpcAcquireLeadership reg lManager machID engineVersion leaseTTL s
             | None \<Rightarrow> rpcAcquireLeadership reg lManager machID engineVersion leaseTTL s)
      in (l,
          (case l of
             None \<Rightarrow> None
           | Some new \<Rightarrow>
               if previousEngine = le_MachineID new then None
               else (case getMachineState reg (le_MachineID new) s' of Inl err \<Rightarrow> None | Inr st \<Rightarrow> st)),
          s'))"

section \<open>Tasks\<close>

definition engine_clusterState :: "'s Registry \<Rightarrow> 's \<Rightarrow> clusterState result" where
  "engine_clusterState reg s =
     (case reg_Units reg s of
        Inl err \<Rightarrow> Inl err
      | Inr units \<Rightarrow>
          (case reg_Schedule reg s of
             Inl err \<Rightarrow> Inl err
           | Inr sUnits \<Rightarrow>
               (case reg_Machines reg s of
                  Inl err \<Rightarrow> Inl err
                | Inr machines \<Rightarrow> Inr (newClusterState units sUnits machines))))"

definition unscheduleUnit :: "'s Registry \<Rightarrow> string \<Rightarrow> string \<Rightarrow> 's \<Rightarrow> string option \<times> 's" where
  "unscheduleUnit reg name machID s = reg_UnscheduleUnit reg name machID s"

definition attemptScheduleUnit :: "'s Registry \<Rightarrow> string \<Rightarrow> string \<Rightarrow> 's \<Rightarrow> bool \<times> 's" where
  "attemptScheduleUnit reg name machID s =
     (case reg_ScheduleUnit reg name machID s of
        (Some err, s') \<Rightarrow> (False, s')
      | (None, s') \<Rightarrow> (True, s'))"

definition doTask :: "'s Registry \<Rightarrow> task \<Rightarrow> 's \<Rightarrow> string option \<times> 's" where
  "doTask reg t s =
     (if t_Type t = taskTypeUnscheduleUnit then unscheduleUnit reg (t_JobName t) (t_MachineID t) s
      else if t_Type t = taskTypeAttemptScheduleUnit
      then (None, snd (attemptScheduleUnit reg (t_JobName t) (t_MachineID t) s))
      else (Some (''unrecognized task type '' @ t_Type t), s))"

text \<open>
  \<open>Reconciler.Reconcile\<close>: the tasks are computed from one snapshot of the cluster and executed one
  after another, a failing one not stopping the rest.
\<close>

definition engine_Reconcile :: "range_order \<Rightarrow> Scheduler \<Rightarrow> 's Registry \<Rightarrow> nat option \<Rightarrow> 's \<Rightarrow> 's" where
  "engine_Reconcile ord sched reg stop s =
     (case engine_clusterState reg s of
        Inl err \<Rightarrow> s
      | Inr clust \<Rightarrow> fold (\<lambda>t s. snd (doTask reg t s)) (r_tasks (calculateClusterTasks ord sched stop clust)) s)"

definition leaseTTL :: "Duration \<Rightarrow> Capabilities \<Rightarrow> Duration" where
  "leaseTTL ival caps = (if Capabilities_Has caps CapGRPC then ival * 500000 else ival * 5)"

text \<open>The lease the engine has after it renewed its own or tried to get it.\<close>

definition update_lease :: "'s Registry \<Rightarrow> 's Manager \<Rightarrow> Engine \<Rightarrow> Duration \<Rightarrow> 's \<Rightarrow> Lease option \<times> 's" where
  "update_lease reg lManager e ttl s =
     (let machID = ms_ID (e_machine e) in
      if Capabilities_Has (ms_Capabilities (e_machine e)) CapGRPC then
        (let (l, upd, s') = rpcLeadership reg lManager e ttl s in (l, s'))
      else
        (case e_lease e of
           Some old \<Rightarrow>
             if le_MachineID old = machID then renewLeadership lManager old ttl s
             else acquireLeadership lManager machID engineVersion ttl s
         | None \<Rightarrow> acquireLeadership lManager machID engineVersion ttl s))"

text \<open>
  One round of \<open>Run\<close>: the engine after it, whether it reconciled, and the state. \<open>stop\<close> is after how
  many tasks the lease time ran out or the server shut down.
\<close>

definition engine_round :: "range_order \<Rightarrow> 's Registry \<Rightarrow> 's ClusterRegistry \<Rightarrow> 's Manager \<Rightarrow> Duration \<Rightarrow> nat option \<Rightarrow>
    Engine \<Rightarrow> 's \<Rightarrow> Engine \<times> bool \<times> 's" where
  "engine_round ord reg cReg lManager ival stop e s =
     (let (ok, s1) = ensureEngineVersionMatch cReg engineVersion s
      in if \<not> ok then (e, False, s1)
         else
           let (l, s2) = update_lease reg lManager e (leaseTTL ival (ms_Capabilities (e_machine e))) s1;
               e' = e\<lparr>e_lease := l\<rparr>
           in if \<not> isLeader l (ms_ID (e_machine e)) then (e', False, s2)
              else (e', True, engine_Reconcile ord leastLoadedScheduler reg stop s2))"

definition engine_Purge :: "'s Manager \<Rightarrow> Engine \<Rightarrow> 's \<Rightarrow> 's" where
  "engine_Purge lManager e s =
     (case e_lease e of
        None \<Rightarrow> s
      | Some l \<Rightarrow> if le_MachineID l = ms_ID (e_machine e) then snd (lm_Release lManager l s) else s)"


section \<open>Engines competing for the lease\<close>

text \<open>
  The engines of a cluster on one state: an engine runs a round, gives its lease up or is restarted,
  and anything else that happens to the state (\<open>env\<close>: agents, clients, leases that expire) happens
  between these steps.
\<close>

record 's world =
  w_state :: 's
  w_engines :: "string \<Rightarrow> Engine"

inductive engine_step ::
  "'s Registry \<Rightarrow> 's ClusterRegistry \<Rightarrow> 's Manager \<Rightarrow> ('s \<Rightarrow> 's \<Rightarrow> bool) \<Rightarrow> 's world \<Rightarrow> 's world \<Rightarrow> bool"
  for reg cReg lm env where
  round: "\<lbrakk>ascii m; valid_order ord; engine_round ord reg cReg lm ival stop (w_engines w m) (w_state w) = (e', did, s')\<rbrakk> \<Longrightarrow>
    engine_step reg cReg lm env w (w\<lparr>w_state := s', w_engines := (w_engines w)(m := e')\<rparr>)"
| purge: "engine_step reg cReg lm env w (w\<lparr>w_state := engine_Purge lm (w_engines w m) (w_state w)\<rparr>)"
| restart: "engine_step reg cReg lm env w
    (w\<lparr>w_engines := (w_engines w)(m := Engine_New (e_machine (w_engines w m)))\<rparr>)"
| others: "env (w_state w) s' \<Longrightarrow> engine_step reg cReg lm env w (w\<lparr>w_state := s'\<rparr>)"

inductive_cases engine_stepE: "engine_step reg cReg lm env w w'"

text \<open>An engine leads while the lease it holds is its own and is the one the lease manager has.\<close>

definition leads :: "('s \<Rightarrow> string \<rightharpoonup> holder) \<Rightarrow> 's world \<Rightarrow> string \<Rightarrow> bool" where
  "leads holder w m \<longleftrightarrow>
     (\<exists>l m0 v. e_lease (w_engines w m) = Some l \<and> le_MachineID l = m \<and>
        holder (w_state w) engineLeaseName = Some (m0, v, le_Index l))"

definition engines_named :: "'s world \<Rightarrow> bool" where
  "engines_named w \<longleftrightarrow> (\<forall>m. ms_ID (e_machine (w_engines w m)) = m)"

text \<open>
  What the engine needs of the registries it shares the state with: beside keeping the schedule, they
  leave the leases alone, whether a call succeeds or fails.
\<close>

locale engine_world = lease_manager lm inv key holder clock + schedule_registry reg inv sched listed
  for lm :: "'s Manager" and inv key holder clock and reg :: "'s Registry" and sched listed +
  fixes cReg :: "'s ClusterRegistry"
  assumes Update_quiet: "\<lbrakk>inv s; cr_UpdateEngineVersion cReg v v' s = (eo, s')\<rbrakk> \<Longrightarrow>
      inv s' \<and> holder s' = holder s \<and> clock s \<le> clock s'"
    and Schedule_quiet: "\<lbrakk>inv s; plain u; m \<noteq> []; reg_ScheduleUnit reg u m s = (eo, s')\<rbrakk> \<Longrightarrow>
      inv s' \<and> holder s' = holder s \<and> clock s \<le> clock s'"
    and Unschedule_quiet: "\<lbrakk>inv s; plain u; m \<noteq> []; reg_UnscheduleUnit reg u m s = (eo, s')\<rbrakk> \<Longrightarrow>
      inv s' \<and> holder s' = holder s \<and> clock s \<le> clock s'"
begin

text \<open>What any of the steps may do to the engine lease: keep it, drop it, or give it a new index.\<close>

definition evolves :: "'s \<Rightarrow> 's \<Rightarrow> bool" where
  "evolves s s' \<longleftrightarrow> inv s' \<and> clock s \<le> clock s' \<and>
     (holder s' engineLeaseName = holder s engineLeaseName \<or> holder s' engineLeaseName = None \<or>
      (\<exists>m v i. holder s' engineLeaseName = Some (m, v, i) \<and> clock s < i))"

definition lease_fine :: "'s \<Rightarrow> Lease \<Rightarrow> bool" where
  "lease_fine s l \<longleftrightarrow> le_key l = key engineLeaseName \<and> 0 < le_Index l \<and> le_Index l \<le> clock s \<and>
     int64 (le_Version l) \<and> (\<forall>m0 v0. holder s engineLeaseName = Some (m0, v0, le_Index l) \<longrightarrow> m0 = le_MachineID l)"

lemma evolves_refl: "inv s \<Longrightarrow> evolves s s"
  by (simp add: evolves_def)

lemma evolves_inv: "evolves s s' \<Longrightarrow> inv s'"
  by (simp add: evolves_def)

lemma evolves_trans: "evolves s s1 \<Longrightarrow> evolves s1 s2 \<Longrightarrow> evolves s s2"
  unfolding evolves_def by (elim conjE disjE exE) (auto dest: order.strict_trans1)

lemma evolves_fine: "evolves s s' \<Longrightarrow> lease_fine s l \<Longrightarrow> lease_fine s' l"
  by (auto simp: evolves_def lease_fine_def)

lemma get_fine:
  assumes "inv s" "lm_GetLease lm engineLeaseName s = Inr (Some l)"
  shows "lease_fine s l" "0 < le_Index l"
proof -
  have h: "holder s engineLeaseName = Some (lease_of l)" "le_key l = key engineLeaseName"
    using get[OF assms(1) _ assms(2)] by auto
  with holder_index[OF assms(1) _ h(1)[unfolded lease_of_def]] show "lease_fine s l" "0 < le_Index l"
    by (auto simp: lease_fine_def lease_of_def)
qed

lemma acquire_evolves:
  assumes "inv s" "ascii m" "int64 v" "granted (lm_AcquireLease lm engineLeaseName m v t s) = (lo, s')"
  shows "evolves s s' \<and> (\<forall>l. lo = Some l \<longrightarrow> lease_fine s' l)"
proof -
  obtain r where a: "lm_AcquireLease lm engineLeaseName m v t s = (r, s')"
    and r: "lo = Some l \<longleftrightarrow> r = Inr (Some l)" for l
    using assms(4) by (auto simp: granted_def split: prod.splits sum.splits)
  from acquire[OF assms(1) engine_lease_plain assms(2,3) a] show ?thesis
    using r assms(3) by (elim conjE disjE) (auto simp: evolves_def lease_fine_def lease_of_def)
qed

lemma steal_evolves:
  assumes "inv s" "ascii m" "int64 v" "0 < idx" "granted (lm_StealLease lm engineLeaseName m v t idx s) = (lo, s')"
  shows "evolves s s' \<and> (\<forall>l. lo = Some l \<longrightarrow> lease_fine s' l)"
proof -
  obtain r where a: "lm_StealLease lm engineLeaseName m v t idx s = (r, s')"
    and r: "lo = Some l \<longleftrightarrow> r = Inr (Some l)" for l
    using assms(5) by (auto simp: granted_def split: prod.splits sum.splits)
  from steal[OF assms(1) engine_lease_plain assms(2-4) a] show ?thesis
    using r assms(3) by (elim conjE disjE) (auto simp: evolves_def lease_fine_def lease_of_def)
qed

lemma renew_evolves:
  assumes "inv s" "lease_fine s l" "ascii (le_MachineID l)" "lm_Renew lm t l s = (q, s')"
  shows "evolves s s' \<and> (\<forall>l'. q = Inr l' \<longrightarrow> lease_fine s' l')"
proof -
  have l: "int64 (le_Version l)" "0 < le_Index l" "le_key l = key engineLeaseName"
    using assms(2) by (auto simp: lease_fine_def)
  from renew[OF assms(1) engine_lease_plain assms(3) l assms(4)]
  consider (kept) "inv s'" "clock s \<le> clock s'" "holder s' = holder s" "\<forall>l'. q \<noteq> Inr l'"
    | (new) "inv s'" "clock s < clock s'"
        "holder s' = (holder s)(engineLeaseName \<mapsto> (le_MachineID l, le_Version l, clock s'))"
        "\<forall>l'. q = Inr l' \<longrightarrow> lease_of l' = (le_MachineID l, le_Version l, clock s') \<and> le_key l' = key engineLeaseName"
    by blast
  then show ?thesis
  proof cases
    case kept
    then show ?thesis by (simp add: evolves_def)
  next
    case new
    have "lease_fine s' l'" if "q = Inr l'" for l'
    proof -
      from new(4) that have "lease_of l' = (le_MachineID l, le_Version l, clock s')" "le_key l' = key engineLeaseName"
        by blast+
      with new(2,3) l show ?thesis unfolding lease_fine_def lease_of_def by simp
    qed
    moreover have "evolves s s'" using new(1-3) by (simp add: evolves_def)
    ultimately show ?thesis by blast
  qed
qed

lemma acquireLeadership_evolves:
  assumes "inv s" "ascii m" "int64 v" "acquireLeadership lm m v t s = (lo, s')"
  shows "evolves s s' \<and> (\<forall>l. lo = Some l \<longrightarrow> lease_fine s' l)"
proof (cases "lm_GetLease lm engineLeaseName s")
  case (Inl err)
  then show ?thesis using assms evolves_refl by (auto simp: acquireLeadership_def)
next
  case (Inr existing)
  show ?thesis
  proof (cases existing)
    case None
    then show ?thesis using assms acquire_evolves[OF assms(1-3)] Inr by (simp add: acquireLeadership_def)
  next
    case (Some l)
    then show ?thesis
      using assms get_fine[of s l] Inr evolves_refl[OF assms(1)] steal_evolves[OF assms(1-3), of "le_Index l"]
      by (auto simp: acquireLeadership_def split: if_splits)
  qed
qed

lemma rpcAcquireLeadership_evolves:
  assumes "inv s" "ascii m" "int64 v" "rpcAcquireLeadership reg lm m v t s = (lo, s')"
  shows "evolves s s' \<and> (\<forall>l. lo = Some l \<longrightarrow> lease_fine s' l)"
proof (cases "lm_GetLease lm engineLeaseName s")
  case (Inl err)
  then show ?thesis using assms evolves_refl by (auto simp: rpcAcquireLeadership_def)
next
  case (Inr existing)
  show ?thesis
  proof (cases existing)
    case None
    show ?thesis
    proof (cases "reg_UseEtcdRegistry reg s \<or> \<not> reg_IsRegistryReady reg s")
      case True
      then have "granted (lm_AcquireLease lm engineLeaseName m v t s) = (lo, s')"
        using None Inr assms(4) by (simp add: rpcAcquireLeadership_def)
      then show ?thesis by (rule acquire_evolves[OF assms(1-3)])
    next
      case False
      then show ?thesis
        using None Inr assms(4) evolves_refl[OF assms(1)] by (simp add: rpcAcquireLeadership_def)
    qed
  next
    case (Some l)
    have l: "lease_fine s l" "0 < le_Index l" using get_fine[OF assms(1)] Inr Some by auto
    show ?thesis
    proof (cases "\<not> v \<le> le_Version l \<and> (reg_UseEtcdRegistry reg s \<or> \<not> reg_IsRegistryReady reg s)")
      case True
      then have "granted (lm_StealLease lm engineLeaseName m v (t + le_TimeRemaining l) (le_Index l) s) = (lo, s')"
        using Some Inr assms(4) by (simp add: rpcAcquireLeadership_def)
      then show ?thesis by (rule steal_evolves[OF assms(1-3) l(2)])
    next
      case False
      then have "lo = Some l \<and> s' = s"
        using Some Inr assms(4) by (cases "v \<le> le_Version l") (auto simp: rpcAcquireLeadership_def)
      then show ?thesis using l evolves_refl[OF assms(1)] by simp
    qed
  qed
qed

lemma renewLeadership_evolves:
  assumes "inv s" "lease_fine s l" "ascii (le_MachineID l)" "renewLeadership lm l t s = (lo, s')"
  shows "evolves s s' \<and> (\<forall>l'. lo = Some l' \<longrightarrow> lease_fine s' l')"
proof -
  obtain q where r: "lm_Renew lm t l s = (q, s')" and q: "\<And>l'. lo = Some l' \<Longrightarrow> q = Inr l'"
    using assms(4) by (auto simp: renewLeadership_def split: prod.splits sum.splits)
  from renew_evolves[OF assms(1-3) r] q show ?thesis by blast
qed

lemma rpcRenewLeadership_evolves:
  assumes "inv s" "lease_fine s l" "ascii (le_MachineID l)" "int64 v" "rpcRenewLeadership lm l v t s = (lo, s')"
  shows "evolves s s' \<and> (\<forall>l'. lo = Some l' \<longrightarrow> lease_fine s' l')"
proof -
  obtain q s1 where r: "lm_Renew lm t l s = (q, s1)" by fastforce
  note e = renew_evolves[OF assms(1-3) r]
  show ?thesis
  proof (cases q)
    case (Inr l')
    then have "lo = Some l'" "s' = s1" using assms(5) r by (simp_all add: rpcRenewLeadership_def)
    then show ?thesis using e Inr by simp
  next
    case (Inl err)
    show ?thesis
    proof (cases "isServerError err ErrorCodeKeyNotFound")
      case True
      then have g: "granted (lm_AcquireLease lm engineLeaseName (le_MachineID l) v t s1) = (lo, s')"
        using assms(5) r Inl by (simp add: rpcRenewLeadership_def)
      have "inv s1" using e by (simp add: evolves_def)
      from acquire_evolves[OF this assms(3,4) g] e show ?thesis using evolves_trans by blast
    next
      case False
      then have "lo = None" "s' = s1" using assms(5) r Inl by (simp_all add: rpcRenewLeadership_def)
      then show ?thesis using e by simp
    qed
  qed
qed

lemma quiet_evolves: "inv s \<Longrightarrow> inv s' \<and> holder s' = holder s \<and> clock s \<le> clock s' \<Longrightarrow> evolves s s'"
  by (simp add: evolves_def)

lemma doTask_evolves:
  assumes "inv s" "plain (t_JobName t)" "t_MachineID t \<noteq> []"
  shows "evolves s (snd (doTask reg t s))"
proof -
  let ?n = "t_JobName t" and ?m = "t_MachineID t"
  have u: "evolves s (snd (reg_UnscheduleUnit reg ?n ?m s))"
    by (rule quiet_evolves[OF assms(1) Unschedule_quiet[OF assms]]) (rule prod.collapse[symmetric])
  have a: "evolves s (snd (reg_ScheduleUnit reg ?n ?m s))"
    by (rule quiet_evolves[OF assms(1) Schedule_quiet[OF assms]]) (rule prod.collapse[symmetric])
  have "snd (attemptScheduleUnit reg ?n ?m s) = snd (reg_ScheduleUnit reg ?n ?m s)"
    by (cases "reg_ScheduleUnit reg ?n ?m s") (simp add: attemptScheduleUnit_def split: option.split)
  then show ?thesis using u a evolves_refl[OF assms(1)] by (simp add: doTask_def unscheduleUnit_def)
qed

lemma clusterState_named:
  assumes "inv s" "engine_clusterState reg s = Inr clust"
  shows "cluster_ok clust \<and> (\<forall>n\<in>unit_names clust. plain n) \<and> [] \<notin> dom (map_of (cs_machines clust))"
proof -
  obtain units sus machines where r: "reg_Units reg s = Inr units" "reg_Machines reg s = Inr machines"
    and c: "clust = newClusterState units sus machines"
    using assms(2) by (auto simp: engine_clusterState_def split: sum.splits)
  show ?thesis
    unfolding c newClusterState_machines
    using newClusterState_ok newClusterState_names Units_names[OF assms(1) r(1)] Machines_named[OF assms(1) r(2)] by blast
qed

lemma reconcile_evolves:
  assumes "inv s" "valid_order ord"
  shows "evolves s (engine_Reconcile ord leastLoadedScheduler reg stop s)"
proof (cases "engine_clusterState reg s")
  case (Inl err)
  then show ?thesis using evolves_refl[OF assms(1)] by (simp add: engine_Reconcile_def)
next
  case (Inr clust)
  have tasks: "evolves s (fold (\<lambda>t s. snd (doTask reg t s)) ts s)"
    if "inv s" "\<forall>t\<in>set ts. plain (t_JobName t) \<and> t_MachineID t \<noteq> []" for ts s
    using that
  proof (induction ts arbitrary: s)
    case (Cons t ts)
    have e: "evolves s (snd (doTask reg t s))" by (rule doTask_evolves) (use Cons.prems in auto)
    then show ?case using Cons.IH[OF evolves_inv[OF e]] Cons.prems(2) evolves_trans by simp
  qed (simp add: evolves_refl)
  note c = clusterState_named[OF assms(1) Inr]
  have "\<forall>t\<in>set (r_tasks (calculateClusterTasks ord leastLoadedScheduler stop clust)). plain (t_JobName t) \<and> t_MachineID t \<noteq> []"
    using lls.pass_named[OF assms(2), of clust stop] c by (auto simp: list_all_iff task_named_def)
  from tasks[OF assms(1) this] show ?thesis using Inr by (simp add: engine_Reconcile_def)
qed

lemma version_evolves:
  assumes "inv s" "ensureEngineVersionMatch cReg v s = (ok, s')"
  shows "evolves s s'"
proof -
  have "evolves s s1" if "cr_UpdateEngineVersion cReg a b s = (eo, s1)" for a b eo s1
    using quiet_evolves[OF assms(1) Update_quiet[OF assms(1) that]] .
  with assms evolves_refl[OF assms(1)] show ?thesis
    by (auto simp: ensureEngineVersionMatch_def split: sum.splits if_splits prod.splits option.splits)
qed

definition engine_ok :: "'s \<Rightarrow> Engine \<Rightarrow> bool" where
  "engine_ok s e \<longleftrightarrow> (\<forall>l. e_lease e = Some l \<longrightarrow> lease_fine s l)"

lemma leadership_evolves:
  assumes "inv s" "engine_ok s e" "ascii (ms_ID (e_machine e))"
    and "(case e_lease e of
           Some old \<Rightarrow>
             if le_MachineID old = ms_ID (e_machine e) then renewLeadership lm old t s
             else acquireLeadership lm (ms_ID (e_machine e)) engineVersion t s
         | None \<Rightarrow> acquireLeadership lm (ms_ID (e_machine e)) engineVersion t s) = (lo, s')"
  shows "evolves s s' \<and> (\<forall>l. lo = Some l \<longrightarrow> lease_fine s' l)"
proof -
  have v: "int64 engineVersion" by (simp add: int64_def engineVersion_def)
  note acq = acquireLeadership_evolves[OF assms(1,3) v]
  show ?thesis
  proof (cases "e_lease e")
    case None
    with assms(4) show ?thesis using acq by simp
  next
    case (Some old)
    show ?thesis
    proof (cases "le_MachineID old = ms_ID (e_machine e)")
      case True
      have "lease_fine s old" using assms(2) Some by (simp add: engine_ok_def)
      with True assms show ?thesis using renewLeadership_evolves[OF assms(1), of old t lo s'] Some by simp
    next
      case False
      with assms(4) Some show ?thesis using acq by simp
    qed
  qed
qed

lemma rpcLeadership_evolves:
  assumes "inv s" "engine_ok s e" "ascii (ms_ID (e_machine e))" "rpcLeadership reg lm e t s = (lo, upd, s')"
  shows "evolves s s' \<and> (\<forall>l. lo = Some l \<longrightarrow> lease_fine s' l)"
proof -
  have v: "int64 engineVersion" by (simp add: int64_def engineVersion_def)
  note acq = rpcAcquireLeadership_evolves[OF assms(1,3) v]
  show ?thesis
  proof (cases "e_lease e")
    case None
    then have "rpcAcquireLeadership reg lm (ms_ID (e_machine e)) engineVersion t s = (lo, s')"
      using assms(4) by (auto simp: rpcLeadership_def Let_def split: prod.splits)
    then show ?thesis by (rule acq)
  next
    case (Some old)
    show ?thesis
    proof (cases "le_MachineID old = ms_ID (e_machine e)")
      case True
      then have r: "rpcRenewLeadership lm old engineVersion t s = (lo, s')"
        using assms(4) Some by (auto simp: rpcLeadership_def Let_def split: prod.splits)
      have "lease_fine s old" "ascii (le_MachineID old)" using assms(2,3) Some True by (auto simp: engine_ok_def)
      from rpcRenewLeadership_evolves[OF assms(1) this v r] show ?thesis .
    next
      case False
      then have "rpcAcquireLeadership reg lm (ms_ID (e_machine e)) engineVersion t s = (lo, s')"
        using assms(4) Some by (auto simp: rpcLeadership_def Let_def split: prod.splits)
      then show ?thesis by (rule acq)
    qed
  qed
qed

lemma update_lease_evolves:
  assumes "inv s" "engine_ok s e" "ascii (ms_ID (e_machine e))" "update_lease reg lm e t s = (lo, s')"
  shows "evolves s s' \<and> (\<forall>l. lo = Some l \<longrightarrow> lease_fine s' l)"
proof (cases "Capabilities_Has (ms_Capabilities (e_machine e)) CapGRPC")
  case True
  then obtain upd where "rpcLeadership reg lm e t s = (lo, upd, s')"
    using assms(4) by (auto simp: update_lease_def Let_def split: prod.splits)
  then show ?thesis by (rule rpcLeadership_evolves[OF assms(1-3)])
next
  case False
  show ?thesis
    by (rule leadership_evolves[OF assms(1-3), of t]) (use assms(4) False in \<open>simp add: update_lease_def Let_def\<close>)
qed

lemma round_evolves:
  assumes "inv s" "engine_ok s e" "ascii (ms_ID (e_machine e))" "valid_order ord"
    and "engine_round ord reg cReg lm ival stop e s = (e', did, s')"
  shows "evolves s s' \<and> engine_ok s' e' \<and> e_machine e' = e_machine e"
proof -
  let ?ttl = "leaseTTL ival (ms_Capabilities (e_machine e))"
  obtain ok s1 where v: "ensureEngineVersionMatch cReg engineVersion s = (ok, s1)" by fastforce
  obtain lo s2 where u: "update_lease reg lm e ?ttl s1 = (lo, s2)" by fastforce
  note ev = version_evolves[OF assms(1) v]
  show ?thesis
  proof (cases ok)
    case False
    then have "e' = e" "s' = s1" using assms(5) v by (simp_all add: engine_round_def)
    then show ?thesis using ev evolves_fine[OF ev] assms(2) by (simp add: engine_ok_def)
  next
    case True
    have "engine_ok s1 e" using evolves_fine[OF ev] assms(2) by (simp add: engine_ok_def)
    from update_lease_evolves[OF evolves_inv[OF ev] this assms(3) u]
    have u2: "evolves s1 s2" "\<And>l. lo = Some l \<Longrightarrow> lease_fine s2 l" by blast+
    have e': "e' = e\<lparr>e_lease := lo\<rparr>" "s' = s2 \<or> s' = engine_Reconcile ord leastLoadedScheduler reg stop s2"
      using assms(5) v u True by (auto simp: engine_round_def Let_def split: if_splits)
    have last: "evolves s2 s'"
      using e'(2) evolves_refl[OF evolves_inv[OF u2(1)]] reconcile_evolves[OF evolves_inv[OF u2(1)] assms(4)] by blast
    have "engine_ok s' e'" using e'(1) u2(2) evolves_fine[OF last] by (simp add: engine_ok_def)
    with evolves_trans[OF ev evolves_trans[OF u2(1) last]] show ?thesis using e'(1) by simp
  qed
qed

lemma purge_evolves:
  assumes "inv s" "engine_ok s e"
  shows "evolves s (engine_Purge lm e s)"
proof (cases "e_lease e")
  case None
  then show ?thesis using evolves_refl[OF assms(1)] by (simp add: engine_Purge_def)
next
  case (Some l)
  have l: "0 < le_Index l" "le_key l = key engineLeaseName" using assms(2) Some by (auto simp: engine_ok_def lease_fine_def)
  obtain eo s' where r: "lm_Release lm l s = (eo, s')" by fastforce
  from release[OF assms(1) engine_lease_plain l r]
  have "evolves s s'" by (elim conjE disjE) (simp_all add: evolves_def)
  then show ?thesis using Some r evolves_refl[OF assms(1)] by (simp add: engine_Purge_def)
qed

definition world_ok :: "'s world \<Rightarrow> bool" where
  "world_ok w \<longleftrightarrow> inv (w_state w) \<and> engines_named w \<and> (\<forall>m. engine_ok (w_state w) (w_engines w m))"

lemma world_ok_evolves:
  assumes "world_ok w" "evolves (w_state w) s'" "engine_ok s' e'" "ms_ID (e_machine e') = m"
  shows "world_ok (w\<lparr>w_state := s', w_engines := (w_engines w)(m := e')\<rparr>)"
  using assms evolves_inv[OF assms(2)] evolves_fine[OF assms(2)]
  by (simp add: world_ok_def engines_named_def engine_ok_def)

lemma world_ok_state:
  assumes "world_ok w" "evolves (w_state w) s'"
  shows "world_ok (w\<lparr>w_state := s'\<rparr>)"
  using assms evolves_inv[OF assms(2)] evolves_fine[OF assms(2)]
  by (simp add: world_ok_def engines_named_def engine_ok_def)

lemma step_world_ok:
  assumes "world_ok w" "\<And>s s'. inv s \<Longrightarrow> env s s' \<Longrightarrow> evolves s s'" "engine_step reg cReg lm env w w'"
  shows "world_ok w'"
  using assms(3)
proof (cases rule: engine_step.cases)
  case (round m ord ival stop e' did s')
  have "ms_ID (e_machine (w_engines w m)) = m" "inv (w_state w)" "engine_ok (w_state w) (w_engines w m)"
    using assms(1) by (auto simp: world_ok_def engines_named_def)
  with round_evolves[OF this(2,3) _ round(3,4)] round(2) show ?thesis
    unfolding round(1) using world_ok_evolves[OF assms(1)] by simp
next
  case (purge m)
  show ?thesis unfolding purge
    by (rule world_ok_state[OF assms(1) purge_evolves]) (use assms(1) in \<open>auto simp: world_ok_def\<close>)
next
  case (restart m)
  then show ?thesis
    using assms(1) by (auto simp: world_ok_def engines_named_def engine_ok_def Engine_New_def)
next
  case (others s')
  show ?thesis unfolding others(1)
    by (rule world_ok_state[OF assms(1) assms(2)[OF _ others(2)]]) (use assms(1) in \<open>simp add: world_ok_def\<close>)
qed

lemma world_ok_one_leader:
  assumes "world_ok w" "leads holder w m" "leads holder w m'"
  shows "m = m'"
proof -
  have "m0 = k" if "e_lease (w_engines w k) = Some l" "le_MachineID l = k"
    "holder (w_state w) engineLeaseName = Some (m0, v, le_Index l)" for k l m0 v
    using assms(1) that by (auto simp: world_ok_def engine_ok_def lease_fine_def)
  note only = this
  obtain l m0 v where l: "e_lease (w_engines w m) = Some l" "le_MachineID l = m"
    "holder (w_state w) engineLeaseName = Some (m0, v, le_Index l)" using assms(2) by (auto simp: leads_def)
  obtain l' m0' v' where l': "e_lease (w_engines w m') = Some l'" "le_MachineID l' = m'"
    "holder (w_state w) engineLeaseName = Some (m0', v', le_Index l')" using assms(3) by (auto simp: leads_def)
  show ?thesis using only[OF l] only[OF l'] l(3) l'(3) by simp
qed

lemma one_leader:
  assumes "world_ok w" "\<And>s s'. inv s \<Longrightarrow> env s s' \<Longrightarrow> evolves s s'"
    and "(engine_step reg cReg lm env)\<^sup>*\<^sup>* w w'" "leads holder w' m" "leads holder w' m'"
  shows "m = m'"
proof -
  from assms(3) have "world_ok w'"
  proof (induction rule: rtranclp_induct)
    case (step w1 w2)
    show ?case by (rule step_world_ok[OF step.IH assms(2) step.hyps(2)])
  qed (rule assms(1))
  from world_ok_one_leader[OF this assms(4,5)] show ?thesis .
qed

end

end
