(* ===== verification/Engine_Execute.thy ===== *)
theory Engine_Execute
  imports Engine_Leader
begin

text \<open>
  What \<open>Reconcile\<close> leaves in the registry: for every registry that meets the contract
  \<open>schedule_registry\<close>, a pass whose tasks are carried out leaves the schedule the engine decided on.
\<close>

text \<open>Whether every task of a list is carried out by the registry.\<close>

definition task_ok :: "'s Registry \<Rightarrow> task \<Rightarrow> 's \<Rightarrow> bool" where
  "task_ok reg t s \<longleftrightarrow>
     (t_Type t = taskTypeUnscheduleUnit \<and> fst (unscheduleUnit reg (t_JobName t) (t_MachineID t) s) = None \<or>
      t_Type t = taskTypeAttemptScheduleUnit \<and> fst (attemptScheduleUnit reg (t_JobName t) (t_MachineID t) s))"

fun tasks_succeed :: "'s Registry \<Rightarrow> task list \<Rightarrow> 's \<Rightarrow> bool" where
  "tasks_succeed reg [] s = True"
| "tasks_succeed reg (t # ts) s = (task_ok reg t s \<and> tasks_succeed reg ts (snd (doTask reg t s)))"

context schedule_registry
begin

lemma task_executes:
  assumes "inv s" "plain (t_JobName t)" "t_MachineID t \<noteq> []" "task_ok reg t s"
  shows "inv (snd (doTask reg t s))"
    "\<forall>n\<in>J. sched s n = f n \<Longrightarrow> \<forall>n\<in>J. sched (snd (doTask reg t s)) n = exec_task J t f n"
proof -
  have ne: "taskTypeUnscheduleUnit \<noteq> taskTypeAttemptScheduleUnit"
    by (simp add: taskTypeUnscheduleUnit_def taskTypeAttemptScheduleUnit_def)
  consider (un) s' where "t_Type t = taskTypeUnscheduleUnit" "reg_UnscheduleUnit reg (t_JobName t) (t_MachineID t) s = (None, s')"
    | (att) s' where "t_Type t = taskTypeAttemptScheduleUnit" "reg_ScheduleUnit reg (t_JobName t) (t_MachineID t) s = (None, s')"
    using assms(4)
    by (cases "reg_UnscheduleUnit reg (t_JobName t) (t_MachineID t) s";
        cases "reg_ScheduleUnit reg (t_JobName t) (t_MachineID t) s")
      (auto simp: task_ok_def unscheduleUnit_def attemptScheduleUnit_def split: option.splits)
  then have "inv (snd (doTask reg t s)) \<and>
    ((\<forall>n\<in>J. sched s n = f n) \<longrightarrow> (\<forall>n\<in>J. sched (snd (doTask reg t s)) n = exec_task J t f n))"
  proof cases
    case un
    then have d: "snd (doTask reg t s) = s'" by (simp add: doTask_def unscheduleUnit_def)
    from Unschedule_ok[OF assms(1-3) un(2)] show ?thesis
      unfolding d using un(1) ne by (elim conjE disjE) (auto simp: exec_task_def)
  next
    case att
    then have d: "snd (doTask reg t s) = s'" using ne by (simp add: doTask_def attemptScheduleUnit_def)
    from Schedule_ok[OF assms(1-3) att(2)] show ?thesis
      unfolding d using att(1) ne by (auto simp: exec_task_def)
  qed
  then show "inv (snd (doTask reg t s))"
    "\<forall>n\<in>J. sched s n = f n \<Longrightarrow> \<forall>n\<in>J. sched (snd (doTask reg t s)) n = exec_task J t f n" by blast+
qed

lemma tasks_execute:
  assumes "inv s" "\<forall>t\<in>set ts. plain (t_JobName t) \<and> t_MachineID t \<noteq> []" "tasks_succeed reg ts s"
    and "\<forall>n\<in>J. sched s n = f n"
  shows "inv (fold (\<lambda>t s. snd (doTask reg t s)) ts s) \<and>
    (\<forall>n\<in>J. sched (fold (\<lambda>t s. snd (doTask reg t s)) ts s) n = fold (exec_task J) ts f n)"
  using assms
proof (induction ts arbitrary: s f)
  case (Cons t ts)
  have t: "plain (t_JobName t)" "t_MachineID t \<noteq> []" "task_ok reg t s" using Cons.prems(2,3) by auto
  from Cons.IH[OF task_executes(1)[OF Cons.prems(1) t] _ _ task_executes(2)[OF Cons.prems(1) t Cons.prems(4)]]
  show ?case using Cons.prems(2,3) by simp
qed simp

lemma clusterState_parts:
  assumes "inv s" "engine_clusterState reg s = Inr clust"
  obtains units sus machines where "clust = newClusterState units sus machines" "reg_Machines reg s = Inr machines"
    "distinct (map u_Name units)" "\<forall>n\<in>unit_names clust. plain n" "[] \<notin> dom (map_of (cs_machines clust))"
    "\<forall>n\<in>dom (map_of (cs_jobs clust)). abs_schedule clust n = sched s n"
proof -
  obtain units sus machines where r: "reg_Units reg s = Inr units" "reg_Schedule reg s = Inr sus"
    "reg_Machines reg s = Inr machines" and c: "clust = newClusterState units sus machines"
    using assms(2) by (auto simp: engine_clusterState_def split: sum.splits)
  note u = Units_names[OF assms(1) r(1)] and sl = Schedule_list[OF assms(1) r(2)]
  have sub: "u_Name ` set units \<subseteq> su_Name ` set sus" using u sl by blast
  show thesis
  proof (rule that[OF c r(3)])
    show "distinct (map u_Name units)" using u by simp
    show "\<forall>n\<in>unit_names clust. plain n" using u newClusterState_names c by blast
    show "[] \<notin> dom (map_of (cs_machines clust))"
      unfolding c newClusterState_machines by (rule Machines_named[OF assms(1) r(3)])
    show "\<forall>n\<in>dom (map_of (cs_jobs clust)). abs_schedule clust n = sched s n"
      unfolding c using newClusterState_abs[OF conjunct1[OF sl] _ sub] targets[OF assms(1)] by blast
  qed
qed

lemma reconcile_executes:
  assumes "inv s" "valid_order ord" "engine_clusterState reg s = Inr clust" "several_machines clust"
    and "r = calculateClusterTasks ord leastLoadedScheduler None clust" "tasks_succeed reg (r_tasks r) s"
  shows "inv (engine_Reconcile ord leastLoadedScheduler reg None s) \<and>
    (\<forall>n\<in>dom (map_of (cs_jobs clust)).
       sched (engine_Reconcile ord leastLoadedScheduler reg None s) n = abs_schedule (r_clust r) n) \<and>
    (\<forall>k. settled (r_clust r) k) \<and> same_but_targets clust (r_clust r)"
proof -
  obtain units sus machines where p: "clust = newClusterState units sus machines" "reg_Machines reg s = Inr machines"
    "distinct (map u_Name units)" "\<forall>n\<in>unit_names clust. plain n" "[] \<notin> dom (map_of (cs_machines clust))"
    "\<forall>n\<in>dom (map_of (cs_jobs clust)). abs_schedule clust n = sched s n"
    by (rule clusterState_parts[OF assms(1,3)])
  have ok: "cluster_ok clust" "names_disjoint clust"
    using newClusterState_ok newClusterState_disjoint[OF p(3)] p(1) by auto
  have named: "\<forall>t\<in>set (r_tasks r). plain (t_JobName t) \<and> t_MachineID t \<noteq> []"
    using lls.pass_named[OF assms(2) ok(1), of None] p(4,5) assms(5) by (auto simp: list_all_iff task_named_def)
  let ?s' = "engine_Reconcile ord leastLoadedScheduler reg None s"
  have "?s' = fold (\<lambda>t s. snd (doTask reg t s)) (r_tasks r) s"
    using assms(3,5) by (simp add: engine_Reconcile_def)
  with tasks_execute[OF assms(1) named assms(6), of "dom (map_of (cs_jobs clust))" "abs_schedule clust"] p(6)
  have "inv ?s'" "\<forall>n\<in>dom (map_of (cs_jobs clust)). sched ?s' n =
      fold (exec_task (dom (map_of (cs_jobs clust)))) (r_tasks r) (abs_schedule clust) n" by auto
  moreover note lls.pass_executes[OF assms(2) ok assms(4)]
  moreover note lls.pass_settles[OF assms(2) ok assms(5)]
  ultimately show ?thesis using assms(5) by simp
qed

end

end
