(* ===== verification/Registry_Etcd_Laws.thy ===== *)
theory Registry_Etcd_Laws
  imports Registry_Etcd Engine_Execute
begin

text \<open>
  What the registry in etcd promises the engine: for every client that meets the contract of etcd,
  the registry keeps the schedule as \<open>schedule_registry\<close> asks and leaves the leases alone, so that the
  engines on it form an \<open>engine_world\<close>.
\<close>

section \<open>Reading directories\<close>

lemma listing_distinct: "gmap_ok ch \<Longrightarrow> distinct (map fst (listing srt ch))"
  using distinct_map_filter[of fst ch] by (simp add: gmap_ok_def listing_def Let_def distinct_map)

lemma map_of_listing:
  assumes "gmap_ok ch" "\<not> hidden c"
  shows "map_of (listing srt ch) c = map_of ch c"
proof -
  have "map_of (listing srt ch) c = Some t \<longleftrightarrow> map_of ch c = Some t" for t
    using assms listing_distinct[OF assms(1)] by (simp add: gmap_ok_def set_listing)
  then show ?thesis by (metis option.exhaust)
qed

lemma tree_ok_listing:
  assumes "tree_ok (Dir i ch)" "(c, t) \<in> set (listing srt ch)"
  shows "plain c" "\<not> hidden c" "tree_ok t" "map_of ch c = Some t"
  using assms by (auto simp: set_listing tree_ok.simps(2) list_all_iff gmap_ok_def)

lemma deep_node_key: "nd_Key (deep_node srt q t) = abs_path q"
  by (cases t) simp_all

lemma path_Join_child:
  assumes "list_all plain q" "q \<noteq> []" "plain f"
  shows "path_Join [abs_path q, f] = abs_path (q @ [f])"
  using path_Join_rooted[OF rooted_abs_path[OF assms(1,2)], of "[f]"] assms comps_abs_path[OF assms(1)]
  by (simp add: plain_def)

text \<open>The node of a file in a directory that was read recursively.\<close>

lemma find_child:
  assumes "list_all plain q" "plain f" "\<forall>(c, t)\<in>set cs. plain c"
  shows "List.find (\<lambda>node. nd_Key node = abs_path (q @ [f])) (map (\<lambda>(c, t). deep_node srt (q @ [c]) t) cs) =
    map_option (deep_node srt (q @ [f])) (map_of cs f)"
  using assms
proof (induction cs)
  case (Cons ct cs)
  obtain c t where ct: "ct = (c, t)" by fastforce
  have "abs_path (q @ [c]) = abs_path (q @ [f]) \<longleftrightarrow> c = f"
    using abs_path_inj[of "q @ [c]" "q @ [f]"] Cons.prems ct by (simp add: list_all_iff)
  then show ?case using Cons ct by (simp add: deep_node_key)
qed simp

lemma last_child:
  assumes "list_all plain q" "plain f" "\<forall>(c, t)\<in>set cs. plain c" "distinct (map fst cs)"
  shows "fold (\<lambda>node obj. if nd_Key node = abs_path (q @ [f]) then Some node else obj)
      (map (\<lambda>(c, t). deep_node srt (q @ [c]) t) cs) z =
    (case map_of cs f of None \<Rightarrow> z | Some t \<Rightarrow> Some (deep_node srt (q @ [f]) t))"
  using assms
proof (induction cs arbitrary: z)
  case (Cons ct cs)
  obtain c t where ct: "ct = (c, t)" by fastforce
  have k: "abs_path (q @ [c]) = abs_path (q @ [f]) \<longleftrightarrow> c = f"
    using abs_path_inj[of "q @ [c]" "q @ [f]"] Cons.prems ct by (simp add: list_all_iff)
  have "map_of cs c = None" using Cons.prems(4) ct by (simp add: map_of_eq_None_iff)
  then show ?case using Cons.IH[OF Cons.prems(1,2)] Cons.prems(3,4) ct k by (simp add: deep_node_key)
qed simp

lemma nd_Value_deep: "nd_Value (deep_node srt q t) = (case t of File v i ttl \<Rightarrow> v | Dir i ch \<Rightarrow> [])"
  by (cases t) simp_all

lemma getValueInDir_deep:
  assumes "tree_ok t" "list_all plain q" "q \<noteq> []" "plain f" "\<not> hidden f"
  shows "getValueInDir (deep_node srt q t) f = (case file_at t [f] of None \<Rightarrow> [] | Some (v, i) \<Rightarrow> v)"
proof (cases t)
  case (File v i ttl)
  then show ?thesis by (simp add: getValueInDir_def)
next
  case (Dir i ch)
  have "\<forall>(c, t)\<in>set (listing srt ch). plain c" using tree_ok_listing[of i ch] assms(1) Dir by auto
  note fc = find_child[OF assms(2,4) this, of srt]
  have "map_of (listing srt ch) f = map_of ch f"
    by (rule map_of_listing) (use assms(1,5) Dir in \<open>simp_all add: tree_ok.simps(2)\<close>)
  with fc show ?thesis
    using Dir path_Join_child[OF assms(2-4)]
    by (simp add: getValueInDir_def deep_node_key nd_Value_deep split: option.split etree.split)
qed


text \<open>The entries of a directory, and the directory of the jobs.\<close>

definition children :: "etree \<Rightarrow> (string \<times> etree) list" where
  "children t = (case t of File v i ttl \<Rightarrow> [] | Dir i ch \<Rightarrow> ch)"

lemma children_ok: "tree_ok t \<Longrightarrow> tree_ok (Dir 0 (children t))"
  by (cases t) (simp_all add: children_def tree_ok.simps(2) gmap_ok_def)

lemma nd_Nodes_deep: "nd_Nodes (deep_node srt q t) = map (\<lambda>(c, t'). deep_node srt (q @ [c]) t') (listing srt (children t))"
  by (cases t) (simp_all add: children_def listing_def Let_def)

lemma lookup_child: "lookup (p @ [c]) root = (case lookup p root of None \<Rightarrow> None | Some t \<Rightarrow> map_of (children t) c)"
  by (auto simp: lookup_append children_def split: option.split etree.split)

lemma entry_name: "plain c \<Longrightarrow> snd (path_Split (nd_Key (deep_node srt (q @ [c]) t))) = c"
  by (simp add: deep_node_key path_Split_abs)

definition job_dir :: "string \<Rightarrow> string list" where
  "job_dir keyPrefix = comps keyPrefix @ [''job'']"

definition job_listed :: "string \<Rightarrow> store \<Rightarrow> string \<Rightarrow> bool" where
  "job_listed keyPrefix s n \<longleftrightarrow> plain n \<and> \<not> hidden n \<and> lookup (job_dir keyPrefix @ [n]) (es_root s) \<noteq> None"

definition etcd_sched :: "string \<Rightarrow> store \<Rightarrow> string \<rightharpoonup> string" where
  "etcd_sched keyPrefix s n = (if plain n then map_option fst (files s (job_key keyPrefix n ''target'')) else None)"

text \<open>
  Beside what the leases need: a job is stored under its own name, and the target of a job is the
  name of a machine.
\<close>

definition registry_inv :: "string \<Rightarrow> store \<Rightarrow> bool" where
  "registry_inv keyPrefix s \<longleftrightarrow> lease_inv keyPrefix s \<and>
     (\<forall>n v i jm. files s (job_key keyPrefix n ''object'') = Some (v, i) \<longrightarrow> unmarshal dec_jobModel v = Some jm \<longrightarrow> jm_Name jm = n) \<and>
     (\<forall>n i. files s (job_key keyPrefix n ''target'') \<noteq> Some ([], i))"

lemma registry_inv_parts:
  assumes "registry_inv keyPrefix s"
  shows "lease_inv keyPrefix s" "store_ok s" "tree_ok (es_root s)"
  using assms by (simp_all add: registry_inv_def lease_inv_def store_ok_def)

lemma job_dir_plain: "rooted_path keyPrefix \<Longrightarrow> list_all plain (job_dir keyPrefix)" "job_dir keyPrefix \<noteq> []"
  by (auto simp: job_dir_def list_all_iff rooted_path_def plain_def intro: comps_plain_all dest: comps_plain_all)

lemma job_key_dir: "job_key keyPrefix n f = job_dir keyPrefix @ [n, f]"
  by (simp add: job_key_def job_dir_def)

text \<open>What the nodes of a job directory say about a unit.\<close>

lemma job_node:
  assumes "registry_inv keyPrefix s" "rooted_path keyPrefix"
    and "lookup (job_dir keyPrefix) (es_root s) = Some t" "(n, t') \<in> set (listing srt (children t))"
  shows "plain n" "\<not> hidden n" "lookup (job_dir keyPrefix @ [n]) (es_root s) = Some t'" "tree_ok t'"
    "dirToTargetMachineID (deep_node srt (job_dir keyPrefix @ [n]) t') =
       (case etcd_sched keyPrefix s n of None \<Rightarrow> [] | Some m \<Rightarrow> m)"
proof -
  have t: "tree_ok (Dir 0 (children t))"
    by (rule children_ok[OF lookup_tree_ok[OF registry_inv_parts(3)[OF assms(1)] assms(3)]])
  note c = tree_ok_listing[OF t assms(4)]
  show "plain n" "\<not> hidden n" "tree_ok t'" by (fact c)+
  show l: "lookup (job_dir keyPrefix @ [n]) (es_root s) = Some t'" using assms(3) c(4) by (simp add: lookup_child)
  have "files s (job_key keyPrefix n ''target'') = file_at t' [''target'']"
    using file_at_append[of "es_root s" "job_dir keyPrefix @ [n]" "[''target'']"] l by (simp add: files_def job_key_dir)
  moreover have "plain ''target''" "\<not> hidden ''target''" by (simp_all add: plain_def hidden_def HasPrefix_def)
  ultimately show "dirToTargetMachineID (deep_node srt (job_dir keyPrefix @ [n]) t') =
       (case etcd_sched keyPrefix s n of None \<Rightarrow> [] | Some m \<Rightarrow> m)"
    using getValueInDir_deep[OF c(3), of "job_dir keyPrefix @ [n]" "''target''" srt] c(1) job_dir_plain(1)[OF assms(2)] job_dir_plain(2)
    by (simp add: dirToTargetMachineID_def etcd_sched_def split: option.split)
qed

section \<open>The schedule and the units\<close>

lemma concat_keys:
  assumes "\<forall>x\<in>set cs. f x = [] \<or> (\<exists>u. f x = [u] \<and> key u = fst x)" "distinct (map fst cs)"
  shows "distinct (map key (concat (map f cs))) \<and> key ` set (concat (map f cs)) \<subseteq> fst ` set cs"
  using assms
proof (induction cs)
  case (Cons x cs)
  then have IH: "distinct (map key (concat (map f cs)))" "key ` set (concat (map f cs)) \<subseteq> fst ` set cs" by auto
  from Cons.prems(1) consider "f x = []" | u where "f x = [u]" "key u = fst x" by auto
  then show ?case using IH Cons.prems(2) by cases auto
qed simp

lemma json_parse_Nil: "json_parse [] = None"
  by (simp add: json_parse_def skip_ws_def)

text \<open>Writes and deletes outside the leases leave the leases alone.\<close>

lemma lease_key_apart:
  assumes "p = comps keyPrefix @ d # rest" "d \<noteq> leasePrefix"
  shows "\<not> prefix p (lease_key keyPrefix n)" "\<not> prefix (lease_key keyPrefix n) p"
  using assms by (auto simp: lease_key_def)

lemma quiet_set:
  assumes set: "spec_set k v so s = (Inr nd, s')" and inv: "lease_inv keyPrefix s"
    and k: "comps k = comps keyPrefix @ d # rest" "d \<noteq> leasePrefix" "''..'' \<notin> set (comps k)"
  shows "lease_inv keyPrefix s' \<and> lease_holder keyPrefix s' = lease_holder keyPrefix s \<and> es_index s \<le> es_index s'"
proof -
  note apart = lease_key_apart[OF k(1,2)]
  have "lease_key keyPrefix n \<noteq> comps k" for n using apart(1)[of n] by (metis prefix_order.refl)
  then have "lease_holder keyPrefix s' = lease_holder keyPrefix s"
    using spec_set_done(1)[OF set] by (simp add: fun_eq_iff lease_holder_def)
  moreover have "lookup (lease_key keyPrefix n) (es_root s') = lookup (lease_key keyPrefix n) (es_root s)" for n
    using set by (cases rule: spec_set_cases) (simp_all add: lookup_put_other[OF _ apart])
  moreover have "store_ok s'" using spec_set_store_ok[OF set _ k(3)] inv by (simp add: lease_inv_def)
  ultimately show ?thesis using inv spec_set_done(2)[OF set] by (simp add: lease_inv_def)
qed

lemma quiet_delete:
  assumes del: "spec_delete k dopt s = (Inr nd, s')" and inv: "lease_inv keyPrefix s"
    and k: "comps k = comps keyPrefix @ d # rest" "d \<noteq> leasePrefix"
  shows "lease_inv keyPrefix s' \<and> lease_holder keyPrefix s' = lease_holder keyPrefix s \<and> es_index s \<le> es_index s'"
proof -
  note apart = lease_key_apart[OF k(1,2)]
  have ne: "comps k \<noteq> []" using k(1) by simp
  have "lease_holder keyPrefix s' = lease_holder keyPrefix s"
    using spec_delete_done(1)[OF del ne] apart(1) by (simp add: fun_eq_iff lease_holder_def)
  moreover have "lookup (lease_key keyPrefix n) (es_root s') = lookup (lease_key keyPrefix n) (es_root s)" for n
    using del by (cases rule: spec_delete_cases) (auto simp: lookup_prune_other[OF apart])
  moreover have "es_index s \<le> es_index s'" using del by (cases rule: spec_delete_cases) auto
  moreover have "store_ok s'" using spec_delete_store_ok[OF del _ ne] inv by (simp add: lease_inv_def)
  ultimately show ?thesis using inv by (simp add: lease_inv_def)
qed

locale etcd_registry = etcd_leases api store keyPrefix
  for api :: "'e KeysAPI" and store keyPrefix +
  fixes srt :: "MUSKey list \<Rightarrow> MUSKey list"
begin

lemma read_jobs:
  assumes "k_Get api (prefixed keyPrefix [jobPrefix]) opts e = r" "go_Recursive opts" "\<forall>m. r \<noteq> Inl (OtherError m)"
  obtains (absent) "r = Inl (EtcdError ErrorCodeKeyNotFound)" "lookup (job_dir keyPrefix) (es_root (store e)) = None"
    | (read) t where "lookup (job_dir keyPrefix) (es_root (store e)) = Some t"
        "r = Inr (deep_node (go_Sort opts) (job_dir keyPrefix) t)"
proof -
  have c: "comps (prefixed keyPrefix [jobPrefix]) = job_dir keyPrefix"
    using comps_prefixed[OF prefix_rooted, of "[jobPrefix]"] by (simp add: job_dir_def)
  show thesis
    using Get_reply[OF assms(1,3)] assms(2) c absent read
    by (auto simp: spec_get_def node_of_def split: option.splits)
qed

lemma er_Schedule_list:
  assumes inv: "registry_inv keyPrefix (store e)" and "er_Schedule api keyPrefix e = Inr sus"
  shows "(\<forall>su\<in>set sus. su_TargetMachineID su = (case etcd_sched keyPrefix (store e) (su_Name su) of None \<Rightarrow> [] | Some m \<Rightarrow> m)) \<and>
    su_Name ` set sus = {n. job_listed keyPrefix (store e) n}"
proof -
  let ?opts = "getOptions\<lparr>go_Sort := True, go_Recursive := True\<rparr>"
  let ?r = "k_Get api (prefixed keyPrefix [jobPrefix]) ?opts e"
  have ne: "\<forall>m. ?r \<noteq> Inl (OtherError m)" and rec: "go_Recursive ?opts"
    using assms(2) by (auto simp: er_Schedule_def isEtcdError_def split: sum.splits)
  from refl[of ?r] rec ne show ?thesis
  proof (cases rule: read_jobs)
    case absent
    then show ?thesis using assms(2) by (auto simp: er_Schedule_def isEtcdError_def job_listed_def lookup_child)
  next
    case (read t)
    let ?nodes = "map (\<lambda>(c, t'). deep_node True (job_dir keyPrefix @ [c]) t') (listing True (children t))"
    let ?name = "\<lambda>dir. snd (path_Split (nd_Key dir))"
    let ?su = "\<lambda>dir. \<lparr>su_Name = ?name dir, su_State = None, su_TargetMachineID = dirToTargetMachineID dir\<rparr>"
    let ?uMap = "gput_all ?name ?su ?nodes []"
    have nodes: "nd_Nodes (deep_node True (job_dir keyPrefix) t) = ?nodes" by (rule nd_Nodes_deep)
    note node = job_node[OF inv prefix_rooted read(1), where srt = True]
    have name: "?name (deep_node True (job_dir keyPrefix @ [c]) t') = c" if "(c, t') \<in> set (listing True (children t))" for c t'
      using entry_name[OF node(1)[OF that]] .
    obtain states where st: "statesByMUSKey api keyPrefix e = Inr states"
      using assms(2) read(2) by (cases "statesByMUSKey api keyPrefix e") (simp_all add: er_Schedule_def Let_def)
    define f where "f = (\<lambda>n. Some (determineJobState
        (case map_of (gput_all ?name dirToHeartbeat ?nodes []) n of None \<Rightarrow> [] | Some h \<Rightarrow> h)
        (su_TargetMachineID (the (map_of ?uMap n)))
        (map_of states (n, su_TargetMachineID (the (map_of ?uMap n))))))"
    have sus: "sus = map (\<lambda>n. (the (map_of ?uMap n))\<lparr>su_State := f n\<rparr>) (sort (gkeys ?uMap))"
      using assms(2) read(2) nodes st by (simp add: er_Schedule_def Let_def f_def)
    have dom: "set (gkeys ?uMap) = fst ` set (listing True (children t))"
    proof -
      have "dom (map_of ?uMap) = ?name ` set ?nodes" by (simp add: dom_gput_all)
      also have "\<dots> = fst ` set (listing True (children t))" using name by force
      finally show ?thesis by (simp add: gkeys_def dom_map_of_conv_image_fst)
    qed
    have su: "su_Name (the (map_of ?uMap n)) = n \<and>
        su_TargetMachineID (the (map_of ?uMap n)) = (case etcd_sched keyPrefix (store e) n of None \<Rightarrow> [] | Some m \<Rightarrow> m)"
      if "n \<in> set (gkeys ?uMap)" for n
    proof -
      have "n \<in> dom (map_of ?uMap)" using that by simp
      then obtain su where su: "map_of ?uMap n = Some su" by (blast dest: domD)
      then obtain dir where dir: "dir \<in> set ?nodes" "?name dir = n" "su = ?su dir"
        using map_of_gput_all_SomeD[of ?name ?su ?nodes "[]" n su] by auto
      then obtain c t' where ct: "(c, t') \<in> set (listing True (children t))" "dir = deep_node True (job_dir keyPrefix @ [c]) t'"
        by auto
      have "c = n" using name[OF ct(1)] dir(2) ct(2) by simp
      with node(5)[OF ct(1)] su dir ct(2) show ?thesis by simp
    qed
    have "n \<in> set (gkeys ?uMap)" if h: "job_listed keyPrefix (store e) n" for n
    proof -
      obtain t' where "map_of (children t) n = Some t'" using h read(1) by (auto simp: job_listed_def lookup_child)
      then have "(n, t') \<in> set (listing True (children t))"
        using h by (auto simp: set_listing job_listed_def dest: map_of_SomeD)
      then show ?thesis unfolding dom by force
    qed
    moreover have "job_listed keyPrefix (store e) n" if "n \<in> set (gkeys ?uMap)" for n
      using that node(1-3) unfolding dom by (force simp: job_listed_def)
    ultimately have "set (gkeys ?uMap) = {n. job_listed keyPrefix (store e) n}" by blast
    moreover have "su_Name ` set sus = set (gkeys ?uMap)" using su sus by (force simp: image_iff)
    ultimately show ?thesis using su sus by simp
  qed
qed

lemma dirToUnit_name:
  assumes inv: "registry_inv keyPrefix (store e)"
    and "lookup (job_dir keyPrefix) (es_root (store e)) = Some t" "(n, t') \<in> set (listing True (children t))"
    and "dirToUnit look (deep_node True (job_dir keyPrefix @ [n]) t') = Inr (Some u)"
  shows "u_Name u = n"
proof -
  note node = job_node[OF inv prefix_rooted assms(2,3)]
  let ?q = "job_dir keyPrefix @ [n]"
  have q: "list_all plain ?q" "?q \<noteq> []" "plain ''object''" "\<not> hidden ''object''"
    using node(1) job_dir_plain(1)[OF prefix_rooted] by (simp_all add: plain_def hidden_def HasPrefix_def)
  have c: "tree_ok (Dir 0 (children t'))" by (rule children_ok[OF node(4)])
  have "\<forall>(c, t)\<in>set (listing True (children t')). plain c" using tree_ok_listing(1)[OF c] by blast
  moreover have "distinct (map fst (listing True (children t')))"
    by (rule listing_distinct) (use c in \<open>simp add: tree_ok.simps(2)\<close>)
  ultimately have obj: "fold (\<lambda>node obj. if nd_Key node = abs_path (?q @ [''object'']) then Some node else obj)
      (nd_Nodes (deep_node True ?q t')) None =
      (case map_of (listing True (children t')) ''object'' of None \<Rightarrow> None | Some t \<Rightarrow> Some (deep_node True (?q @ [''object'']) t))"
    unfolding nd_Nodes_deep by (rule last_child[OF q(1,3)])
  have "map_of (listing True (children t')) ''object'' = map_of (children t') ''object''"
    by (rule map_of_listing[OF _ q(4)]) (use c in \<open>simp add: tree_ok.simps(2)\<close>)
  moreover have "path_Join [nd_Key (deep_node True ?q t'), ''object''] = abs_path (?q @ [''object''])"
    unfolding deep_node_key by (rule path_Join_child[OF q(1-3)])
  ultimately obtain t2 u2 where t2: "map_of (children t') ''object'' = Some t2"
    and u2: "getUnitFromObjectNode look (deep_node True (?q @ [''object'']) t2) = Inr (Some u2)" "u_Name u2 = u_Name u"
    using assms(4) obj
    by (fastforce simp: dirToUnit_def Let_def split: option.splits sum.splits if_splits prod.splits)
  from u2 obtain jm where jm: "unmarshal dec_jobModel (nd_Value (deep_node True (?q @ [''object'']) t2)) = Some jm"
    "u_Name u = jm_Name jm"
    by (auto simp: getUnitFromObjectNode_def split: option.splits)
  show ?thesis
  proof (cases t2)
    case (File v i ttl)
    have "lookup (job_key keyPrefix n ''object'') (es_root (store e)) = Some t2"
      using lookup_child[of ?q "''object''"] node(3) t2 by (simp add: job_key_dir)
    then have "files (store e) (job_key keyPrefix n ''object'') = Some (v, i)" using File by (auto simp: files_lookup)
    then show ?thesis using inv jm File by (auto simp: registry_inv_def)
  next
    case (Dir i ch)
    then show ?thesis using jm by (simp add: unmarshal_def json_parse_Nil)
  qed
qed

lemma er_Units_names:
  assumes inv: "registry_inv keyPrefix (store e)" and "er_Units api keyPrefix e = Inr us"
  shows "distinct (map u_Name us) \<and> (\<forall>u\<in>set us. plain (u_Name u) \<and> job_listed keyPrefix (store e) (u_Name u))"
proof -
  let ?opts = "getOptions\<lparr>go_Sort := True, go_Recursive := True\<rparr>"
  let ?r = "k_Get api (prefixed keyPrefix [jobPrefix]) ?opts e"
  have ne: "\<forall>m. ?r \<noteq> Inl (OtherError m)" and rec: "go_Recursive ?opts"
    using assms(2) by (auto simp: er_Units_def isEtcdError_def split: sum.splits)
  from refl[of ?r] rec ne show ?thesis
  proof (cases rule: read_jobs)
    case absent
    then show ?thesis using assms(2) by (simp add: er_Units_def isEtcdError_def)
  next
    case (read t)
    obtain look where us: "us = concat (map (\<lambda>dir. case dirToUnit look dir of Inl err \<Rightarrow> [] | Inr None \<Rightarrow> [] | Inr (Some u) \<Rightarrow> [u])
        (map (\<lambda>(c, t'). deep_node True (job_dir keyPrefix @ [c]) t') (listing True (children t))))"
      using assms(2) read(2) by (auto simp: er_Units_def nd_Nodes_deep split: sum.splits)
    note node = job_node[OF inv prefix_rooted read(1), where srt = True]
    let ?f = "\<lambda>(c, t'). case dirToUnit look (deep_node True (job_dir keyPrefix @ [c]) t') of
        Inl err \<Rightarrow> [] | Inr None \<Rightarrow> [] | Inr (Some u) \<Rightarrow> [u]"
    have us': "us = concat (map ?f (listing True (children t)))" unfolding us by (simp add: comp_def case_prod_unfold)
    have f: "\<forall>x\<in>set (listing True (children t)). ?f x = [] \<or> (\<exists>u. ?f x = [u] \<and> u_Name u = fst x)"
      using dirToUnit_name[OF inv read(1)] by (auto split: sum.split option.split)
    have "tree_ok (Dir 0 (children t))"
      by (rule children_ok[OF lookup_tree_ok[OF registry_inv_parts(3)[OF inv] read(1)]])
    then have "distinct (map fst (listing True (children t)))"
      by (intro listing_distinct) (simp add: tree_ok.simps(2))
    from concat_keys[OF f this] us' have "distinct (map u_Name us)" "u_Name ` set us \<subseteq> fst ` set (listing True (children t))" by auto
    moreover have "plain n \<and> job_listed keyPrefix (store e) n" if "n \<in> fst ` set (listing True (children t))" for n
      using that node by (auto simp: job_listed_def)
    ultimately show ?thesis by blast
  qed
qed

lemma er_Machines_named: "er_Machines api keyPrefix e = Inr ms \<Longrightarrow> [] \<notin> ms_ID ` set ms"
proof -
  have "read_machines nodes = Inr ms \<Longrightarrow> [] \<notin> ms_ID ` set ms" for nodes ms
    by (induction nodes arbitrary: ms) (auto split: sum.splits if_splits)
  then show "er_Machines api keyPrefix e = Inr ms \<Longrightarrow> ?thesis"
    by (auto simp: er_Machines_def split: sum.splits if_splits)
qed

text \<open>What a call did to the part of the store the engine relies on.\<close>

definition quiet :: "'e \<Rightarrow> 'e \<Rightarrow> bool" where
  "quiet e e' \<longleftrightarrow> registry_inv keyPrefix (store e') \<and>
     lease_holder keyPrefix (store e') = lease_holder keyPrefix (store e) \<and> es_index (store e) \<le> es_index (store e')"

lemma quiet_same: "registry_inv keyPrefix (store e) \<Longrightarrow> store e' = store e \<Longrightarrow> quiet e e'"
  by (simp add: quiet_def)

lemma quiet_trans: "quiet e e1 \<Longrightarrow> quiet e1 e2 \<Longrightarrow> quiet e e2"
  by (simp add: quiet_def)

lemma registry_set:
  assumes inv: "registry_inv keyPrefix (store e)" and set: "k_Set api k v so e = (r, e')"
    and k: "comps k = comps keyPrefix @ d # rest" "d \<noteq> leasePrefix" "''..'' \<notin> set (comps k)"
    and obj: "\<And>n jm. comps k = job_key keyPrefix n ''object'' \<Longrightarrow> unmarshal dec_jobModel v = Some jm \<Longrightarrow> jm_Name jm = n"
    and tgt: "\<And>n. comps k = job_key keyPrefix n ''target'' \<Longrightarrow> v \<noteq> []"
  shows "quiet e e'"
  using set
proof (cases rule: set_outcomes)
  case (written nd)
  have f: "files (store e') = (files (store e))(comps k \<mapsto> (v, es_index (store e')))"
    by (rule spec_set_done(1)[OF written(1)])
  have "jm_Name jm = n" if "files (store e') (job_key keyPrefix n ''object'') = Some (w, i)" "unmarshal dec_jobModel w = Some jm" for n w i jm
    using that f inv obj[of n jm] by (auto simp: registry_inv_def split: if_splits)
  moreover have "files (store e') (job_key keyPrefix n ''target'') \<noteq> Some ([], i)" for n i
    using f inv tgt[of n] by (auto simp: registry_inv_def)
  ultimately show ?thesis
    using quiet_set[OF written(1) registry_inv_parts(1)[OF inv] k] by (auto simp: quiet_def registry_inv_def)
qed (use inv quiet_same in auto)

lemma registry_delete:
  assumes inv: "registry_inv keyPrefix (store e)" and del: "k_Delete api k dopt e = (r, e')"
    and k: "comps k = comps keyPrefix @ d # rest" "d \<noteq> leasePrefix"
  shows "quiet e e'"
  using del
proof (cases rule: delete_outcomes)
  case (deleted nd)
  have f: "files (store e') = (\<lambda>q. if prefix (comps k) q then None else files (store e) q)"
    by (rule spec_delete_done(1)[OF deleted(1)]) (simp add: k)
  have "jm_Name jm = n" if "files (store e') (job_key keyPrefix n ''object'') = Some (w, i)" "unmarshal dec_jobModel w = Some jm" for n w i jm
    using that f inv by (auto simp: registry_inv_def split: if_splits)
  moreover have "files (store e') (job_key keyPrefix n ''target'') \<noteq> Some ([], i)" for n i
    using f inv by (auto simp: registry_inv_def)
  ultimately show ?thesis
    using quiet_delete[OF deleted(1) registry_inv_parts(1)[OF inv] k] by (auto simp: quiet_def registry_inv_def)
qed (use inv quiet_same in auto)

lemma job_not_lease: "''job'' \<noteq> leasePrefix" "''engine'' \<noteq> leasePrefix"
  by (simp_all add: leasePrefix_def)

lemma target_key:
  assumes "plain n"
  shows "comps (jobTargetAgentPath keyPrefix n) = job_key keyPrefix n ''target''"
    "job_key keyPrefix n ''target'' = comps keyPrefix @ ''job'' # [n, ''target'']"
    "''..'' \<notin> set (job_key keyPrefix n ''target'')"
  using comps_job_paths(1)[OF prefix_rooted assms] job_key_no_dots[OF prefix_rooted assms, of "''target''"]
  by (simp_all add: job_key_def plain_def)

lemma Schedule_quiet:
  assumes inv: "registry_inv keyPrefix (store e)" and "plain n" "m \<noteq> []" "er_ScheduleUnit api keyPrefix n m e = (eo, e')"
  shows "quiet e e'"
proof -
  note key = target_key[OF assms(2)]
  obtain r where r: "k_Set api (jobTargetAgentPath keyPrefix n) m (setOptions\<lparr>so_PrevExist := PrevNoExist\<rparr>) e = (r, e')"
    using assms(4) by (auto simp: er_ScheduleUnit_def error_of_def split: prod.splits sum.splits)
  show ?thesis by (rule registry_set[OF inv r]) (use key job_not_lease assms(3) in auto)
qed

lemma Schedule_done:
  assumes inv: "registry_inv keyPrefix (store e)" and "plain n" "m \<noteq> []" "er_ScheduleUnit api keyPrefix n m e = (None, e')"
  shows "etcd_sched keyPrefix (store e) n = None \<and> etcd_sched keyPrefix (store e') = (etcd_sched keyPrefix (store e))(n \<mapsto> m)"
proof -
  note key = target_key[OF assms(2)]
  obtain nd where r: "k_Set api (jobTargetAgentPath keyPrefix n) m (setOptions\<lparr>so_PrevExist := PrevNoExist\<rparr>) e = (Inr nd, e')"
    using assms(4) by (auto simp: er_ScheduleUnit_def error_of_def split: prod.splits sum.splits)
  from r show ?thesis
  proof (cases rule: set_outcomes)
    case (written nd')
    note sd = spec_set_done[OF written(1), unfolded key(1)]
    have "files (store e) (job_key keyPrefix n ''target'') = None" using sd(7) by (simp add: files_def file_at_def)
    moreover have "etcd_sched keyPrefix (store e') = (etcd_sched keyPrefix (store e))(n \<mapsto> m)"
      using sd(1) assms(2) by (simp add: fun_eq_iff etcd_sched_def)
    ultimately show ?thesis by (simp add: etcd_sched_def)
  qed simp_all
qed

lemma Unschedule_quiet:
  assumes inv: "registry_inv keyPrefix (store e)" and "plain n" "er_UnscheduleUnit api keyPrefix n m e = (eo, e')"
  shows "quiet e e'"
proof -
  note key = target_key[OF assms(2)]
  obtain r where r: "k_Delete api (jobTargetAgentPath keyPrefix n) (deleteOptions\<lparr>do_PrevValue := m\<rparr>) e = (r, e')"
    using assms(3) by (auto simp: er_UnscheduleUnit_def split: prod.splits)
  show ?thesis by (rule registry_delete[OF inv r]) (use key job_not_lease in auto)
qed

lemma Unschedule_done:
  assumes inv: "registry_inv keyPrefix (store e)" and "plain n" "m \<noteq> []" "er_UnscheduleUnit api keyPrefix n m e = (None, e')"
  shows "etcd_sched keyPrefix (store e) n = Some m \<and> etcd_sched keyPrefix (store e') = (etcd_sched keyPrefix (store e))(n := None) \<or>
    etcd_sched keyPrefix (store e) n = None \<and> etcd_sched keyPrefix (store e') = etcd_sched keyPrefix (store e)"
proof -
  note key = target_key[OF assms(2)]
  obtain r where r: "k_Delete api (jobTargetAgentPath keyPrefix n) (deleteOptions\<lparr>do_PrevValue := m\<rparr>) e = (r, e')"
    and ok: "unless_missing r = None"
    using assms(4) by (auto simp: er_UnscheduleUnit_def split: prod.splits)
  from r show ?thesis
  proof (cases rule: delete_outcomes)
    case (refused c)
    then have "r = Inl (EtcdError ErrorCodeKeyNotFound)"
      using ok by (auto simp: unless_missing_def isEtcdError_def split: if_splits)
    with refused have "lookup (comps (jobTargetAgentPath keyPrefix n)) (es_root (store e)) = None"
      by (metis spec_delete_cases sum.distinct(1) sum.inject(1) go_error.inject(1))
    then show ?thesis using refused(2) key(1) by (simp add: etcd_sched_def files_def file_at_def)
  next
    case (lost msg)
    then show ?thesis using ok by (simp add: unless_missing_def isEtcdError_def)
  next
    case (deleted nd)
    have ne: "comps (jobTargetAgentPath keyPrefix n) \<noteq> []" using key by simp
    note sd = spec_delete_done[OF deleted(1) ne, unfolded key(1)]
    obtain i where "files (store e) (job_key keyPrefix n ''target'') = Some (m, i)" using sd(2) assms(3) by auto
    moreover have "etcd_sched keyPrefix (store e') = (etcd_sched keyPrefix (store e))(n := None)"
      using sd(1) by (auto simp: fun_eq_iff etcd_sched_def)
    ultimately show ?thesis using assms(2) by (simp add: etcd_sched_def)
  qed
qed

lemma Update_quiet:
  assumes inv: "registry_inv keyPrefix (store e)" and "er_UpdateEngineVersion api keyPrefix v v' e = (eo, e')"
  shows "quiet e e'"
proof -
  have key: "comps (engineVersionPath keyPrefix) = comps keyPrefix @ ''engine'' # [''version'']"
    using comps_job_paths(7)[OF prefix_rooted, of "''x''"] by (simp add: plain_def)
  have nd: "''..'' \<notin> set (comps (engineVersionPath keyPrefix))"
    using key prefix_no_dots[OF prefix_rooted] by simp
  have quiet: "quiet e1 e2" if "registry_inv keyPrefix (store e1)" "k_Set api (engineVersionPath keyPrefix) w so e1 = (r, e2)" for w so e1 e2 r
    by (rule registry_set[OF that key]) (use key nd job_not_lease in \<open>auto simp: job_key_def\<close>)
  obtain r1 e1 where r1: "k_Set api (engineVersionPath keyPrefix) (Itoa v') (setOptions\<lparr>so_PrevValue := Itoa v\<rparr>) e = (r1, e1)"
    by fastforce
  obtain r2 e2 where r2: "k_Set api (engineVersionPath keyPrefix) (Itoa v') (setOptions\<lparr>so_PrevExist := PrevNoExist\<rparr>) e1 = (r2, e2)"
    by fastforce
  have q1: "quiet e e1" by (rule quiet[OF inv r1])
  have q2: "quiet e1 e2" by (rule quiet[OF _ r2]) (use q1 in \<open>simp add: quiet_def\<close>)
  have "e' = e1 \<or> e' = e2"
    using assms(2) r1 r2 by (auto simp: er_UpdateEngineVersion_def error_of_def split: sum.splits if_splits)
  then show ?thesis using q1 quiet_trans[OF q1 q2] by auto
qed

text \<open>The leases live apart from the jobs.\<close>

lemma lease_registry:
  assumes "registry_inv keyPrefix (store e)" "lease_inv keyPrefix (store e')" "only_at (lease_key keyPrefix n) (store e) (store e')"
  shows "registry_inv keyPrefix (store e')"
proof -
  have "files (store e') (job_key keyPrefix n' f) = files (store e) (job_key keyPrefix n' f)" for n' f
    by (rule only_atD[OF assms(3)]) (simp add: job_key_def lease_key_def leasePrefix_def)
  with assms(1,2) show ?thesis by (simp add: registry_inv_def)
qed

lemma lease_only_at:
  assumes "plain n"
  shows "AcquireLease api keyPrefix n m v t e = (r, e') \<Longrightarrow> only_at (lease_key keyPrefix n) (store e) (store e')"
    "StealLease api keyPrefix n m v t idx e = (r, e') \<Longrightarrow> only_at (lease_key keyPrefix n) (store e) (store e')"
    "le_key l = leasePath keyPrefix n \<Longrightarrow> Renew api t l e = (q, e') \<Longrightarrow> only_at (lease_key keyPrefix n) (store e) (store e')"
    "le_key l = leasePath keyPrefix n \<Longrightarrow> Release api l e = (eo, e') \<Longrightarrow> only_at (lease_key keyPrefix n) (store e) (store e')"
proof -
  note key = leasePath_key(2)[OF prefix_rooted assms]
  have set: "only_at (lease_key keyPrefix n) (store e) (store e')" if "k_Set api (leasePath keyPrefix n) val so e = (r, e')" for val so r e'
    using Set_only_at[OF that] key by simp
  show "AcquireLease api keyPrefix n m v t e = (r, e') \<Longrightarrow> only_at (lease_key keyPrefix n) (store e) (store e')"
    using set by (auto simp: AcquireLease_def Let_def split: prod.splits sum.splits)
  show "StealLease api keyPrefix n m v t idx e = (r, e') \<Longrightarrow> only_at (lease_key keyPrefix n) (store e) (store e')"
    using set by (auto simp: StealLease_def Let_def split: prod.splits sum.splits)
  show "le_key l = leasePath keyPrefix n \<Longrightarrow> Renew api t l e = (q, e') \<Longrightarrow> only_at (lease_key keyPrefix n) (store e) (store e')"
    using set by (auto simp: Renew_def Let_def split: prod.splits sum.splits)
  have "only_at (lease_key keyPrefix n) (store e) (store e')" if "k_Delete api (leasePath keyPrefix n) dopt e = (r, e')" for dopt r e'
    using Delete_only_at[OF that] key by (simp add: lease_key_def)
  then show "le_key l = leasePath keyPrefix n \<Longrightarrow> Release api l e = (eo, e') \<Longrightarrow> only_at (lease_key keyPrefix n) (store e) (store e')"
    by (auto simp: Release_def split: prod.splits sum.splits)
qed

end

lemma text_result_Inr: "text_result r = Inr x \<longleftrightarrow> r = Inr x"
  by (cases r) (auto simp: text_result_def)

lemma text_error_None: "text_error r = (None, e') \<longleftrightarrow> r = (None, e')"
  by (cases r) (auto simp: text_error_def)

lemma text_error_state: "text_error r = (eo, e') \<Longrightarrow> \<exists>eo. r = (eo, e')"
  by (cases r) (simp add: text_error_def)

sublocale etcd_registry \<subseteq> sched: schedule_registry "NewEtcdRegistry srt api keyPrefix"
  "\<lambda>e. registry_inv keyPrefix (store e)" "\<lambda>e. etcd_sched keyPrefix (store e)" "\<lambda>e. job_listed keyPrefix (store e)"
proof
  show "distinct (map u_Name us) \<and> (\<forall>u\<in>set us. plain (u_Name u) \<and> job_listed keyPrefix (store s) (u_Name u))"
    if "registry_inv keyPrefix (store s)" "reg_Units (NewEtcdRegistry srt api keyPrefix) s = Inr us" for s us
    using er_Units_names[OF that(1)] that(2) by (simp add: NewEtcdRegistry_def text_result_Inr)
  show "(\<forall>su\<in>set sus. su_TargetMachineID su = (case etcd_sched keyPrefix (store s) (su_Name su) of None \<Rightarrow> [] | Some m \<Rightarrow> m)) \<and>
      {n. job_listed keyPrefix (store s) n} \<subseteq> su_Name ` set sus"
    if "registry_inv keyPrefix (store s)" "reg_Schedule (NewEtcdRegistry srt api keyPrefix) s = Inr sus" for s sus
    using er_Schedule_list[OF that(1)] that(2) by (simp add: NewEtcdRegistry_def text_result_Inr)
  show "[] \<notin> ms_ID ` set ms" if "reg_Machines (NewEtcdRegistry srt api keyPrefix) s = Inr ms" for s ms
    using er_Machines_named[of s ms] that by (simp add: NewEtcdRegistry_def text_result_Inr)
  show "m \<noteq> []" if "registry_inv keyPrefix (store s)" "etcd_sched keyPrefix (store s) n = Some m" for s n m
    using that by (auto simp: registry_inv_def etcd_sched_def split: if_splits)
  show "registry_inv keyPrefix (store s') \<and> etcd_sched keyPrefix (store s) n = None \<and>
      etcd_sched keyPrefix (store s') = (etcd_sched keyPrefix (store s))(n \<mapsto> m)"
    if "registry_inv keyPrefix (store s)" "plain n" "m \<noteq> []" "reg_ScheduleUnit (NewEtcdRegistry srt api keyPrefix) n m s = (None, s')" for s n m s'
    using Schedule_done[OF that(1-3)] Schedule_quiet[OF that(1-3)] that(4) by (auto simp: NewEtcdRegistry_def text_error_None quiet_def)
  show "registry_inv keyPrefix (store s') \<and>
      (etcd_sched keyPrefix (store s) n = Some m \<and> etcd_sched keyPrefix (store s') = (etcd_sched keyPrefix (store s))(n := None) \<or>
       etcd_sched keyPrefix (store s) n = None \<and> etcd_sched keyPrefix (store s') = etcd_sched keyPrefix (store s))"
    if "registry_inv keyPrefix (store s)" "plain n" "m \<noteq> []" "reg_UnscheduleUnit (NewEtcdRegistry srt api keyPrefix) n m s = (None, s')" for s n m s'
    using Unschedule_done[OF that(1-3)] Unschedule_quiet[OF that(1,2)] that(4) by (auto simp: NewEtcdRegistry_def text_error_None quiet_def)
qed

sublocale etcd_registry \<subseteq> engines: engine_world "NewEtcdLeaseManager api keyPrefix" "\<lambda>e. registry_inv keyPrefix (store e)"
  "leasePath keyPrefix" "\<lambda>e. lease_holder keyPrefix (store e)" "\<lambda>e. es_index (store e)"
  "NewEtcdRegistry srt api keyPrefix" "\<lambda>e. etcd_sched keyPrefix (store e)" "\<lambda>e. job_listed keyPrefix (store e)"
  "EtcdClusterRegistry api keyPrefix"
proof
  note li = registry_inv_parts(1)
  let ?lm = "NewEtcdLeaseManager api keyPrefix"
  show "0 < i \<and> i \<le> es_index (store s) \<and> int64 v"
    if "registry_inv keyPrefix (store s)" "plain n" "lease_holder keyPrefix (store s) n = Some (m, v, i)" for s n m v i
    by (rule leases.holder_index[OF li[OF that(1)] that(2,3)])
  show "map_option lease_of lo = lease_holder keyPrefix (store s) n \<and> (\<forall>l. lo = Some l \<longrightarrow> le_key l = leasePath keyPrefix n)"
    if "registry_inv keyPrefix (store s)" "plain n" "lm_GetLease ?lm n s = Inr lo" for s n lo
    by (rule leases.get[OF li[OF that(1)] that(2,3)])
  show "registry_inv keyPrefix (store s') \<and> es_index (store s) \<le> es_index (store s') \<and>
      (lease_holder keyPrefix (store s') = lease_holder keyPrefix (store s) \<and> (\<forall>l. r \<noteq> Inr (Some l)) \<or>
       lease_holder keyPrefix (store s) n = None \<and>
       lease_holder keyPrefix (store s') = (lease_holder keyPrefix (store s))(n \<mapsto> (m, v, es_index (store s'))) \<and>
       es_index (store s) < es_index (store s') \<and> r \<noteq> Inr None \<and>
       (\<forall>l. r = Inr (Some l) \<longrightarrow> lease_of l = (m, v, es_index (store s')) \<and> le_key l = leasePath keyPrefix n))"
    if "registry_inv keyPrefix (store s)" "plain n" "ascii m" "int64 v" "lm_AcquireLease ?lm n m v t s = (r, s')" for s n m v t r s'
    using leases.acquire[OF li[OF that(1)] that(2-5)] lease_registry[OF that(1) _ lease_only_at(1)[OF that(2), of m v t s r s']] that(5)
    by (simp add: NewEtcdLeaseManager_def)
  show "registry_inv keyPrefix (store s') \<and> es_index (store s) \<le> es_index (store s') \<and>
      (lease_holder keyPrefix (store s') = lease_holder keyPrefix (store s) \<and> (\<forall>l. r \<noteq> Inr (Some l)) \<or>
       (\<exists>m0 v0. lease_holder keyPrefix (store s) n = Some (m0, v0, idx)) \<and>
       lease_holder keyPrefix (store s') = (lease_holder keyPrefix (store s))(n \<mapsto> (m, v, es_index (store s'))) \<and>
       es_index (store s) < es_index (store s') \<and>
       (\<forall>l. r = Inr (Some l) \<longrightarrow> lease_of l = (m, v, es_index (store s')) \<and> le_key l = leasePath keyPrefix n))"
    if "registry_inv keyPrefix (store s)" "plain n" "ascii m" "int64 v" "0 < idx" "lm_StealLease ?lm n m v t idx s = (r, s')" for s n m v idx t r s'
    using leases.steal[OF li[OF that(1)] that(2-6)] lease_registry[OF that(1) _ lease_only_at(2)[OF that(2), of m v t idx s r s']] that(6)
    by (simp add: NewEtcdLeaseManager_def)
  show "registry_inv keyPrefix (store s') \<and> es_index (store s) \<le> es_index (store s') \<and>
      (lease_holder keyPrefix (store s') = lease_holder keyPrefix (store s) \<and> (\<forall>l'. q \<noteq> Inr l') \<or>
       (\<exists>m0 v0. lease_holder keyPrefix (store s) n = Some (m0, v0, le_Index l)) \<and>
       lease_holder keyPrefix (store s') = (lease_holder keyPrefix (store s))(n \<mapsto> (le_MachineID l, le_Version l, es_index (store s'))) \<and>
       es_index (store s) < es_index (store s') \<and>
       (\<forall>l'. q = Inr l' \<longrightarrow> lease_of l' = (le_MachineID l, le_Version l, es_index (store s')) \<and> le_key l' = leasePath keyPrefix n))"
    if "registry_inv keyPrefix (store s)" "plain n" "ascii (le_MachineID l)" "int64 (le_Version l)" "0 < le_Index l"
      "le_key l = leasePath keyPrefix n" "lm_Renew ?lm t l s = (q, s')" for s n l t q s'
    using leases.renew[OF li[OF that(1)] that(2-7)] lease_registry[OF that(1) _ lease_only_at(3)[OF that(2,6), of t s q s']] that(7)
    by (simp add: NewEtcdLeaseManager_def)
  show "registry_inv keyPrefix (store s') \<and> es_index (store s) \<le> es_index (store s') \<and>
      (lease_holder keyPrefix (store s') = lease_holder keyPrefix (store s) \<and> eo \<noteq> None \<or>
       (\<exists>m0 v0. lease_holder keyPrefix (store s) n = Some (m0, v0, le_Index l)) \<and>
       lease_holder keyPrefix (store s') = (lease_holder keyPrefix (store s))(n := None))"
    if "registry_inv keyPrefix (store s)" "plain n" "0 < le_Index l" "le_key l = leasePath keyPrefix n" "lm_Release ?lm l s = (eo, s')" for s n l eo s'
    using leases.release[OF li[OF that(1)] that(2-5)] lease_registry[OF that(1) _ lease_only_at(4)[OF that(2,4), of s eo s']] that(5)
    by (simp add: NewEtcdLeaseManager_def)
  show "registry_inv keyPrefix (store s') \<and> lease_holder keyPrefix (store s') = lease_holder keyPrefix (store s) \<and>
      es_index (store s) \<le> es_index (store s')"
    if "registry_inv keyPrefix (store s)" "cr_UpdateEngineVersion (EtcdClusterRegistry api keyPrefix) v v' s = (eo, s')" for s v v' eo s'
    using that Update_quiet[OF that(1)] by (auto simp: EtcdClusterRegistry_def quiet_def dest!: text_error_state)
  show "registry_inv keyPrefix (store s') \<and> lease_holder keyPrefix (store s') = lease_holder keyPrefix (store s) \<and>
      es_index (store s) \<le> es_index (store s')"
    if "registry_inv keyPrefix (store s)" "plain u" "m \<noteq> []" "reg_ScheduleUnit (NewEtcdRegistry srt api keyPrefix) u m s = (eo, s')" for s u m eo s'
    using that(4) Schedule_quiet[OF that(1-3)] by (auto simp: NewEtcdRegistry_def quiet_def dest!: text_error_state)
  show "registry_inv keyPrefix (store s') \<and> lease_holder keyPrefix (store s') = lease_holder keyPrefix (store s) \<and>
      es_index (store s) \<le> es_index (store s')"
    if "registry_inv keyPrefix (store s)" "plain u" "m \<noteq> []" "reg_UnscheduleUnit (NewEtcdRegistry srt api keyPrefix) u m s = (eo, s')" for s u m eo s'
    using that(4) Unschedule_quiet[OF that(1,2)] by (auto simp: NewEtcdRegistry_def quiet_def dest!: text_error_state)
qed

section \<open>The version of the cluster\<close>

definition version_text :: "string \<Rightarrow> store \<Rightarrow> string option" where
  "version_text keyPrefix s = map_option fst (files s (comps keyPrefix @ [''engine'', ''version'']))"

context etcd_registry
begin

lemma version_key: "comps (engineVersionPath keyPrefix) = comps keyPrefix @ [''engine'', ''version'']"
  using comps_job_paths(7)[OF prefix_rooted, of "''x''"] by (simp add: plain_def)

lemma version_write:
  assumes "k_Set api (engineVersionPath keyPrefix) (Itoa v) so e = (r, e')"
  shows "store e' = store e \<and> (\<exists>err. r = Inl err) \<or>
    version_text keyPrefix (store e') = Some (Itoa v) \<and>
      (so_PrevExist so = PrevNoExist \<longrightarrow> version_text keyPrefix (store e) = None) \<and>
      (so_PrevValue so \<noteq> [] \<longrightarrow> version_text keyPrefix (store e) = Some (so_PrevValue so))"
  using assms
proof (cases rule: set_outcomes)
  case (written nd)
  note sd = spec_set_done[OF written(1), unfolded version_key]
  show ?thesis using sd(1,7,8) by (auto simp: version_text_def files_def file_at_def)
qed auto

lemma version_read:
  assumes "version_text keyPrefix (store e) = Some (Itoa v)" "int64 v"
  shows "\<exists>m. er_EngineVersion api keyPrefix e \<in> {Inr v, Inl (OtherError m)}"
proof -
  let ?r = "k_Get api (engineVersionPath keyPrefix) getOptions e"
  obtain i where "files (store e) (comps (engineVersionPath keyPrefix)) = Some (Itoa v, i)"
    using assms(1) by (auto simp: version_text_def version_key)
  from spec_get_file[OF this, of getOptions] obtain nd where nd: "spec_get (engineVersionPath keyPrefix) getOptions (store e) = Inr nd" "nd_Value nd = Itoa v"
    by auto
  have "Atoi (Itoa v) = Some v" using Atoi_Itoa assms(2) by (simp add: int64_def)
  with nd Get[OF refl, of "engineVersionPath keyPrefix" getOptions e] show ?thesis
    by (auto simp: er_EngineVersion_def isEtcdError_def)
qed

lemma etcd_version_cas:
  assumes "int64 to" "er_UpdateEngineVersion api keyPrefix from to e = (eo, e')"
  shows "(version_text keyPrefix (store e') = version_text keyPrefix (store e) \<and> eo \<noteq> None \<or>
      version_text keyPrefix (store e) \<in> {None, Some (Itoa from)} \<and> version_text keyPrefix (store e') = Some (Itoa to)) \<and>
    (eo = None \<longrightarrow> (\<exists>m. er_EngineVersion api keyPrefix e' \<in> {Inr to, Inl (OtherError m)}))"
proof -
  obtain r1 e1 where r1: "k_Set api (engineVersionPath keyPrefix) (Itoa to) (setOptions\<lparr>so_PrevValue := Itoa from\<rparr>) e = (r1, e1)"
    by fastforce
  obtain r2 e2 where r2: "k_Set api (engineVersionPath keyPrefix) (Itoa to) (setOptions\<lparr>so_PrevExist := PrevNoExist\<rparr>) e1 = (r2, e2)"
    by fastforce
  note w1 = version_write[OF r1] and w2 = version_write[OF r2]
  have kind: "r1 = Inl (EtcdError ErrorCodeKeyNotFound) \<Longrightarrow> store e1 = store e"
    using r1 by (cases rule: set_outcomes) auto
  consider (one) n where "r1 = Inr n" "e' = e1" "eo = None"
    | (fail) err where "r1 = Inl err" "e' = e1" "eo = Some err"
    | (two) n where "r1 = Inl (EtcdError ErrorCodeKeyNotFound)" "r2 = Inr n" "e' = e2" "eo = None"
    | (two_fail) err where "r1 = Inl (EtcdError ErrorCodeKeyNotFound)" "r2 = Inl err" "e' = e2" "eo = Some err"
    using assms(2) r1 r2
    by (auto simp: er_UpdateEngineVersion_def error_of_def isEtcdError_def split: sum.splits if_splits go_error.splits)
  then have main: "version_text keyPrefix (store e') = version_text keyPrefix (store e) \<and> eo \<noteq> None \<or>
      version_text keyPrefix (store e) \<in> {None, Some (Itoa from)} \<and> version_text keyPrefix (store e') = Some (Itoa to)"
    by cases (use w1 w2 kind in auto)
  then show ?thesis using version_read[OF _ assms(1)] by blast
qed

end

section \<open>Engines\<close>

text \<open>
  What the rest of the world may do to the store between the steps of the engines: agents and
  clients change what is not a lease, and the engine lease may expire.
\<close>

definition outside :: "('e \<Rightarrow> store) \<Rightarrow> string \<Rightarrow> 'e \<Rightarrow> 'e \<Rightarrow> bool" where
  "outside store keyPrefix e e' \<longleftrightarrow>
     registry_inv keyPrefix (store e') \<and> es_index (store e) \<le> es_index (store e') \<and>
     lease_holder keyPrefix (store e') engineLeaseName \<in> {lease_holder keyPrefix (store e) engineLeaseName, None}"

context etcd_registry
begin

lemma etcd_one_leader:
  assumes "registry_inv keyPrefix (store (w_state w))" "engines_named w" "\<forall>m. e_lease (w_engines w m) = None"
    and "(engine_step (NewEtcdRegistry srt api keyPrefix) (EtcdClusterRegistry api keyPrefix)
           (NewEtcdLeaseManager api keyPrefix) (outside store keyPrefix))\<^sup>*\<^sup>* w w'"
    and "leads (\<lambda>e. lease_holder keyPrefix (store e)) w' m" "leads (\<lambda>e. lease_holder keyPrefix (store e)) w' m'"
  shows "m = m'"
proof (rule engines.one_leader[OF _ _ assms(4-6)])
  show "engines.world_ok w" using assms(1-3) by (simp add: engines.world_ok_def engines.engine_ok_def)
  show "engines.evolves s s'" if "registry_inv keyPrefix (store s)" "outside store keyPrefix s s'" for s s'
    using that by (auto simp: engines.evolves_def outside_def)
qed

lemma etcd_reconcile:
  assumes "registry_inv keyPrefix (store e)" "valid_order ord"
    and "engine_clusterState (NewEtcdRegistry srt api keyPrefix) e = Inr clust" "several_machines clust"
    and "r = calculateClusterTasks ord leastLoadedScheduler None clust"
    and "tasks_succeed (NewEtcdRegistry srt api keyPrefix) (r_tasks r) e"
    and "e' = engine_Reconcile ord leastLoadedScheduler (NewEtcdRegistry srt api keyPrefix) None e"
  shows "registry_inv keyPrefix (store e') \<and>
    (\<forall>n\<in>dom (map_of (cs_jobs clust)). etcd_sched keyPrefix (store e') n = abs_schedule (r_clust r) n) \<and>
    (\<forall>k. settled (r_clust r) k) \<and> same_but_targets clust (r_clust r)"
  unfolding assms(7) by (rule sched.reconcile_executes[OF assms(1-6)])

end

text \<open>The registry on a local etcd, with its default keys.\<close>

interpretation local_registry: etcd_registry local_etcd "\<lambda>s. s" DefaultKeyPrefix srt for srt
  by unfold_locales (simp add: rooted_path_def comps_def DefaultKeyPrefix_def)

end
