(* ===== verification/Cluster_Examples.thy ===== *)
theory Cluster_Examples
  imports Registry_Etcd_Laws Fleet_Examples
begin

text \<open>
  Concrete etcd stores on which the properties of leases, engines and the etcd registry are
  instantiated: an empty cluster in which one engine runs a round, and a cluster of two machines
  with a unit that waits to be scheduled.
\<close>

abbreviation ex_reg :: "store Registry" where
  "ex_reg \<equiv> NewEtcdRegistry (\<lambda>ks. ks) local_etcd DefaultKeyPrefix"
abbreviation ex_creg :: "store ClusterRegistry" where
  "ex_creg \<equiv> EtcdClusterRegistry local_etcd DefaultKeyPrefix"
abbreviation ex_lm :: "store Manager" where
  "ex_lm \<equiv> NewEtcdLeaseManager local_etcd DefaultKeyPrefix"

lemma ex_prefix_rooted [simp]: "rooted_path DefaultKeyPrefix"
  by (simp add: rooted_path_def comps_def DefaultKeyPrefix_def)

lemma local_etcd_contract: "etcd local_etcd (\<lambda>s. s)"
  by (rule local.etcd_axioms)

section \<open>An engine that becomes the leader\<close>

definition ex_store0 :: store where "ex_store0 = \<lparr>es_root = Dir 0 [], es_index = 0\<rparr>"

definition ex_store1 :: store where
  "ex_store1 = \<lparr>es_root = Dir 0 [(''_coreos.com'', Dir 1 [(''fleet'', Dir 1 [(''engine'', Dir 1 [(''version'', File ''1'' 1 0)])])])],
     es_index = 1\<rparr>"

definition ex_lease_text :: string where "ex_lease_text = serializeLeaseMetadata ''m1'' 1"

definition ex_store2 :: store where
  "ex_store2 = \<lparr>es_root = Dir 0 [(''_coreos.com'', Dir 1 [(''fleet'', Dir 1 [(''engine'', Dir 1 [(''version'', File ''1'' 1 0)]),
       (''lease'', Dir 2 [(''engine-leader'', File ex_lease_text 2 10)])])])],
     es_index = 2\<rparr>"

definition ex_lease :: Lease where
  "ex_lease = \<lparr>le_key = ''/_coreos.com/fleet/lease/engine-leader'', le_MachineID = ''m1'', le_Version = 1, le_Index = 2,
     le_TimeRemaining = 10000000000\<rparr>"

definition ex_engine :: "string \<Rightarrow> Engine" where
  "ex_engine m = Engine_New (zero_machine\<lparr>ms_ID := m\<rparr>)"

lemma ex_version:
  "er_EngineVersion local_etcd DefaultKeyPrefix ex_store0 = Inr 0"
  "er_UpdateEngineVersion local_etcd DefaultKeyPrefix 0 1 ex_store0 = (None, ex_store1)"
  by code_simp+

lemma ex_acquire:
  "GetLease local_etcd DefaultKeyPrefix engineLeaseName ex_store1 = Inr None"
  "AcquireLease local_etcd DefaultKeyPrefix engineLeaseName ''m1'' 1 10000000000 ex_store1 = (Inr (Some ex_lease), ex_store2)"
  by code_simp+

lemma ex_empty_cluster:
  "er_Units local_etcd DefaultKeyPrefix ex_store2 = Inr []"
  "er_Schedule local_etcd DefaultKeyPrefix ex_store2 = Inr []"
  "er_Machines local_etcd DefaultKeyPrefix ex_store2 = Inr []"
  by code_simp+

lemma ex_round:
  "engine_round keep_order ex_reg ex_creg ex_lm 2000000000 None (ex_engine ''m1'') ex_store0 =
     ((ex_engine ''m1'')\<lparr>e_lease := Some ex_lease\<rparr>, True, ex_store2)"
proof -
  have v: "ensureEngineVersionMatch ex_creg engineVersion ex_store0 = (True, ex_store1)"
    using ex_version by (simp add: ensureEngineVersionMatch_def EtcdClusterRegistry_def text_result_def text_error_def engineVersion_def)
  have u: "update_lease ex_reg ex_lm (ex_engine ''m1'') 10000000000 ex_store1 = (Some ex_lease, ex_store2)"
    using ex_acquire
    by (simp add: update_lease_def ex_engine_def Engine_New_def zero_machine_def Capabilities_Has_def acquireLeadership_def
        NewEtcdLeaseManager_def granted_def engineVersion_def)
  have "engine_clusterState ex_reg ex_store2 = Inr (newClusterState [] [] [])"
    using ex_empty_cluster by (simp add: engine_clusterState_def NewEtcdRegistry_def text_result_def)
  moreover have "r_tasks (calculateClusterTasks keep_order leastLoadedScheduler None (newClusterState [] [] [])) = []"
    by code_simp
  ultimately have r: "engine_Reconcile keep_order leastLoadedScheduler ex_reg None ex_store2 = ex_store2"
    by (simp add: engine_Reconcile_def)
  have "leaseTTL 2000000000 (ms_Capabilities (e_machine (ex_engine ''m1''))) = 10000000000"
    by (simp add: leaseTTL_def ex_engine_def Engine_New_def zero_machine_def Capabilities_Has_def)
  with v u r show ?thesis
    by (simp add: engine_round_def isLeader_def ex_lease_def ex_engine_def Engine_New_def)
qed

definition ex_world :: "store world" where
  "ex_world = \<lparr>w_state = ex_store0, w_engines = ex_engine\<rparr>"

lemma ex_store0_inv: "registry_inv DefaultKeyPrefix ex_store0"
proof -
  have "files ex_store0 p = None" for p by (cases p) (simp_all add: files_def ex_store0_def)
  moreover have "lookup (lease_key DefaultKeyPrefix n) (es_root ex_store0) = None" for n
    by (cases "comps DefaultKeyPrefix") (simp_all add: lease_key_def ex_store0_def)
  moreover have "tree_ok (es_root ex_store0)" by (simp add: ex_store0_def tree_ok.simps(2) gmap_ok_def)
  ultimately show ?thesis by (simp add: registry_inv_def lease_inv_def store_ok_def)
qed

lemma ex_world_start:
  "registry_inv DefaultKeyPrefix (w_state ex_world)" "engines_named ex_world" "\<forall>m. e_lease (w_engines ex_world m) = None"
  using ex_store0_inv by (simp_all add: ex_world_def engines_named_def ex_engine_def Engine_New_def)

lemma ex_holder: "lease_holder DefaultKeyPrefix ex_store2 engineLeaseName = Some (''m1'', 1, 2)"
  by code_simp

section \<open>A unit that waits to be scheduled\<close>

definition ex_hash :: Hash where "ex_hash = replicate 20 0"

definition ex_hash_text :: string where "ex_hash_text = replicate 40 CHR ''0''"

definition ex_job_text :: string where
  "ex_job_text = marshal (enc_jobModel \<lparr>jm_Name = ''web.service'', jm_UnitHash = ex_hash\<rparr>)"

definition ex_unit_text :: string where
  "ex_unit_text = marshal (enc_unitModel \<lparr>um_Raw = ''[X-Fleet]'' @ newline @ ''Conflicts=db*'' @ newline\<rparr>)"

definition ex_machine_text :: "string \<Rightarrow> string" where
  "ex_machine_text m = marshal (enc_machine (zero_machine\<lparr>ms_ID := m\<rparr>))"

definition ex_fleet :: "etree \<Rightarrow> etree" where
  "ex_fleet job = Dir 0 [(''_coreos.com'', Dir 1 [(''fleet'', Dir 1
     [(''job'', Dir 1 [(''web.service'', job)]),
      (''unit'', Dir 1 [(ex_hash_text, File ex_unit_text 3 0)]),
      (''machines'', Dir 4 [(''m1'', Dir 4 [(''object'', File (ex_machine_text ''m1'') 4 0)]),
                           (''m2'', Dir 5 [(''object'', File (ex_machine_text ''m2'') 5 0)])])])])]"

definition ex_waiting :: store where
  "ex_waiting = \<lparr>es_root = ex_fleet (Dir 1 [(''object'', File ex_job_text 1 0), (''target-state'', File ''launched'' 2 0)]), es_index = 5\<rparr>"

definition ex_unit_read :: Unit where
  "ex_unit_read = \<lparr>u_Name = ''web.service'', u_Unit = NewUnitFromOptions [ex_option ''Conflicts'' ''db*''],
     u_TargetState = JobStateLaunched\<rparr>"

lemma ex_waiting_read:
  "er_Units local_etcd DefaultKeyPrefix ex_waiting = Inr [ex_unit_read]"
  "er_Schedule local_etcd DefaultKeyPrefix ex_waiting =
     Inr [\<lparr>su_Name = ''web.service'', su_State = Some JobStateInactive, su_TargetMachineID = []\<rparr>]"
  "er_Machines local_etcd DefaultKeyPrefix ex_waiting = Inr [zero_machine\<lparr>ms_ID := ''m1''\<rparr>, zero_machine\<lparr>ms_ID := ''m2''\<rparr>]"
  by code_simp+

definition ex_waiting_cluster :: clusterState where
  "ex_waiting_cluster = newClusterState [ex_unit_read]
     [\<lparr>su_Name = ''web.service'', su_State = Some JobStateInactive, su_TargetMachineID = []\<rparr>]
     [zero_machine\<lparr>ms_ID := ''m1''\<rparr>, zero_machine\<lparr>ms_ID := ''m2''\<rparr>]"

lemma ex_waiting_cluster: "engine_clusterState ex_reg ex_waiting = Inr ex_waiting_cluster"
  using ex_waiting_read by (simp add: engine_clusterState_def NewEtcdRegistry_def text_result_def ex_waiting_cluster_def)

lemma ex_waiting_several: "several_machines ex_waiting_cluster"
  unfolding several_machines_def ex_waiting_cluster_def newClusterState_machines by auto

lemma ex_waiting_tasks:
  "map (\<lambda>t. (t_Type t, t_JobName t, t_MachineID t))
     (r_tasks (calculateClusterTasks keep_order leastLoadedScheduler None ex_waiting_cluster)) =
     [(taskTypeAttemptScheduleUnit, ''web.service'', ''m1'')]"
  "map_of (cs_jobs ex_waiting_cluster) ''web.service'' \<noteq> None"
  "abs_schedule (r_clust (calculateClusterTasks keep_order leastLoadedScheduler None ex_waiting_cluster)) ''web.service'' = Some ''m1''"
  by code_simp+

lemma ex_waiting_schedule: "fst (er_ScheduleUnit local_etcd DefaultKeyPrefix ''web.service'' ''m1'' ex_waiting) = None"
  by code_simp

lemma ex_waiting_succeeds:
  "tasks_succeed ex_reg (r_tasks (calculateClusterTasks keep_order leastLoadedScheduler None ex_waiting_cluster)) ex_waiting"
proof -
  obtain t where t: "r_tasks (calculateClusterTasks keep_order leastLoadedScheduler None ex_waiting_cluster) = [t]"
    "t_Type t = taskTypeAttemptScheduleUnit" "t_JobName t = ''web.service''" "t_MachineID t = ''m1''"
    using ex_waiting_tasks(1) by (auto simp: map_eq_Cons_conv)
  have "fst (reg_ScheduleUnit ex_reg ''web.service'' ''m1'' ex_waiting) = None"
    using ex_waiting_schedule by (simp add: NewEtcdRegistry_def text_error_def)
  then show ?thesis
    using t by (auto simp: task_ok_def attemptScheduleUnit_def split: prod.split option.split)
qed

text \<open>A check of all indices of a tree.\<close>

fun indices_ok :: "nat \<Rightarrow> etree \<Rightarrow> bool" where
  "indices_ok n (File v i ttl) = (0 < i \<and> i \<le> n)"
| "indices_ok n (Dir j ch) = list_all (\<lambda>(c, t). indices_ok n t) ch"

lemma indices_ok_file: "indices_ok n t \<Longrightarrow> file_at t p = Some (v, i) \<Longrightarrow> 0 < i \<and> i \<le> n"
proof (induction p arbitrary: t)
  case Nil
  then show ?case by (cases t) auto
next
  case (Cons c p)
  then obtain j ch t' where t: "t = Dir j ch" "map_of ch c = Some t'" "file_at t' p = Some (v, i)"
    by (cases t) (auto split: option.splits)
  then have "indices_ok n t'" using Cons.prems(1) by (auto simp: list_all_iff dest!: map_of_SomeD)
  from Cons.IH[OF this t(3)] show ?case .
qed

lemma ex_waiting_indices: "indices_ok (es_index ex_waiting) (es_root ex_waiting)"
  by code_simp

lemma ex_waiting_inv: "registry_inv DefaultKeyPrefix ex_waiting"
proof -
  have p: "comps DefaultKeyPrefix = [''_coreos.com'', ''fleet'']" by code_simp
  have j: "files ex_waiting (job_key DefaultKeyPrefix n f) =
      (if n = ''web.service'' \<and> f = ''object'' then Some (ex_job_text, 1)
       else if n = ''web.service'' \<and> f = ''target-state'' then Some (''launched'', 2) else None)" for n f
    by (simp add: files_def job_key_def p ex_waiting_def ex_fleet_def)
  have "unmarshal dec_jobModel ex_job_text = Some \<lparr>jm_Name = ''web.service'', jm_UnitHash = ex_hash\<rparr>" by code_simp
  moreover have "lookup (lease_key DefaultKeyPrefix n) (es_root ex_waiting) = None" for n
    by (simp add: lease_key_def p ex_waiting_def ex_fleet_def leasePrefix_def)
  moreover have "tree_ok (es_root ex_waiting)" by code_simp
  moreover have "0 < i \<and> i \<le> es_index ex_waiting" if "files ex_waiting q = Some (v, i)" for q v i
    using that indices_ok_file[OF ex_waiting_indices] by (simp add: files_def)
  ultimately show ?thesis using j by (auto simp: registry_inv_def lease_inv_def store_ok_def split: if_splits)
qed

end
