(* ===== verification/Props_Cluster.thy ===== *)
theory Props_Cluster
  imports Cluster_Examples
begin

text \<open>
  The properties of the cluster on etcd: leadership, what the engine leaves in the registry, and the
  version of the cluster. The etcd client is any that meets the contract \<open>etcd\<close>.
\<close>

section \<open>Leadership\<close>



section \<open>What the engine leaves in the registry\<close>

text \<open>
  C2. An engine on the etcd registry takes its snapshot of units, schedule and machines, computes its
  tasks and executes them one by one, with two or more machines in the cluster, in any order of map
  iteration. When every task is carried out, the store afterwards has exactly the target machines the
  pass decided on, all of them machines of the cluster, and nothing else it relies on has changed.
\<close>

theorem reconcile_stores_decision:
  assumes "etcd api store" "rooted_path keyPrefix" "registry_inv keyPrefix (store e)" "valid_order ord"
    and "engine_clusterState (NewEtcdRegistry srt api keyPrefix) e = Inr clust" "several_machines clust"
    and "r = calculateClusterTasks ord leastLoadedScheduler None clust"
    and "tasks_succeed (NewEtcdRegistry srt api keyPrefix) (r_tasks r) e"
    and "e' = engine_Reconcile ord leastLoadedScheduler (NewEtcdRegistry srt api keyPrefix) None e"
  shows "registry_inv keyPrefix (store e') \<and>
    (\<forall>n j. map_of (cs_jobs clust) n = Some j \<longrightarrow>
       etcd_sched keyPrefix (store e') n = abs_schedule (r_clust r) n \<and>
       (\<forall>m. etcd_sched keyPrefix (store e') n = Some m \<longrightarrow> m \<in> dom (map_of (cs_machines clust))))"
proof -
  have loc: "etcd_registry api store keyPrefix"
    using assms(1,2) by (simp add: etcd_registry_def etcd_leases_def etcd_leases_axioms_def)
  note r = etcd_registry.etcd_reconcile[OF loc assms(3-9)]
  have "m \<in> dom (map_of (cs_machines clust))" if h: "abs_schedule (r_clust r) n = Some m" for n m
  proof -
    obtain j where "map_of (cs_jobs (r_clust r)) n = Some j" "Scheduled j" "j_TargetMachineID j = m"
      using h by (auto simp: abs_schedule_def split: option.splits if_splits)
    moreover have "settled (r_clust r) n" "cs_machines (r_clust r) = cs_machines clust"
      using r by (simp_all add: same_but_targets_def)
    ultimately show ?thesis by (simp add: settled_def)
  qed
  moreover have "etcd_sched keyPrefix (store e') n = abs_schedule (r_clust r) n" if "map_of (cs_jobs clust) n = Some j" for n j
    using r that by blast
  ultimately show ?thesis using r by simp
qed

theorem reconcile_stores_decision_witness:
  "etcd_sched DefaultKeyPrefix (engine_Reconcile keep_order leastLoadedScheduler ex_reg None ex_waiting) ''web.service'' = Some ''m1''"
proof -
  obtain j where j: "map_of (cs_jobs ex_waiting_cluster) ''web.service'' = Some j" using ex_waiting_tasks(2) by auto
  show ?thesis
    using reconcile_stores_decision[OF local_etcd_contract ex_prefix_rooted ex_waiting_inv valid_keep_order
        ex_waiting_cluster ex_waiting_several refl ex_waiting_succeeds refl] j ex_waiting_tasks(3) by simp
qed

section \<open>Leadership over gRPC\<close>

text \<open>
  C31. Renewing the engine lease over gRPC means to acquire the lease again when it is gone. On etcd it
  never does: the error it looks for is not one the etcd client gives, so the renewal is the plain
  one, and an engine whose lease expired loses it until its next round.
\<close>

theorem rpc_renewal_is_plain:
  assumes "etcd api store"
  shows "rpcRenewLeadership (NewEtcdLeaseManager api keyPrefix) l ver ttl e =
    renewLeadership (NewEtcdLeaseManager api keyPrefix) l ttl e"
proof -
  obtain r e' where k: "k_Set api (le_key l) (serializeLeaseMetadata (le_MachineID l) (le_Version l))
      (setOptions\<lparr>so_PrevIndex := le_Index l, so_TTL := ttl\<rparr>) e = (r, e')" by fastforce
  then have "\<not> isServerError err c" if "r = Inl err" for err c
    using that by (cases rule: etcd.set_outcomes[OF assms, consumes 1]) (auto simp: isServerError_def)
  with k show ?thesis
    by (auto simp: rpcRenewLeadership_def renewLeadership_def NewEtcdLeaseManager_def Renew_def Let_def split: sum.splits)
qed

theorem rpc_renewal_is_plain_witness:
  "rpcRenewLeadership ex_lm ex_lease 1 10000000000 ex_store1 = (None, ex_store1)"
proof -
  have "Renew local_etcd 10000000000 ex_lease ex_store1 = (Inl (EtcdError ErrorCodeKeyNotFound), ex_store1)" by code_simp
  then show ?thesis
    using rpc_renewal_is_plain[OF local_etcd_contract, of DefaultKeyPrefix ex_lease 1 10000000000 ex_store1]
    by (simp add: renewLeadership_def NewEtcdLeaseManager_def)
qed



section \<open>The version of the cluster\<close>

text \<open>
  C19. The version of the cluster is changed by compare and swap: a call either leaves it and reports
  an error, or it was the version the caller expected, or none, and is the new one afterwards. A call
  that reports success is followed by a read of the new version, unless the read cannot be made.
\<close>

theorem engine_version_cas:
  assumes "etcd api store" "rooted_path keyPrefix" "int64 to"
    and "er_UpdateEngineVersion api keyPrefix from to e = (eo, e')"
  shows "(version_text keyPrefix (store e') = version_text keyPrefix (store e) \<and> eo \<noteq> None \<or>
      version_text keyPrefix (store e) \<in> {None, Some (Itoa from)} \<and> version_text keyPrefix (store e') = Some (Itoa to)) \<and>
    (eo = None \<longrightarrow> (\<exists>m. er_EngineVersion api keyPrefix e' \<in> {Inr to, Inl (OtherError m)}))"
proof -
  have loc: "etcd_registry api store keyPrefix"
    using assms(1,2) by (simp add: etcd_registry_def etcd_leases_def etcd_leases_axioms_def)
  show ?thesis using etcd_registry.etcd_version_cas[OF loc assms(3,4)] by blast
qed

theorem engine_version_cas_witness:
  "version_text DefaultKeyPrefix ex_store0 = None \<and> version_text DefaultKeyPrefix ex_store1 = Some (Itoa 1)"
proof -
  have i: "int64 1" by (simp add: int64_def)
  have "version_text DefaultKeyPrefix ex_store0 = None" by code_simp
  with engine_version_cas[OF local_etcd_contract ex_prefix_rooted i ex_version(2)] show ?thesis by auto
qed

end
