(* ===== verification/Registry_Etcd_Units.thy ===== *)
theory Registry_Etcd_Units
  imports Registry_Etcd_Laws
begin

text \<open>
  What is written to the registry in etcd is read back: units, unit states and machine states
  survive the way through JSON, the keys and the directories.
\<close>

text \<open>The service is asked and answers, as long as the connection holds.\<close>

definition reads_answered :: "'e KeysAPI \<Rightarrow> ('e \<Rightarrow> store) \<Rightarrow> 'e \<Rightarrow> bool" where
  "reads_answered api store e \<longleftrightarrow> (\<forall>k go. k_Get api k go e = spec_get k go (store e))"

section \<open>Structures through JSON\<close>

lemma unmarshal_marshal: "json_ok (JObj ms) \<Longrightarrow> unmarshal dec (marshal (JObj ms)) = dec ms"
  using json_roundtrip[of "JObj ms"] by (simp add: unmarshal_def marshal_def struct_members_def)

lemma unmarshal_jobModel:
  assumes "ascii (jm_Name jm)" "length (jm_UnitHash jm) = sha1_Size"
  shows "unmarshal dec_jobModel (marshal (enc_jobModel jm)) = Some jm"
proof -
  have "json_ok (JObj [(''Name'', JStr (jm_Name jm)), (''UnitHash'', enc_array (jm_UnitHash jm))])"
    using assms(1) enc_array_ok by simp
  from unmarshal_marshal[OF this, of dec_jobModel] show ?thesis
    using assms dec_enc_array[of "replicate sha1_Size 0" "jm_UnitHash jm"]
    by (simp add: enc_jobModel_def dec_jobModel_def ToLower_def ToLowerByte_def)
qed

lemma unmarshal_unitModel: "ascii (um_Raw um) \<Longrightarrow> unmarshal dec_unitModel (marshal (enc_unitModel um)) = Some um"
  using unmarshal_marshal[of "[(''Raw'', JStr (um_Raw um))]" dec_unitModel] by (simp add: enc_unitModel_def dec_unitModel_def)

lemma hash_plain: "length h = sha1_Size \<Longrightarrow> plain (Hash_String h)"
proof -
  assume h: "length h = sha1_Size"
  have d: "hex_digit n \<in> set ''0123456789abcdef''" for n
    unfolding hex_digit_def by (rule nth_mem) (use mod_less_divisor[of 16 n] in simp)
  have "set (Hash_String h) \<subseteq> set ''0123456789abcdef''"
    using d by (force simp: Hash_String_def hex_EncodeToString_def hex_byte_def)
  moreover have "length (Hash_String h) = 40"
    using h by (simp add: Hash_String_def length_hex_EncodeToString sha1_Size_def)
  ultimately show ?thesis by (auto simp: plain_def)
qed

section \<open>The object of a job\<close>

lemma object_node:
  assumes "tree_ok t" "list_all plain q" "q \<noteq> []"
  shows "fold (\<lambda>node obj. if nd_Key node = path_Join [nd_Key (deep_node srt q t), ''object''] then Some node else obj)
      (nd_Nodes (deep_node srt q t)) None =
    map_option (deep_node srt (q @ [''object''])) (map_of (children t) ''object'')"
proof -
  have f: "plain ''object''" "\<not> hidden ''object''" by (simp_all add: plain_def hidden_def HasPrefix_def)
  have c: "tree_ok (Dir 0 (children t))" by (rule children_ok[OF assms(1)])
  have pl: "\<forall>(c, t)\<in>set (listing srt (children t)). plain c" using tree_ok_listing(1)[OF c] by blast
  have ds: "distinct (map fst (listing srt (children t)))"
    by (rule listing_distinct) (use c in \<open>simp add: tree_ok.simps(2)\<close>)
  have "map_of (listing srt (children t)) ''object'' = map_of (children t) ''object''"
    by (rule map_of_listing[OF _ f(2)]) (use c in \<open>simp add: tree_ok.simps(2)\<close>)
  moreover have "path_Join [nd_Key (deep_node srt q t), ''object''] = abs_path (q @ [''object''])"
    unfolding deep_node_key by (rule path_Join_child[OF assms(2,3) f(1)])
  ultimately show ?thesis
    unfolding nd_Nodes_deep using last_child[OF assms(2) f(1) pl ds, of srt None] by (simp split: option.split)
qed

section \<open>Creating a unit\<close>

definition unit_key :: "string \<Rightarrow> Hash \<Rightarrow> string list" where
  "unit_key keyPrefix h = comps keyPrefix @ [''unit'', Hash_String h]"

definition unit_text :: "UnitFile \<Rightarrow> string" where
  "unit_text u = marshal (enc_unitModel \<lparr>um_Raw = uf_String u\<rparr>)"

text \<open>Nothing else is stored under the hash of the unit file.\<close>

definition hash_slot_ok :: "string \<Rightarrow> store \<Rightarrow> UnitFile \<Rightarrow> bool" where
  "hash_slot_ok keyPrefix s u \<longleftrightarrow>
     lookup (unit_key keyPrefix (uf_Hash u)) (es_root s) = None \<or>
     (\<exists>i. files s (unit_key keyPrefix (uf_Hash u)) = Some (unit_text u, i))"

text \<open>A unit that can be written and read back.\<close>

definition storable :: "Unit \<Rightarrow> bool" where
  "storable u \<longleftrightarrow> plain (u_Name u) \<and> ascii (u_Name u) \<and> ascii (uf_String (u_Unit u)) \<and>
     list_all option_ok (uf_Options (u_Unit u)) \<and> grouped (uf_Options (u_Unit u)) \<and>
     u_Unit u = NewUnitFromOptions (uf_Options (u_Unit u)) \<and>
     u_TargetState u \<in> {JobStateInactive, JobStateLoaded, JobStateLaunched}"

lemma job_unit_apart: "\<not> prefix (job_key keyPrefix n f) (unit_key keyPrefix h)" "unit_key keyPrefix h \<noteq> job_key keyPrefix n f"
  by (auto simp: job_key_def unit_key_def)

context etcd_registry
begin

lemma hashedUnitPath_key: "length h = sha1_Size \<Longrightarrow> comps (hashedUnitPath keyPrefix h) = unit_key keyPrefix h"
  using comps_prefixed[OF prefix_rooted, of "[unitPrefix, Hash_String h]"] hash_plain[of h]
  by (simp add: hashedUnitPath_def unit_key_def)

lemma store_unit_file:
  assumes "storeOrGetUnitFile api keyPrefix u e = (None, e')" "hash_slot_ok keyPrefix (store e) u"
  shows "\<exists>i. files (store e') (unit_key keyPrefix (uf_Hash u)) = Some (unit_text u, i)"
proof -
  let ?k = "hashedUnitPath keyPrefix (uf_Hash u)"
  have k: "comps ?k = unit_key keyPrefix (uf_Hash u)" by (rule hashedUnitPath_key) simp
  obtain r where r: "k_Set api ?k (unit_text u) (setOptions\<lparr>so_PrevExist := PrevNoExist\<rparr>) e = (r, e')"
    and ok: "\<forall>err. r = Inl err \<longrightarrow> isEtcdError err ErrorCodeNodeExist"
    using assms(1) by (auto simp: storeOrGetUnitFile_def unit_text_def Let_def split: prod.splits sum.splits if_splits)
  from r show ?thesis
  proof (cases rule: set_outcomes)
    case (refused c)
    have "lookup (unit_key keyPrefix (uf_Hash u)) (es_root (store e)) \<noteq> None"
    proof
      assume "lookup (unit_key keyPrefix (uf_Hash u)) (es_root (store e)) = None"
      moreover have "c = ErrorCodeNodeExist" using refused(1) ok by (simp add: isEtcdError_def)
      ultimately show False
        using refused(1,3) k
        by (auto simp: spec_set_def compare_prev_def setOptions_def Let_def split: option.splits)
    qed
    then show ?thesis using assms(2) refused(2) by (auto simp: hash_slot_ok_def)
  next
    case (lost m)
    then show ?thesis using ok by (simp add: isEtcdError_def)
  next
    case (written nd)
    show ?thesis using spec_set_done(1)[OF written(1)] k by auto
  qed
qed

text \<open>A file that was written under a job.\<close>

lemma job_written:
  assumes "k_Set api k v so e = (Inr nd, e')" "comps k = job_key keyPrefix n f"
  shows "files (store e') = (files (store e))(job_key keyPrefix n f \<mapsto> (v, es_index (store e')))"
  using assms(1)
proof (cases rule: set_outcomes)
  case (written nd')
  then show ?thesis using spec_set_done(1)[OF written(1)] assms(2) by simp
qed simp_all

lemma create_writes:
  assumes "er_CreateUnit api keyPrefix u e = (None, e')" "plain (u_Name u)" "hash_slot_ok keyPrefix (store e) (u_Unit u)"
  shows "\<exists>i. files (store e') (unit_key keyPrefix (uf_Hash (u_Unit u))) = Some (unit_text (u_Unit u), i)"
    "\<exists>i. files (store e') (job_key keyPrefix (u_Name u) ''object'') =
       Some (marshal (enc_jobModel \<lparr>jm_Name = u_Name u, jm_UnitHash = uf_Hash (u_Unit u)\<rparr>), i)"
    "\<exists>i. files (store e') (job_key keyPrefix (u_Name u) ''target-state'') = Some (u_TargetState u, i)"
proof -
  let ?val = "marshal (enc_jobModel \<lparr>jm_Name = u_Name u, jm_UnitHash = uf_Hash (u_Unit u)\<rparr>)"
  obtain e1 e2 nd nd2 where s1: "storeOrGetUnitFile api keyPrefix (u_Unit u) e = (None, e1)"
    and s2: "k_Set api (prefixed keyPrefix [jobPrefix, u_Name u, ''object'']) ?val (setOptions\<lparr>so_PrevExist := PrevIgnore\<rparr>) e1 = (Inr nd, e2)"
    and s3: "k_Set api (jobTargetStatePath keyPrefix (u_Name u)) (u_TargetState u) setOptions e2 = (Inr nd2, e')"
    using assms(1)
    by (auto simp: er_CreateUnit_def er_SetUnitTargetState_def error_of_def Let_def split: prod.splits option.splits sum.splits)
  note keys = comps_job_paths[OF prefix_rooted assms(2)]
  note f2 = job_written[OF s2 keys(4)] and f3 = job_written[OF s3 keys(2)]
  show "\<exists>i. files (store e') (unit_key keyPrefix (uf_Hash (u_Unit u))) = Some (unit_text (u_Unit u), i)"
    using store_unit_file[OF s1 assms(3)] f2 f3 job_unit_apart(2) by simp
  show "\<exists>i. files (store e') (job_key keyPrefix (u_Name u) ''object'') = Some (?val, i)"
    "\<exists>i. files (store e') (job_key keyPrefix (u_Name u) ''target-state'') = Some (u_TargetState u, i)"
    using f2 f3 by simp_all
qed

lemma get_unit_by_hash:
  assumes "files (store e) (unit_key keyPrefix (uf_Hash u)) = Some (unit_text u, i)" "ascii (uf_String u)"
    and "NewUnitFile (uf_String u) = Inr u" "reads_answered api store e"
  shows "getUnitByHash api keyPrefix e (uf_Hash u) = Some u"
proof -
  let ?k = "hashedUnitPath keyPrefix (uf_Hash u)" and ?opts = "getOptions\<lparr>go_Recursive := True\<rparr>"
  have k: "comps ?k = unit_key keyPrefix (uf_Hash u)" by (rule hashedUnitPath_key) simp
  obtain nd where nd: "spec_get ?k ?opts (store e) = Inr nd" "nd_Value nd = unit_text u"
    using spec_get_file[of "store e" ?k "unit_text u" i ?opts] assms(1) k by auto
  have "unitFromEtcdNode nd = Some u"
    using nd(2) unmarshal_unitModel[of "\<lparr>um_Raw = uf_String u\<rparr>"] assms(2,3) by (simp add: unitFromEtcdNode_def unit_text_def)
  then show ?thesis
    using assms(4) nd(1) by (simp add: getUnitByHash_def reads_answered_def)
qed

lemma read_unit:
  assumes ok: "tree_ok (es_root (store e))" and u: "storable u"
    and f: "files (store e) (unit_key keyPrefix (uf_Hash (u_Unit u))) = Some (unit_text (u_Unit u), i1)"
      "files (store e) (job_key keyPrefix (u_Name u) ''object'') =
         Some (marshal (enc_jobModel \<lparr>jm_Name = u_Name u, jm_UnitHash = uf_Hash (u_Unit u)\<rparr>), i2)"
      "files (store e) (job_key keyPrefix (u_Name u) ''target-state'') = Some (u_TargetState u, i3)"
    and ans: "reads_answered api store e"
  shows "er_Unit api keyPrefix (u_Name u) e = Inr (Some u)"
proof -
  let ?q = "job_dir keyPrefix @ [u_Name u]" and ?jm = "\<lparr>jm_Name = u_Name u, jm_UnitHash = uf_Hash (u_Unit u)\<rparr>"
  have n: "plain (u_Name u)" using u by (simp add: storable_def)
  have q: "list_all plain ?q" "?q \<noteq> []" using n job_dir_plain(1)[OF prefix_rooted] by simp_all
  have key: "comps (prefixed keyPrefix [jobPrefix, u_Name u]) = ?q"
    using comps_job_paths(5)[OF prefix_rooted n] by (simp add: job_dir_def)
  obtain t where t: "lookup ?q (es_root (store e)) = Some t"
    and obj: "file_at t [''object''] = Some (marshal (enc_jobModel ?jm), i2)"
    and ts: "file_at t [''target-state''] = Some (u_TargetState u, i3)"
    using f(2,3) file_at_append[of "es_root (store e)" ?q]
    by (auto simp: files_def job_key_dir split: option.splits)
  have tok: "tree_ok t" by (rule lookup_tree_ok[OF ok t])
  obtain ttl where ot: "map_of (children t) ''object'' = Some (File (marshal (enc_jobModel ?jm)) i2 ttl)"
    using obj by (cases t) (auto simp: children_def split: option.splits etree.splits)
  let ?opts = "getOptions\<lparr>go_Recursive := True\<rparr>"
  let ?dir = "deep_node False ?q t" and ?look = "getUnitByHash api keyPrefix e"
  have "spec_get (prefixed keyPrefix [jobPrefix, u_Name u]) ?opts (store e) = Inr ?dir"
    using t key by (simp add: spec_get_def node_of_def getOptions_def)
  then have rd: "er_Unit api keyPrefix (u_Name u) e = dirToUnit ?look ?dir"
    using ans by (simp add: er_Unit_def reads_answered_def)
  have "NewUnitFile (uf_String (u_Unit u)) = Inr (u_Unit u)"
    using u NewUnitFile_String[of "uf_Options (u_Unit u)"] by (simp add: storable_def)
  then have look: "?look (uf_Hash (u_Unit u)) = Some (u_Unit u)"
    using get_unit_by_hash[OF f(1)] u ans by (simp add: storable_def)
  have "getUnitFromObjectNode ?look (deep_node False (?q @ [''object'']) (File (marshal (enc_jobModel ?jm)) i2 ttl)) =
      Inr (map_option (\<lambda>uf. \<lparr>u_Name = u_Name u, u_Unit = uf, u_TargetState = []\<rparr>) (?look (uf_Hash (u_Unit u))))"
    using unmarshal_jobModel[of ?jm] u by (simp add: getUnitFromObjectNode_def storable_def)
  moreover have "dirToTargetState ?dir = u_TargetState u"
    using getValueInDir_deep[OF tok q, of "''target-state''" False] ts
    by (simp add: dirToTargetState_def plain_def hidden_def HasPrefix_def)
  moreover have "u_TargetState u \<noteq> [] \<and> ParseJobState (u_TargetState u) = (u_TargetState u, None)"
    using u by (auto simp: storable_def ParseJobState_def JobStateInactive_def JobStateLoaded_def JobStateLaunched_def)
  ultimately show ?thesis
    using rd look object_node[OF tok q, of False] ot by (auto simp: dirToUnit_def Let_def)
qed

end

section \<open>Every call keeps the invariant\<close>

text \<open>A call of a registry operation by an agent, a client or an engine.\<close>

inductive registry_call :: "'e KeysAPI \<Rightarrow> string \<Rightarrow> 'e \<Rightarrow> 'e \<Rightarrow> bool" for api keyPrefix where
  CreateUnit: "\<lbrakk>plain (u_Name u); ascii (u_Name u); er_CreateUnit api keyPrefix u e = (eo, e')\<rbrakk> \<Longrightarrow> registry_call api keyPrefix e e'"
| DestroyUnit: "\<lbrakk>plain n; er_DestroyUnit api keyPrefix n e = (eo, e')\<rbrakk> \<Longrightarrow> registry_call api keyPrefix e e'"
| SetUnitTargetState: "\<lbrakk>plain n; er_SetUnitTargetState api keyPrefix n st e = (eo, e')\<rbrakk> \<Longrightarrow> registry_call api keyPrefix e e'"
| ScheduleUnit: "\<lbrakk>plain n; m \<noteq> []; er_ScheduleUnit api keyPrefix n m e = (eo, e')\<rbrakk> \<Longrightarrow> registry_call api keyPrefix e e'"
| UnscheduleUnit: "\<lbrakk>plain n; er_UnscheduleUnit api keyPrefix n m e = (eo, e')\<rbrakk> \<Longrightarrow> registry_call api keyPrefix e e'"
| UnitHeartbeat: "\<lbrakk>plain n; er_UnitHeartbeat api keyPrefix n m ttl e = (eo, e')\<rbrakk> \<Longrightarrow> registry_call api keyPrefix e e'"
| ClearUnitHeartbeat: "plain n \<Longrightarrow> registry_call api keyPrefix e (er_ClearUnitHeartbeat api keyPrefix n e)"
| SaveUnitState: "\<lbrakk>plain n; us_MachineID us = [] \<or> plain (us_MachineID us)\<rbrakk> \<Longrightarrow>
    registry_call api keyPrefix e (er_SaveUnitState api keyPrefix n us ttl e)"
| RemoveUnitState: "\<lbrakk>plain n; er_RemoveUnitState api keyPrefix n e = (eo, e')\<rbrakk> \<Longrightarrow> registry_call api keyPrefix e e'"
| CreateMachineState: "\<lbrakk>plain (ms_ID ms); er_CreateMachineState api keyPrefix ms ttl e = (q, e')\<rbrakk> \<Longrightarrow> registry_call api keyPrefix e e'"
| SetMachineState: "\<lbrakk>plain (ms_ID ms); er_SetMachineState api keyPrefix ms ttl e = (q, e')\<rbrakk> \<Longrightarrow> registry_call api keyPrefix e e'"
| SetMachineMetadata: "\<lbrakk>plain m; plain k; er_SetMachineMetadata api keyPrefix m k v e = (eo, e')\<rbrakk> \<Longrightarrow> registry_call api keyPrefix e e'"
| DeleteMachineMetadata: "\<lbrakk>plain m; plain k; er_DeleteMachineMetadata api keyPrefix m k e = (eo, e')\<rbrakk> \<Longrightarrow> registry_call api keyPrefix e e'"
| RemoveMachineState: "\<lbrakk>plain m; er_RemoveMachineState api keyPrefix m e = (eo, e')\<rbrakk> \<Longrightarrow> registry_call api keyPrefix e e'"
| UpdateEngineVersion: "er_UpdateEngineVersion api keyPrefix v v' e = (eo, e') \<Longrightarrow> registry_call api keyPrefix e e'"

context etcd_registry
begin

lemma key_comps:
  assumes "plain n"
  shows "comps (legacyUnitStatePath keyPrefix n) = comps keyPrefix @ [''state'', n]"
    "comps (unitStatesNamespace keyPrefix n) = comps keyPrefix @ [''states'', n]"
    "comps (machine_key keyPrefix n) = comps keyPrefix @ [''machines'', n, ''object'']"
    "m = [] \<or> plain m \<Longrightarrow> comps (unitStatePath keyPrefix m n) = comps keyPrefix @ ''states'' # n # comps m"
    "plain k \<Longrightarrow> comps (path_Join [keyPrefix, machinePrefix, n, ''metadata'', k]) = comps keyPrefix @ [''machines'', n, ''metadata'', k]"
proof -
  note nd = prefix_no_dots[OF prefix_rooted] and c = comps_prefixed[OF prefix_rooted]
  show "comps (legacyUnitStatePath keyPrefix n) = comps keyPrefix @ [''state'', n]"
    "comps (machine_key keyPrefix n) = comps keyPrefix @ [''machines'', n, ''object'']"
    using assms by (simp_all add: legacyUnitStatePath_def machine_key_def c)
  show ns: "comps (unitStatesNamespace keyPrefix n) = comps keyPrefix @ [''states'', n]"
    using assms by (simp add: unitStatesNamespace_def c)
  show "comps (unitStatePath keyPrefix m n) = comps keyPrefix @ ''states'' # n # comps m" if "m = [] \<or> plain m"
    using comps_path_Join[of "[unitStatesNamespace keyPrefix n, m]"] ns assms nd that by (auto simp: unitStatePath_def)
  show "comps (path_Join [keyPrefix, machinePrefix, n, ''metadata'', k]) = comps keyPrefix @ [''machines'', n, ''metadata'', k]"
    if "plain k"
    using comps_path_Join[of "[keyPrefix, machinePrefix, n, ''metadata'', k]"] assms nd that by auto
qed

lemma other_set:
  assumes "registry_inv keyPrefix (store e)" "k_Set api k v so e = (r, e')"
    and "comps k = comps keyPrefix @ d # rest" "d \<noteq> leasePrefix" "d \<noteq> ''job''" "''..'' \<notin> set (d # rest)"
  shows "quiet e e'"
  by (rule registry_set[OF assms(1-4)]) (use assms(3-6) prefix_no_dots[OF prefix_rooted] in \<open>auto simp: job_key_def\<close>)

lemma apart_names: "leasePrefix = ''lease''" by (simp add: leasePrefix_def)

lemma create_quiet:
  assumes inv: "registry_inv keyPrefix (store e)" and "plain (u_Name u)" "ascii (u_Name u)" "er_CreateUnit api keyPrefix u e = (eo, e')"
  shows "quiet e e'"
proof -
  let ?jm = "\<lparr>jm_Name = u_Name u, jm_UnitHash = uf_Hash (u_Unit u)\<rparr>"
  note keys = comps_job_paths[OF prefix_rooted assms(2)]
  obtain r1 e1 where s1: "k_Set api (hashedUnitPath keyPrefix (uf_Hash (u_Unit u))) (marshal (enc_unitModel \<lparr>um_Raw = uf_String (u_Unit u)\<rparr>))
      (setOptions\<lparr>so_PrevExist := PrevNoExist\<rparr>) e = (r1, e1)" by fastforce
  obtain r2 e2 where s2: "k_Set api (prefixed keyPrefix [jobPrefix, u_Name u, ''object'']) (marshal (enc_jobModel ?jm))
      (setOptions\<lparr>so_PrevExist := PrevIgnore\<rparr>) e1 = (r2, e2)" by fastforce
  obtain r3 e3 where s3: "k_Set api (jobTargetStatePath keyPrefix (u_Name u)) (u_TargetState u) setOptions e2 = (r3, e3)" by fastforce
  have q1: "quiet e e1"
    by (rule other_set[OF inv s1, of "''unit''" "[Hash_String (uf_Hash (u_Unit u))]"])
      (use hash_plain[of "uf_Hash (u_Unit u)"] in \<open>auto simp: hashedUnitPath_key unit_key_def apart_names\<close>)
  have q2: "quiet e1 e2"
    by (rule registry_set[OF _ s2, of "''job''" "[u_Name u, ''object'']"])
      (use q1 assms(2,3) keys(4) prefix_no_dots[OF prefix_rooted] unmarshal_jobModel[of ?jm] in \<open>auto simp: quiet_def apart_names job_key_def\<close>)
  have q3: "quiet e2 e3"
    by (rule registry_set[OF _ s3, of "''job''" "[u_Name u, ''target-state'']"])
      (use q2 assms(2) keys(2) prefix_no_dots[OF prefix_rooted] in \<open>auto simp: quiet_def apart_names job_key_def\<close>)
  have "e' = e1 \<or> e' = e2 \<or> e' = e3"
    using assms(4) s1 s2 s3
    by (auto simp: er_CreateUnit_def storeOrGetUnitFile_def er_SetUnitTargetState_def error_of_def Let_def split: sum.splits if_splits option.splits)
  then show ?thesis using q1 quiet_trans[OF q1 q2] quiet_trans[OF quiet_trans[OF q1 q2] q3] by auto
qed

lemma create_then_read:
  assumes "registry_inv keyPrefix (store e)" "storable u" "hash_slot_ok keyPrefix (store e) (u_Unit u)"
    and "er_CreateUnit api keyPrefix u e = (None, e')" "reads_answered api store e'"
  shows "er_Unit api keyPrefix (u_Name u) e' = Inr (Some u)"
proof -
  have n: "plain (u_Name u)" "ascii (u_Name u)" using assms(2) by (simp_all add: storable_def)
  have "tree_ok (es_root (store e'))"
    using create_quiet[OF assms(1) n assms(4)] by (auto simp: quiet_def dest: registry_inv_parts(3))
  then show ?thesis
    using create_writes[OF assms(4) n(1) assms(3)] read_unit[OF _ assms(2) _ _ _ assms(5)] by auto
qed

lemma job_set:
  assumes "registry_inv keyPrefix (store e)" "plain n" "k_Set api k v so e = (r, e')"
    and "comps k = job_key keyPrefix n f" "plain f" "f \<noteq> ''object''" "f \<noteq> ''target''"
  shows "quiet e e'"
  by (rule registry_set[OF assms(1,3), of "''job''" "[n, f]"])
    (use assms prefix_no_dots[OF prefix_rooted] in \<open>auto simp: apart_names job_key_def\<close>)

lemma error_of_state: "error_of x = (eo, e') \<Longrightarrow> \<exists>r. x = (r, e')"
  by (cases x) (auto simp: error_of_def split: sum.splits)

lemma index_of_state: "index_of x = (q, e') \<Longrightarrow> \<exists>r. x = (r, e')"
  by (cases x) (auto simp: index_of_def split: sum.splits)

lemma save_quiet:
  assumes inv: "registry_inv keyPrefix (store e)" and "plain n" "us_MachineID us = [] \<or> plain (us_MachineID us)"
  shows "quiet e (er_SaveUnitState api keyPrefix n us ttl e)"
proof (cases "unitStateToModel us")
  case None
  then show ?thesis using inv by (simp add: er_SaveUnitState_def quiet_def)
next
  case (Some usm)
  let ?v = "marshal (enc_unitStateModel usm)" and ?so = "setOptions\<lparr>so_TTL := ttl\<rparr>"
  obtain r1 e1 where s1: "k_Set api (legacyUnitStatePath keyPrefix n) ?v ?so e = (r1, e1)" by fastforce
  obtain r2 e2 where s2: "k_Set api (unitStatePath keyPrefix (us_MachineID us) n) ?v ?so e1 = (r2, e2)" by fastforce
  have q1: "quiet e e1"
    by (rule other_set[OF inv s1, of "''state''" "[n]"]) (use assms(2) in \<open>auto simp: key_comps apart_names\<close>)
  have q2: "quiet e1 e2"
    by (rule other_set[OF _ s2, of "''states''" "n # comps (us_MachineID us)"])
      (use q1 assms(2,3) in \<open>auto simp: quiet_def key_comps apart_names\<close>)
  show ?thesis using quiet_trans[OF q1 q2] Some s1 s2 by (simp add: er_SaveUnitState_def Let_def)
qed

lemma remove_state_quiet:
  assumes inv: "registry_inv keyPrefix (store e)" and "plain n" "er_RemoveUnitState api keyPrefix n e = (eo, e')"
  shows "quiet e e'"
proof -
  obtain r1 e1 where s1: "k_Delete api (legacyUnitStatePath keyPrefix n) deleteOptions e = (r1, e1)" by fastforce
  obtain r2 e2 where s2: "k_Delete api (unitStatesNamespace keyPrefix n) (deleteOptions\<lparr>do_Recursive := True\<rparr>) e1 = (r2, e2)" by fastforce
  have q1: "quiet e e1"
    by (rule registry_delete[OF inv s1, of "''state''" "[n]"]) (use assms(2) in \<open>auto simp: key_comps apart_names\<close>)
  have q2: "quiet e1 e2"
    by (rule registry_delete[OF _ s2, of "''states''" "[n]"]) (use q1 assms(2) in \<open>auto simp: quiet_def key_comps apart_names\<close>)
  have "e' = e1 \<or> e' = e2" using assms(3) s1 s2 by (auto simp: er_RemoveUnitState_def Let_def split: option.splits)
  then show ?thesis using q1 quiet_trans[OF q1 q2] by auto
qed

lemma set_machine_quiet:
  assumes inv: "registry_inv keyPrefix (store e)" and "plain (ms_ID ms)" "er_SetMachineState api keyPrefix ms ttl e = (q, e')"
  shows "quiet e e'"
proof -
  let ?k = "machine_key keyPrefix (ms_ID ms)" and ?v = "marshal (enc_machine ms)"
  have quiet: "quiet e1 e2" if "registry_inv keyPrefix (store e1)" "k_Set api ?k ?v so e1 = (r, e2)" for so e1 e2 r
    by (rule other_set[OF that, of "''machines''" "[ms_ID ms, ''object'']"]) (use assms(2) in \<open>auto simp: key_comps apart_names\<close>)
  obtain r1 e1 where s1: "k_Set api ?k ?v (setOptions\<lparr>so_PrevExist := PrevExist, so_TTL := ttl\<rparr>) e = (r1, e1)" by fastforce
  obtain r2 e2 where s2: "k_Set api ?k ?v (setOptions\<lparr>so_PrevExist := PrevNoExist, so_TTL := ttl\<rparr>) e1 = (r2, e2)" by fastforce
  have q1: "quiet e e1" by (rule quiet[OF inv s1])
  have q2: "quiet e1 e2" by (rule quiet[OF _ s2]) (use q1 in \<open>simp add: quiet_def\<close>)
  have "e' = e1 \<or> e' = e2" using assms(3) s1 s2 by (auto simp: er_SetMachineState_def index_of_def Let_def split: sum.splits)
  then show ?thesis using q1 quiet_trans[OF q1 q2] by auto
qed

lemma call_quiet:
  assumes "registry_call api keyPrefix e e'" "registry_inv keyPrefix (store e)"
  shows "quiet e e'"
  using assms
proof (induction rule: registry_call.induct)
  case (CreateUnit u e eo e')
  then show ?case using create_quiet by blast
next
  case (DestroyUnit n e eo e')
  then obtain r where "k_Delete api (prefixed keyPrefix [jobPrefix, n]) (deleteOptions\<lparr>do_Recursive := True\<rparr>) e = (r, e')"
    by (auto simp: er_DestroyUnit_def split: prod.splits sum.splits)
  then show ?case
    by (rule registry_delete[OF DestroyUnit.prems, of _ _ _ _ "''job''" "[n]"])
      (use DestroyUnit comps_job_paths(5)[OF prefix_rooted] in \<open>auto simp: apart_names\<close>)
next
  case (SetUnitTargetState n st e eo e')
  then obtain r where "k_Set api (jobTargetStatePath keyPrefix n) st setOptions e = (r, e')"
    by (auto simp: er_SetUnitTargetState_def dest: error_of_state)
  from job_set[OF SetUnitTargetState(3,1) this comps_job_paths(2)[OF prefix_rooted SetUnitTargetState(1)]]
  show ?case by (simp add: plain_def)
next
  case (ScheduleUnit n m e eo e')
  then show ?case using Schedule_quiet by blast
next
  case (UnscheduleUnit n m e eo e')
  then show ?case using Unschedule_quiet by blast
next
  case (UnitHeartbeat n m ttl e eo e')
  then obtain r where "k_Set api (jobHeartbeatPath keyPrefix n) m (setOptions\<lparr>so_TTL := ttl\<rparr>) e = (r, e')"
    by (auto simp: er_UnitHeartbeat_def dest: error_of_state)
  from job_set[OF UnitHeartbeat(3,1) this comps_job_paths(3)[OF prefix_rooted UnitHeartbeat(1)]]
  show ?case by (simp add: plain_def)
next
  case (ClearUnitHeartbeat n e)
  have "k_Delete api (jobHeartbeatPath keyPrefix n) deleteOptions e =
      (fst (k_Delete api (jobHeartbeatPath keyPrefix n) deleteOptions e), er_ClearUnitHeartbeat api keyPrefix n e)"
    by (simp add: er_ClearUnitHeartbeat_def)
  then show ?case
    by (rule registry_delete[OF ClearUnitHeartbeat.prems, of _ _ _ _ "''job''" "[n, ''job-state'']"])
      (use ClearUnitHeartbeat comps_job_paths(3)[OF prefix_rooted] in \<open>auto simp: apart_names job_key_def\<close>)
next
  case (SaveUnitState n us e ttl)
  then show ?case using save_quiet by blast
next
  case (RemoveUnitState n e eo e')
  then show ?case using remove_state_quiet by blast
next
  case (CreateMachineState ms ttl e q e')
  then obtain r where "k_Set api (machine_key keyPrefix (ms_ID ms)) (marshal (enc_machine ms))
      (setOptions\<lparr>so_PrevExist := PrevNoExist, so_TTL := ttl\<rparr>) e = (r, e')"
    by (auto simp: er_CreateMachineState_def dest: index_of_state)
  from other_set[OF CreateMachineState(3) this, of "''machines''" "[ms_ID ms, ''object'']"] show ?case
    using CreateMachineState(1) by (auto simp: key_comps apart_names)
next
  case (SetMachineState ms ttl e q e')
  then show ?case using set_machine_quiet by blast
next
  case (SetMachineMetadata m k v e eo e')
  then obtain r where "k_Set api (path_Join [keyPrefix, machinePrefix, m, ''metadata'', k]) v setOptions e = (r, e')"
    by (auto simp: er_SetMachineMetadata_def dest: error_of_state)
  from other_set[OF SetMachineMetadata(4) this, of "''machines''" "[m, ''metadata'', k]"] show ?case
    using SetMachineMetadata(1,2) by (auto simp: key_comps apart_names)
next
  case (DeleteMachineMetadata m k e eo e')
  then obtain r where "k_Set api (path_Join [keyPrefix, machinePrefix, m, ''metadata'', k]) [] setOptions e = (r, e')"
    by (auto simp: er_DeleteMachineMetadata_def er_SetMachineMetadata_def dest: error_of_state)
  from other_set[OF DeleteMachineMetadata(4) this, of "''machines''" "[m, ''metadata'', k]"] show ?case
    using DeleteMachineMetadata(1,2) by (auto simp: key_comps apart_names)
next
  case (RemoveMachineState m e eo e')
  then obtain r where "k_Delete api (machine_key keyPrefix m) deleteOptions e = (r, e')"
    by (auto simp: er_RemoveMachineState_def split: prod.splits)
  then show ?case
    by (rule registry_delete[OF RemoveMachineState.prems, of _ _ _ _ "''machines''" "[m, ''object'']"])
      (use RemoveMachineState in \<open>auto simp: key_comps apart_names\<close>)
next
  case (UpdateEngineVersion v v' e eo e')
  then show ?case using Update_quiet by blast
qed

end

section \<open>Unit states\<close>

definition state_key :: "string \<Rightarrow> string \<Rightarrow> string \<Rightarrow> string list" where
  "state_key keyPrefix n m = comps keyPrefix @ [''states'', n, m]"

definition heartbeat_of :: "string \<Rightarrow> store \<Rightarrow> string \<Rightarrow> string option" where
  "heartbeat_of keyPrefix s n = map_option fst (files s (job_key keyPrefix n ''job-state''))"

lemma unmarshal_unitState:
  assumes "unitStateToModel us = Some usm" "ascii (us_LoadState us)" "ascii (us_ActiveState us)" "ascii (us_SubState us)"
    "ascii (us_MachineID us)" "ascii (us_UnitHash us)"
  shows "unmarshal dec_unitStateModel (marshal (enc_unitStateModel usm)) = Some usm"
proof -
  have u: "usm = \<lparr>usm_LoadState = us_LoadState us, usm_ActiveState = us_ActiveState us, usm_SubState = us_SubState us,
         usm_MachineState = (if us_MachineID us \<noteq> [] then Some (zero_machine\<lparr>ms_ID := us_MachineID us\<rparr>) else None),
         usm_UnitHash = us_UnitHash us\<rparr>"
    using assms(1) by (simp add: unitStateToModel_def split: if_splits)
  let ?ms = "[(''loadState'', JStr (usm_LoadState usm)), (''activeState'', JStr (usm_ActiveState usm)),
           (''subState'', JStr (usm_SubState usm)),
           (''machineState'', case usm_MachineState usm of None \<Rightarrow> JNull | Some ms \<Rightarrow> enc_machine ms),
           (''unitHash'', JStr (usm_UnitHash usm))]"
  have "json_ok (JObj ?ms)"
    using assms u by (simp add: enc_machine_def zero_machine_def enc_map_def)
  from unmarshal_marshal[OF this, of dec_unitStateModel] show ?thesis
    using u by (simp add: enc_unitStateModel_def dec_unitStateModel_def dec_machine_pointer_def enc_machine_def dec_machine_def
        zero_machine_def enc_map_def ToLower_def ToLowerByte_def)
qed

context etcd_registry
begin

lemma state_path: "plain n \<Longrightarrow> plain m \<Longrightarrow> comps (unitStatePath keyPrefix m n) = state_key keyPrefix n m"
  by (simp add: key_comps state_key_def)

lemma save_writes:
  assumes "plain n" "plain (us_MachineID us)" "unitStateToModel us = Some usm" "e' = er_SaveUnitState api keyPrefix n us ttl e"
  shows "files (store e') (state_key keyPrefix n (us_MachineID us)) =
      files (store e) (state_key keyPrefix n (us_MachineID us)) \<or>
    (\<exists>i. files (store e') (state_key keyPrefix n (us_MachineID us)) = Some (marshal (enc_unitStateModel usm), i))"
proof -
  let ?v = "marshal (enc_unitStateModel usm)" and ?so = "setOptions\<lparr>so_TTL := ttl\<rparr>"
  let ?k = "state_key keyPrefix n (us_MachineID us)"
  obtain r1 e1 where s1: "k_Set api (legacyUnitStatePath keyPrefix n) ?v ?so e = (r1, e1)" by fastforce
  obtain r2 e2 where s2: "k_Set api (unitStatePath keyPrefix (us_MachineID us) n) ?v ?so e1 = (r2, e2)" by fastforce
  have e': "e' = e2" using assms(3,4) s1 s2 by (simp add: er_SaveUnitState_def Let_def)
  have 1: "files (store e1) ?k = files (store e) ?k"
    by (rule only_atD[OF Set_only_at[OF s1]]) (simp add: key_comps assms state_key_def)
  from s2 show ?thesis
  proof (cases rule: set_outcomes)
    case (written nd)
    then show ?thesis using spec_set_done(1)[OF written(1)] state_path[OF assms(1,2)] e' by simp
  qed (use 1 e' in auto)
qed

lemma get_state:
  assumes "plain n" "plain m" "unitStateToModel us = Some usm" "us_UnitName us = n" "us_MachineID us = m"
    and "ascii (us_LoadState us)" "ascii (us_ActiveState us)" "ascii (us_SubState us)" "ascii m" "ascii (us_UnitHash us)"
    and "files (store e) (state_key keyPrefix n m) = Some (marshal (enc_unitStateModel usm), i)"
    and "reads_answered api store e"
  shows "getUnitState_etcd api keyPrefix n m e = Inr (Some us)"
proof -
  let ?k = "unitStatePath keyPrefix m n"
  have k: "comps ?k = state_key keyPrefix n m" by (rule state_path[OF assms(1,2)])
  obtain nd where nd: "spec_get ?k getOptions (store e) = Inr nd" "nd_Value nd = marshal (enc_unitStateModel usm)"
    using spec_get_file[of "store e" ?k _ i getOptions] assms(11) k by auto
  have "unmarshal dec_unitStateModel (nd_Value nd) = Some usm"
    unfolding nd(2) by (rule unmarshal_unitState[OF assms(3)]) (use assms in simp_all)
  moreover have "modelToUnitState usm n = us"
    using assms(2-5) by (auto simp: unitStateToModel_def modelToUnitState_def zero_machine_def plain_def split: if_splits)
  ultimately show ?thesis using nd(1) assms(12) by (simp add: getUnitState_etcd_def reads_answered_def)
qed

text \<open>What \<open>ScheduledUnit\<close> reports.\<close>

lemma job_dir_reading:
  assumes "tree_ok (es_root s)" "plain n" "lookup (job_dir keyPrefix @ [n]) (es_root s) = Some t"
  shows "dirToTargetMachineID (deep_node False (job_dir keyPrefix @ [n]) t) =
      (case etcd_sched keyPrefix s n of None \<Rightarrow> [] | Some m \<Rightarrow> m)"
    "dirToHeartbeat (deep_node False (job_dir keyPrefix @ [n]) t) = (case heartbeat_of keyPrefix s n of None \<Rightarrow> [] | Some h \<Rightarrow> h)"
proof -
  let ?q = "job_dir keyPrefix @ [n]"
  have tok: "tree_ok t" by (rule lookup_tree_ok[OF assms(1,3)])
  have q: "list_all plain ?q" "?q \<noteq> []" using assms(2) job_dir_plain(1)[OF prefix_rooted] by simp_all
  have fl: "files s (job_key keyPrefix n f) = file_at t [f]" for f
    using file_at_append[of "es_root s" ?q "[f]"] assms(3) by (simp add: files_def job_key_dir)
  have val: "getValueInDir (deep_node False ?q t) f = (case files s (job_key keyPrefix n f) of None \<Rightarrow> [] | Some (v, i) \<Rightarrow> v)"
    if "plain f" "\<not> hidden f" for f
    using getValueInDir_deep[OF tok q that, of False] fl by simp
  show "dirToTargetMachineID (deep_node False ?q t) = (case etcd_sched keyPrefix s n of None \<Rightarrow> [] | Some m \<Rightarrow> m)"
    using val[of "''target''"] assms(2)
    by (simp add: dirToTargetMachineID_def etcd_sched_def plain_def hidden_def HasPrefix_def split: option.split)
  show "dirToHeartbeat (deep_node False ?q t) = (case heartbeat_of keyPrefix s n of None \<Rightarrow> [] | Some h \<Rightarrow> h)"
    using val[of "''job-state''"]
    by (simp add: dirToHeartbeat_def heartbeat_of_def plain_def hidden_def HasPrefix_def split: option.split)
qed

lemma unscheduled_unit_read:
  assumes "tree_ok (es_root (store e))" "plain n" "etcd_sched keyPrefix (store e) n = None" "reads_answered api store e"
  shows "\<exists>so. er_ScheduledUnit api keyPrefix n e = Inr so"
proof -
  let ?k = "prefixed keyPrefix [jobPrefix, n]" and ?opts = "getOptions\<lparr>go_Recursive := True\<rparr>"
  have key: "comps ?k = job_dir keyPrefix @ [n]" using comps_job_paths(5)[OF prefix_rooted assms(2)] by (simp add: job_dir_def)
  show ?thesis
    using assms(3,4) key job_dir_reading(1)[OF assms(1,2)]
    by (cases "lookup (job_dir keyPrefix @ [n]) (es_root (store e))")
      (simp_all add: er_ScheduledUnit_def reads_answered_def spec_get_def node_of_def getOptions_def isEtcdError_def)
qed

lemma scheduled_unit_spec:
  assumes inv: "registry_inv keyPrefix (store e)" and "plain n" "\<And>m. etcd_sched keyPrefix (store e) n = Some m \<Longrightarrow> plain m"
    and "er_ScheduledUnit api keyPrefix n e = Inr so"
  shows "so = (if lookup (job_dir keyPrefix @ [n]) (es_root (store e)) = None then None
    else Some \<lparr>su_Name = n,
      su_State = Some (case etcd_sched keyPrefix (store e) n of
          None \<Rightarrow> JobStateInactive
        | Some m \<Rightarrow> if lookup (state_key keyPrefix n m) (es_root (store e)) = None then JobStateInactive
                    else if heartbeat_of keyPrefix (store e) n = Some m then JobStateLaunched else JobStateLoaded),
      su_TargetMachineID = (case etcd_sched keyPrefix (store e) n of None \<Rightarrow> [] | Some m \<Rightarrow> m)\<rparr>)"
proof -
  let ?q = "job_dir keyPrefix @ [n]" and ?k = "prefixed keyPrefix [jobPrefix, n]" and ?opts = "getOptions\<lparr>go_Recursive := True\<rparr>"
  have key: "comps ?k = ?q" using comps_job_paths(5)[OF prefix_rooted assms(2)] by (simp add: job_dir_def)
  have g: "k_Get api ?k ?opts e = spec_get ?k ?opts (store e)"
    by (rule Get_reply[OF refl]) (use assms(4) in \<open>auto simp: er_ScheduledUnit_def isEtcdError_def\<close>)
  show ?thesis
  proof (cases "lookup ?q (es_root (store e))")
    case None
    then show ?thesis using g key assms(4) by (simp add: spec_get_def er_ScheduledUnit_def isEtcdError_def)
  next
    case (Some t)
    let ?dir = "deep_node False ?q t"
    have res: "k_Get api ?k ?opts e = Inr ?dir" using g key Some by (simp add: spec_get_def node_of_def getOptions_def)
    note tgt = job_dir_reading(1)[OF registry_inv_parts(3)[OF inv] assms(2) Some]
      and hb = job_dir_reading(2)[OF registry_inv_parts(3)[OF inv] assms(2) Some]
    show ?thesis
    proof (cases "etcd_sched keyPrefix (store e) n")
      case None
      then show ?thesis
        using assms(4) res tgt Some by (simp add: er_ScheduledUnit_def determineJobState_def)
    next
      case sm: (Some m)
      have m: "plain m" "m \<noteq> []" using assms(3)[OF sm] by (simp_all add: plain_def)
      let ?sk = "unitStatePath keyPrefix m n"
      have sk: "comps ?sk = state_key keyPrefix n m" by (rule state_path[OF assms(2) m(1)])
      obtain us where us: "getUnitState_etcd api keyPrefix n m e = Inr us"
        using assms(4) res tgt sm m(2) by (cases "getUnitState_etcd api keyPrefix n m e") (simp_all add: er_ScheduledUnit_def)
      have "k_Get api ?sk getOptions e = spec_get ?sk getOptions (store e)"
        by (rule Get_reply[OF refl]) (use us in \<open>auto simp: getUnitState_etcd_def isEtcdError_def\<close>)
      then have "us = None \<longleftrightarrow> lookup (state_key keyPrefix n m) (es_root (store e)) = None"
        using us sk by (auto simp: getUnitState_etcd_def spec_get_def isEtcdError_def split: option.splits)
      then show ?thesis
        using assms(4) res tgt hb sm m us Some
        by (auto simp: er_ScheduledUnit_def determineJobState_def split: option.splits)
    qed
  qed
qed

end

end
