(* ===== verification/Registry_Etcd_Machines.thy ===== *)
theory Registry_Etcd_Machines
  imports Registry_Etcd_Units
begin

text \<open>
  Machines in the registry: what \<open>MachineState\<close> reads from the directory of a machine, how the metadata
  published by the machine and the metadata set by clients come together, and the round trip of a
  machine state through its JSON text.
\<close>

section \<open>Merging metadata\<close>

lemma map_of_mergeMetadata:
  assumes "gmap_ok dyn"
  shows "map_of (mergeMetadata md (Some dyn)) k =
    (case map_of dyn k of None \<Rightarrow> map_of (gput_all fst snd md []) k | Some v \<Rightarrow> if v = [] then None else Some v)"
proof -
  have "distinct (map fst dyn) \<Longrightarrow>
      map_of (fold (\<lambda>(k, v) final. if v = [] then gdel k final else gput k v final) dyn acc) k =
      (case map_of dyn k of None \<Rightarrow> map_of acc k | Some v \<Rightarrow> if v = [] then None else Some v)" for acc :: "(string, string) gmap"
  proof (induction dyn arbitrary: acc)
    case (Cons kv dyn)
    obtain k' v where kv: "kv = (k', v)" by fastforce
    have "map_of dyn k' = None" using Cons.prems kv by (simp add: map_of_eq_None_iff)
    then show ?case using Cons kv by (auto split: option.split)
  qed simp
  then show ?thesis using assms by (simp add: mergeMetadata_def gmap_ok_def)
qed

lemma map_of_gput_all_fst:
  assumes "distinct (map fst xs)"
  shows "map_of (gput_all fst (\<lambda>x. g (snd x)) xs []) k = map_option g (map_of xs k)"
proof (cases "map_of xs k")
  case None
  then have "k \<notin> fst ` set xs" by (simp add: map_of_eq_None_iff)
  from map_of_gput_all_notin[OF this, of "\<lambda>x. g (snd x)" "[]"] None show ?thesis by simp
next
  case (Some v)
  show ?thesis using map_of_gput_all_distinct[OF assms map_of_SomeD[OF Some], of "\<lambda>x. g (snd x)" "[]"] Some by simp
qed

lemma map_of_copy: "gmap_ok m \<Longrightarrow> map_of (gput_all fst snd m []) = map_of m"
  using map_of_gput_all_fst[of m "\<lambda>v. v"] by (simp add: gmap_ok_def fun_eq_iff option.map_ident)

section \<open>The directory of a machine\<close>

definition tree_value :: "etree \<Rightarrow> string" where
  "tree_value t = (case t of File v i ttl \<Rightarrow> v | Dir i ch \<Rightarrow> [])"

definition machine_dir :: "string \<Rightarrow> string \<Rightarrow> string list" where
  "machine_dir keyPrefix m = comps keyPrefix @ [''machines'', m]"

text \<open>What the machine has published, and what clients have set for it.\<close>

definition machine_object :: "string \<Rightarrow> store \<Rightarrow> string \<Rightarrow> MachineState option" where
  "machine_object keyPrefix s m =
     (case lookup (machine_dir keyPrefix m @ [''object'']) (es_root s) of
        None \<Rightarrow> Some zero_machine
      | Some t \<Rightarrow> unmarshal (dec_machine zero_machine) (tree_value t))"

definition dynamic_metadata :: "string \<Rightarrow> store \<Rightarrow> string \<Rightarrow> string \<rightharpoonup> string" where
  "dynamic_metadata keyPrefix s m k =
     (if hidden k then None else map_option tree_value (lookup (machine_dir keyPrefix m @ [''metadata'', k]) (es_root s)))"

definition overridden :: "(string \<rightharpoonup> string) \<Rightarrow> (string \<rightharpoonup> string) \<Rightarrow> string \<rightharpoonup> string" where
  "overridden md dyn k = (case dyn k of None \<Rightarrow> md k | Some v \<Rightarrow> if v = [] then None else Some v)"

lemma last_part: "x \<notin> set b \<Longrightarrow> x \<notin> set d \<Longrightarrow> a @ x # b = c @ x # d \<longleftrightarrow> a = c \<and> b = d"
proof
  assume h: "x \<notin> set b" "x \<notin> set d" "a @ x # b = c @ x # d"
  have "takeWhile (\<lambda>y. y \<noteq> x) (rev (p @ x # q)) = rev q" if "x \<notin> set q" for p q
    using that by (simp add: takeWhile_append)
  from this[OF h(1), of a] this[OF h(2), of c] h(3) have "b = d" by simp
  with h(3) show "a = c \<and> b = d" by simp
qed simp

lemma suffix_child: "plain c \<Longrightarrow> slash \<notin> set f \<Longrightarrow> HasSuffix (abs_path (q @ [c])) (slash # f) \<longleftrightarrow> c = f"
proof -
  assume c: "plain c" and f: "slash \<notin> set f"
  have "abs_path [c] = slash # c" by (simp add: abs_path_def)
  moreover have "slash \<notin> set c" using c by (simp add: plain_def)
  ultimately show ?thesis
    unfolding HasSuffix_def suffix_def abs_path_append by (simp add: last_part f)
qed

definition metadata_of :: "bool \<Rightarrow> string list \<Rightarrow> etree \<Rightarrow> (string, string) gmap" where
  "metadata_of srt q t = gput_all (\<lambda>nd. path_Base (nd_Key nd)) nd_Value (nd_Nodes (deep_node srt q t)) []"

lemma metadata_of:
  assumes "tree_ok t"
  shows "gmap_ok (metadata_of srt q t)"
    "map_of (metadata_of srt q t) k = (if hidden k then None else map_option tree_value (map_of (children t) k))"
proof -
  show "gmap_ok (metadata_of srt q t)" by (simp add: metadata_of_def gmap_ok_gput_all)
  have c: "tree_ok (Dir 0 (children t))" by (rule children_ok[OF assms])
  let ?ls = "listing srt (children t)"
  have ok: "gmap_ok (children t)" using c by (simp add: tree_ok.simps(2))
  have pl: "plain d" "\<not> hidden d" if "(d, t') \<in> set ?ls" for d t' using tree_ok_listing[OF c that] by simp_all
  have "gput_all (\<lambda>nd. path_Base (nd_Key nd)) nd_Value (map (\<lambda>(c, t'). deep_node srt (q @ [c]) t') ls) m =
      gput_all fst (\<lambda>x. tree_value (snd x)) ls m" if "\<forall>(d, t')\<in>set ls. plain d" for ls and m :: "(string, string) gmap"
    using that
    by (induction ls arbitrary: m) (auto simp: deep_node_key path_Base_abs nd_Value_deep tree_value_def)
  then have e: "metadata_of srt q t = gput_all fst (\<lambda>x. tree_value (snd x)) ?ls []"
    using pl by (auto simp: metadata_of_def nd_Nodes_deep)
  have ds: "distinct (map fst ?ls)" by (rule listing_distinct[OF ok])
  have m: "map_of ?ls k = (if hidden k then None else map_of (children t) k)"
    using map_of_listing[OF ok] pl(2) by (cases "map_of ?ls k") (auto dest: map_of_SomeD)
  have "map_of (gput_all fst (\<lambda>x. tree_value (snd x)) ?ls []) k = map_option tree_value (map_of ?ls k)"
    by (rule map_of_gput_all_fst[OF ds])
  with e m show "map_of (metadata_of srt q t) k = (if hidden k then None else map_option tree_value (map_of (children t) k))" by simp
qed

lemma read_objects_step:
  assumes "list_all plain q" "\<forall>(c, t)\<in>set cs. plain c" "distinct (map fst cs)"
  shows "read_objects (map (\<lambda>(c, t). deep_node srt (q @ [c]) t) cs) mach md =
    (case (case map_of cs ''object'' of None \<Rightarrow> Some mach | Some t \<Rightarrow> unmarshal (dec_machine mach) (tree_value t)) of
       None \<Rightarrow> None
     | Some mach' \<Rightarrow>
         Some (mach', case map_of cs ''metadata'' of None \<Rightarrow> md | Some t \<Rightarrow> Some (metadata_of srt (q @ [''metadata'']) t)))"
  using assms
proof (induction cs arbitrary: mach md)
  case (Cons ct cs)
  obtain c t where ct: "ct = (c, t)" by fastforce
  have c: "plain c" "map_of cs c = None" using Cons.prems ct by (simp_all add: map_of_eq_None_iff)
  have "HasSuffix (abs_path (q @ [c])) (slash # ''object'') \<longleftrightarrow> c = ''object''"
    "HasSuffix (abs_path (q @ [c])) (slash # ''metadata'') \<longleftrightarrow> c = ''metadata''"
    using suffix_child[OF c(1)] by simp_all
  then have s: "HasSuffix (nd_Key (deep_node srt (q @ [c]) t)) ''/object'' \<longleftrightarrow> c = ''object''"
    "HasSuffix (nd_Key (deep_node srt (q @ [c]) t)) ''/metadata'' \<longleftrightarrow> c = ''metadata''"
    by (simp_all add: deep_node_key)
  note IH = Cons.IH[OF Cons.prems(1)]
  have IH: "read_objects (map (\<lambda>(c, t). deep_node srt (q @ [c]) t) cs) mach md =
    (case (case map_of cs ''object'' of None \<Rightarrow> Some mach | Some t \<Rightarrow> unmarshal (dec_machine mach) (tree_value t)) of
       None \<Rightarrow> None
     | Some mach' \<Rightarrow>
         Some (mach', case map_of cs ''metadata'' of None \<Rightarrow> md | Some t \<Rightarrow> Some (metadata_of srt (q @ [''metadata'']) t)))" for mach md
    by (rule IH) (use Cons.prems in simp_all)
  have v: "nd_Value (deep_node srt (q @ [c]) t) = tree_value t" by (simp add: nd_Value_deep tree_value_def)
  consider "c = ''object''" | "c = ''metadata''" | "c \<noteq> ''object''" "c \<noteq> ''metadata''" by blast
  then show ?case
  proof cases
    case 1
    then show ?thesis using c(2) unfolding ct list.map(2) prod.case read_objects.simps s IH v by (simp split: option.split)
  next
    case 2
    then show ?thesis using c(2) unfolding ct list.map(2) prod.case read_objects.simps s IH by (simp add: metadata_of_def cong: option.case_cong)
  next
    case 3
    then show ?thesis unfolding ct list.map(2) prod.case read_objects.simps s IH by (simp cong: option.case_cong)
  qed
qed simp

lemma machine_dir_plain: "rooted_path keyPrefix \<Longrightarrow> plain m \<Longrightarrow> list_all plain (machine_dir keyPrefix m)"
  using job_dir_plain(1)[of keyPrefix] by (simp add: machine_dir_def job_dir_def plain_def)

text \<open>The machine state read from a directory: the published one, with its metadata overridden.\<close>

lemma read_machine:
  assumes root: "rooted_path keyPrefix" and ok: "tree_ok (es_root s)" and m: "plain m"
    and t: "lookup (machine_dir keyPrefix m) (es_root s) = Some t"
    and r: "readMachineState (deep_node srt (machine_dir keyPrefix m) t) = r"
  shows "case machine_object keyPrefix s m of
      None \<Rightarrow> r = Inl deserialize_error
    | Some mach \<Rightarrow> \<exists>ms. r = Inr ms \<and> ms = mach\<lparr>ms_Metadata := ms_Metadata ms\<rparr> \<and>
        (gmap_ok (ms_Metadata mach) \<longrightarrow>
         map_of (ms_Metadata ms) = overridden (map_of (ms_Metadata mach)) (dynamic_metadata keyPrefix s m))"
proof -
  let ?q = "machine_dir keyPrefix m"
  have tok: "tree_ok t" by (rule lookup_tree_ok[OF ok t])
  have c: "tree_ok (Dir 0 (children t))" by (rule children_ok[OF tok])
  have cok: "gmap_ok (children t)" using c by (simp add: tree_ok.simps(2))
  have pl: "\<forall>(c, t')\<in>set (listing srt (children t)). plain c" using tree_ok_listing(1)[OF c] by blast
  have at: "map_of (listing srt (children t)) f = lookup (?q @ [f]) (es_root s)" if "\<not> hidden f" for f
    using map_of_listing[OF cok that] t by (simp add: lookup_child)
  have f: "\<not> hidden ''object''" "\<not> hidden ''metadata''" by (simp_all add: hidden_def HasPrefix_def)
  define md where "md = map_option (metadata_of srt (?q @ [''metadata''])) (lookup (?q @ [''metadata'']) (es_root s))"
  have ro: "read_objects (nd_Nodes (deep_node srt ?q t)) zero_machine None =
      map_option (\<lambda>mach. (mach, md)) (machine_object keyPrefix s m)"
    unfolding nd_Nodes_deep read_objects_step[OF machine_dir_plain[OF root m] pl listing_distinct[OF cok]] at[OF f(1)] at[OF f(2)]
    by (simp add: machine_object_def md_def split: option.split)
  have dyn: "overridden (map_of (ms_Metadata mach)) (dynamic_metadata keyPrefix s m) = map_of (mergeMetadata (ms_Metadata mach) md)"
    if g: "gmap_ok (ms_Metadata mach)" for mach
  proof (cases "lookup (?q @ [''metadata'']) (es_root s)")
    case None
    then have "lookup (?q @ [''metadata'', k]) (es_root s) = None" for k
      using lookup_append[of "?q @ [''metadata'']" "[k]"] by simp
    with None show ?thesis by (simp add: fun_eq_iff overridden_def dynamic_metadata_def md_def mergeMetadata_def)
  next
    case (Some mt)
    have mok: "tree_ok mt" by (rule lookup_tree_ok[OF ok Some])
    have "lookup (?q @ [''metadata'', k]) (es_root s) = map_of (children mt) k" for k
      using lookup_child[of "?q @ [''metadata'']" k] Some by simp
    then have "dynamic_metadata keyPrefix s m k = map_of (metadata_of srt (?q @ [''metadata'']) mt) k" for k
      using metadata_of(2)[OF mok] by (simp add: dynamic_metadata_def)
    with Some show ?thesis
      using map_of_mergeMetadata[OF metadata_of(1)[OF mok]] map_of_copy[OF g]
      by (simp add: fun_eq_iff overridden_def md_def cong: option.case_cong)
  qed
  show ?thesis
    using r ro dyn[symmetric] by (auto simp: readMachineState_def split: option.split)
qed

lemma fold_bind_inv:
  assumes "fold (\<lambda>(k, v) acc. Option.bind acc (F k v)) xs (Some a) = Some b" "P a"
    and "\<And>k v a b. F k v a = Some b \<Longrightarrow> P a \<Longrightarrow> P b"
  shows "P b"
  using assms(1,2)
proof (induction xs arbitrary: a)
  case (Cons x xs)
  obtain k v where x: "x = (k, v)" by fastforce
  have none: "fold (\<lambda>(k, v) acc. Option.bind acc (F k v)) xs None = None" for xs by (induction xs) auto
  show ?case
    using Cons x none assms(3) by (cases "F k v a") (auto simp: assms(3))
qed simp

lemma dec_machine_ok:
  assumes "dec_machine zero_machine ms = Some mach"
  shows "gmap_ok (ms_Metadata mach)"
proof -
  have m: "gmap_ok b" if d: "dec_map dec_string [] a v = Some b" "gmap_ok a" for v a b
  proof (cases v)
    case (JObj ms)
    then show ?thesis
      using fold_bind_inv[of "\<lambda>k x m. map_option (\<lambda>y. gput k y m) (dec_string [] x)" ms a b gmap_ok] d
      by (auto simp: dec_map_def)
  qed (use d in \<open>auto simp: dec_map_def\<close>)
  obtain md where md: "decode_field (dec_map dec_string []) ''Metadata'' [] ms = Some md" "ms_Metadata mach = md"
    using assms by (auto simp: dec_machine_def zero_machine_def Option.bind_eq_Some_conv)
  have "gmap_ok md"
    by (rule fold_bind_inv[OF md(1)[unfolded decode_field_def]]) (use m in \<open>auto split: if_splits\<close>)
  with md(2) show ?thesis by simp
qed

lemma machine_object_ok: "machine_object keyPrefix s m = Some mach \<Longrightarrow> gmap_ok (ms_Metadata mach)"
  by (auto simp: machine_object_def unmarshal_def Option.bind_eq_Some_conv zero_machine_def split: option.splits
      dest: dec_machine_ok[unfolded zero_machine_def])

section \<open>Machine states through JSON\<close>

definition machine_ok :: "MachineState \<Rightarrow> bool" where
  "machine_ok ms \<longleftrightarrow> plain (ms_ID ms) \<and> ascii (ms_ID ms) \<and> ascii (ms_PublicIP ms) \<and> ascii (ms_Version ms) \<and>
     (\<forall>k v. map_of (ms_Metadata ms) k = Some v \<longrightarrow> ascii k \<and> ascii v) \<and>
     (\<forall>k v. map_of (ms_Capabilities ms) k = Some v \<longrightarrow> ascii k)"

definition same_machine :: "MachineState \<Rightarrow> MachineState \<Rightarrow> bool" where
  "same_machine ms ms' \<longleftrightarrow> ms_ID ms' = ms_ID ms \<and> ms_PublicIP ms' = ms_PublicIP ms \<and> ms_Version ms' = ms_Version ms \<and>
     map_of (ms_Capabilities ms') = map_of (ms_Capabilities ms)"

lemma unmarshal_machine:
  assumes "machine_ok ms"
  shows "\<exists>ms'. unmarshal (dec_machine zero_machine) (marshal (enc_machine ms)) = Some ms' \<and> same_machine ms ms' \<and>
    map_of (ms_Metadata ms') = map_of (ms_Metadata ms)"
proof -
  let ?ms = "[(''ID'', JStr (ms_ID ms)), (''PublicIP'', JStr (ms_PublicIP ms)), (''Metadata'', enc_map JStr (ms_Metadata ms)),
           (''Capabilities'', enc_map JBool (ms_Capabilities ms)), (''Version'', JStr (ms_Version ms))]"
  have "json_ok (enc_map JStr (ms_Metadata ms))" "json_ok (enc_map JBool (ms_Capabilities ms))"
    by (rule enc_map_ok, use assms in \<open>auto simp: machine_ok_def\<close>)+
  then have "json_ok (JObj ?ms)" using assms by (simp add: machine_ok_def)
  note u = unmarshal_marshal[OF this, of "dec_machine zero_machine"]
  obtain md where md: "dec_map dec_string [] [] (enc_map JStr (ms_Metadata ms)) = Some md" "map_of md = map_of (ms_Metadata ms)"
    using dec_enc_map[of "ms_Metadata ms" dec_string JStr "[]"] by (auto simp: dec_string_def)
  obtain c where c: "dec_map dec_bool False [] (enc_map JBool (ms_Capabilities ms)) = Some c" "map_of c = map_of (ms_Capabilities ms)"
    using dec_enc_map[of "ms_Capabilities ms" dec_bool JBool False] by (auto simp: dec_bool_def)
  show ?thesis
    using u md c by (simp add: enc_machine_def dec_machine_def zero_machine_def same_machine_def ToLower_def ToLowerByte_def)
qed

context etcd_registry
begin

lemma machine_path: "plain m \<Longrightarrow> comps (path_Join [keyPrefix, machinePrefix, m]) = machine_dir keyPrefix m"
  using comps_path_Join[of "[keyPrefix, machinePrefix, m]"] prefix_no_dots[OF prefix_rooted] by (auto simp: machine_dir_def)

lemma machine_state:
  assumes "tree_ok (es_root (store e))" "plain m" "reads_answered api store e"
  shows "case (lookup (machine_dir keyPrefix m) (es_root (store e)), machine_object keyPrefix (store e) m) of
      (None, _) \<Rightarrow> er_MachineState api keyPrefix m e = Inl (EtcdError ErrorCodeKeyNotFound)
    | (Some t, None) \<Rightarrow> er_MachineState api keyPrefix m e = Inl deserialize_error
    | (Some t, Some mach) \<Rightarrow> \<exists>ms. er_MachineState api keyPrefix m e = Inr ms \<and> ms = mach\<lparr>ms_Metadata := ms_Metadata ms\<rparr> \<and>
       map_of (ms_Metadata ms) = overridden (map_of (ms_Metadata mach)) (dynamic_metadata keyPrefix (store e) m)"
proof (cases "lookup (machine_dir keyPrefix m) (es_root (store e))")
  case None
  then show ?thesis using assms(3) machine_path[OF assms(2)] by (simp add: er_MachineState_def spec_get_def reads_answered_def)
next
  case (Some t)
  then have "readMachineState (deep_node True (machine_dir keyPrefix m) t) = er_MachineState api keyPrefix m e"
    using assms(3) machine_path[OF assms(2)] by (simp add: er_MachineState_def spec_get_def node_of_def reads_answered_def)
  from read_machine[OF prefix_rooted assms(1,2) Some this] show ?thesis
    using machine_object_ok[of keyPrefix "store e" m] Some by (auto split: option.splits)
qed

lemma metadata_set:
  assumes inv: "registry_inv keyPrefix (store e)" and m: "plain m" and k: "plain k" "\<not> hidden k"
    and set: "er_SetMachineMetadata api keyPrefix m k v e = (None, e')"
    and r: "reads_answered api store e" "er_MachineState api keyPrefix m e = Inr ms" "reads_answered api store e'"
  shows "\<exists>ms'. er_MachineState api keyPrefix m e' = Inr ms' \<and> ms' = ms\<lparr>ms_Metadata := ms_Metadata ms'\<rparr> \<and>
    map_of (ms_Metadata ms') = (map_of (ms_Metadata ms))(k := if v = [] then None else Some v)"
proof -
  let ?p = "machine_dir keyPrefix m @ [''metadata'', k]"
  have c: "comps (path_Join [keyPrefix, machinePrefix, m, ''metadata'', k]) = ?p"
    using key_comps(5)[OF m k(1)] by (simp add: machine_dir_def)
  obtain nd where nd: "k_Set api (path_Join [keyPrefix, machinePrefix, m, ''metadata'', k]) v setOptions e = (Inr nd, e')"
    using set by (auto simp: er_SetMachineMetadata_def error_of_def split: prod.splits sum.splits)
  have "spec_set (path_Join [keyPrefix, machinePrefix, m, ''metadata'', k]) v setOptions (store e) = (Inr nd, store e')"
    using nd by (cases rule: set_outcomes) auto
  then obtain ttl where put: "put (es_index (store e')) ?p (File v (es_index (store e')) ttl) (es_root (store e)) = Some (es_root (store e'))"
    by (cases rule: spec_set_cases) (auto simp: c)
  note other = lookup_put_other[OF put]
  have obj: "machine_object keyPrefix (store e') m = machine_object keyPrefix (store e) m"
    using other[of "machine_dir keyPrefix m @ [''object'']"] by (simp add: machine_object_def)
  have dyn: "dynamic_metadata keyPrefix (store e') m = (dynamic_metadata keyPrefix (store e) m)(k \<mapsto> v)"
  proof
    fix d
    show "dynamic_metadata keyPrefix (store e') m d = ((dynamic_metadata keyPrefix (store e) m)(k \<mapsto> v)) d"
      using other[of "machine_dir keyPrefix m @ [''metadata'', d]"] put_lookup[OF put] k(2)
      by (cases "d = k") (simp_all add: dynamic_metadata_def tree_value_def)
  qed
  have ok': "tree_ok (es_root (store e'))"
    using put_tree_ok[OF put registry_inv_parts(3)[OF inv]] machine_dir_plain[OF prefix_rooted m] k(1) by (simp add: plain_def)
  have present: "lookup (machine_dir keyPrefix m) (es_root (store e')) \<noteq> None"
    using put_lookup[OF put] by (auto simp: lookup_append split: option.splits)
  from machine_state[OF registry_inv_parts(3)[OF inv] m r(1)] r(2) obtain mach where
    mach: "machine_object keyPrefix (store e) m = Some mach" "ms = mach\<lparr>ms_Metadata := ms_Metadata ms\<rparr>"
    "map_of (ms_Metadata ms) = overridden (map_of (ms_Metadata mach)) (dynamic_metadata keyPrefix (store e) m)"
    by (auto split: option.splits)
  from machine_state[OF ok' m r(3)] obtain ms' where
    ms': "er_MachineState api keyPrefix m e' = Inr ms'" "ms' = mach\<lparr>ms_Metadata := ms_Metadata ms'\<rparr>"
    "map_of (ms_Metadata ms') = overridden (map_of (ms_Metadata mach)) (dynamic_metadata keyPrefix (store e') m)"
    using present obj mach(1) by auto
  have "ms' = ms\<lparr>ms_Metadata := ms_Metadata ms'\<rparr>"
    by (subst mach(2), subst ms'(2)) simp
  moreover have "map_of (ms_Metadata ms') = (map_of (ms_Metadata ms))(k := if v = [] then None else Some v)"
    using ms'(3) mach(3) dyn by (simp add: fun_eq_iff overridden_def)
  ultimately show ?thesis using ms'(1) by blast
qed

lemma Set_lookup_other:
  assumes "k_Set api k v so e = (r, e')" "\<not> prefix (comps k) q" "\<not> prefix q (comps k)"
  shows "lookup q (es_root (store e')) = lookup q (es_root (store e))"
  using assms(1)
proof (cases rule: set_outcomes)
  case (written nd)
  then show ?thesis by (auto elim: spec_set_cases dest: lookup_put_other[OF _ assms(2,3)])
qed simp_all

lemma Set_done_lookup:
  assumes "k_Set api k v so e = (Inr nd, e')"
  shows "\<exists>i ttl. lookup (comps k) (es_root (store e')) = Some (File v i ttl)"
  using assms
proof (cases rule: set_outcomes)
  case (written nd)
  have "files (store e') (comps k) = Some (v, es_index (store e'))" using spec_set_done(1)[OF written(1)] by simp
  then show ?thesis unfolding files_lookup by blast
qed simp_all

lemma machine_set_read:
  assumes inv: "registry_inv keyPrefix (store e)" and ok: "machine_ok ms"
    and set: "er_SetMachineState api keyPrefix ms ttl e = (Inr i, e')"
    and ans: "reads_answered api store e'"
  shows "\<exists>ms'. er_MachineState api keyPrefix (ms_ID ms) e' = Inr ms' \<and> same_machine ms ms' \<and>
    map_of (ms_Metadata ms') = overridden (map_of (ms_Metadata ms)) (dynamic_metadata keyPrefix (store e) (ms_ID ms))"
proof -
  let ?m = "ms_ID ms" and ?k = "machine_key keyPrefix (ms_ID ms)" and ?v = "marshal (enc_machine ms)"
  let ?p = "machine_dir keyPrefix ?m @ [''object'']"
  have m: "plain ?m" using ok by (simp add: machine_ok_def)
  have c: "comps ?k = ?p" using key_comps(3)[OF m] by (simp add: machine_dir_def)
  obtain r1 e1 where s1: "k_Set api ?k ?v (setOptions\<lparr>so_PrevExist := PrevExist, so_TTL := ttl\<rparr>) e = (r1, e1)" by fastforce
  obtain r2 e2 where s2: "k_Set api ?k ?v (setOptions\<lparr>so_PrevExist := PrevNoExist, so_TTL := ttl\<rparr>) e1 = (r2, e2)" by fastforce
  have cases: "(\<exists>nd. r1 = Inr nd) \<and> e' = e1 \<or> (\<exists>nd. r2 = Inr nd) \<and> e' = e2"
    using set s1 s2 by (auto simp: er_SetMachineState_def index_of_def Let_def split: sum.splits)
  obtain j t where obj: "lookup ?p (es_root (store e')) = Some (File ?v j t)"
    using cases Set_done_lookup[of ?k] s1 s2 c by metis
  have "\<not> prefix ?p (machine_dir keyPrefix ?m @ [''metadata'', d])" "\<not> prefix (machine_dir keyPrefix ?m @ [''metadata'', d]) ?p" for d
    by simp_all
  then have "lookup (machine_dir keyPrefix ?m @ [''metadata'', d]) (es_root (store e')) =
      lookup (machine_dir keyPrefix ?m @ [''metadata'', d]) (es_root (store e))" for d
    using cases Set_lookup_other[OF s1] Set_lookup_other[OF s2] c by metis
  then have dyn: "dynamic_metadata keyPrefix (store e') ?m = dynamic_metadata keyPrefix (store e) ?m"
    by (simp add: fun_eq_iff dynamic_metadata_def)
  obtain mach where mach: "machine_object keyPrefix (store e') ?m = Some mach" "same_machine ms mach"
    "map_of (ms_Metadata mach) = map_of (ms_Metadata ms)"
    using unmarshal_machine[OF ok] obj by (auto simp: machine_object_def tree_value_def)
  have ok': "tree_ok (es_root (store e'))"
    using set_machine_quiet[OF inv m set] by (auto simp: quiet_def dest: registry_inv_parts(3))
  have "lookup (machine_dir keyPrefix ?m) (es_root (store e')) \<noteq> None" using obj by (auto simp: lookup_child split: option.splits)
  with machine_state[OF ok' m ans] mach(1) obtain ms' where
    ms': "er_MachineState api keyPrefix ?m e' = Inr ms'" "ms' = mach\<lparr>ms_Metadata := ms_Metadata ms'\<rparr>"
    "map_of (ms_Metadata ms') = overridden (map_of (ms_Metadata mach)) (dynamic_metadata keyPrefix (store e') ?m)" by auto
  have "same_machine ms ms'" using mach(2) by (subst ms'(2)) (simp add: same_machine_def)
  with ms' mach(3) dyn show ?thesis by auto
qed

end

end
