(* ===== verification/Registry_Examples.thy ===== *)
theory Registry_Examples
  imports Registry_Etcd_Machines Cluster_Examples
begin

text \<open>
  Concrete registries in etcd on which the properties of the registry and of the HTTP interface are
  instantiated: a unit that has just been created in an empty store.
\<close>

lemma etcd_registry_intro: "etcd api store \<Longrightarrow> rooted_path keyPrefix \<Longrightarrow> etcd_registry api store keyPrefix"
  by (simp add: etcd_registry_def etcd_leases_def etcd_leases_axioms_def)

definition ex_new_unit :: "string \<Rightarrow> Unit" where
  "ex_new_unit n = \<lparr>u_Name = n, u_Unit = NewUnitFromOptions [ex_option ''Conflicts'' ''db*''], u_TargetState = JobStateLaunched\<rparr>"

definition ex_created :: "string \<Rightarrow> store" where
  "ex_created n = \<lparr>es_root = Dir 0 [(''_coreos.com'', Dir 1 [(''fleet'', Dir 1
     [(''unit'', Dir 1 [(Hash_String (uf_Hash (u_Unit (ex_new_unit n))), File (unit_text (u_Unit (ex_new_unit n))) 1 0)]),
      (''job'', Dir 2 [(n, Dir 2
        [(''object'', File (marshal (enc_jobModel \<lparr>jm_Name = n, jm_UnitHash = uf_Hash (u_Unit (ex_new_unit n))\<rparr>)) 2 0),
         (''target-state'', File ''launched'' 3 0)])])])])],
     es_index = 3\<rparr>"

lemma ex_local: "etcd_registry local_etcd (\<lambda>s. s) DefaultKeyPrefix"
  by (rule etcd_registry_intro[OF local_etcd_contract ex_prefix_rooted])

lemma ex_create:
  assumes "plain n"
  shows "er_CreateUnit local_etcd DefaultKeyPrefix (ex_new_unit n) ex_store0 = (None, ex_created n)"
proof -
  have p: "comps DefaultKeyPrefix = [''_coreos.com'', ''fleet'']" by code_simp
  let ?h = "uf_Hash (u_Unit (ex_new_unit n))"
  have k: "comps (hashedUnitPath DefaultKeyPrefix ?h) = [''_coreos.com'', ''fleet'', ''unit'', Hash_String ?h]"
    using etcd_registry.hashedUnitPath_key[OF ex_local, of ?h] p by (simp add: unit_key_def)
  note j = comps_job_paths[OF ex_prefix_rooted assms, unfolded job_key_def p, simplified]
  show ?thesis
    using k j
    by (simp add: er_CreateUnit_def storeOrGetUnitFile_def er_SetUnitTargetState_def error_of_def local_etcd_def spec_set_def
        ex_store0_def Let_def setOptions_def compare_prev_def ex_created_def ex_new_unit_def JobStateLaunched_def unit_text_def
        gput_def ttl_seconds_def)
qed

lemma ex_new_unit_storable:
  assumes "plain n" "ascii n"
  shows "storable (ex_new_unit n)" "hash_slot_ok DefaultKeyPrefix ex_store0 (u_Unit (ex_new_unit n))"
proof -
  have "ascii (uf_String (NewUnitFromOptions [ex_option ''Conflicts'' ''db*'']))"
    "list_all option_ok (uf_Options (NewUnitFromOptions [ex_option ''Conflicts'' ''db*'']))"
    "grouped (uf_Options (NewUnitFromOptions [ex_option ''Conflicts'' ''db*'']))"
    by code_simp+
  moreover have "uf_Options (NewUnitFromOptions opts) = opts" for opts by (simp add: NewUnitFromOptions_def)
  ultimately show "storable (ex_new_unit n)" using assms by (simp add: storable_def ex_new_unit_def)
  show "hash_slot_ok DefaultKeyPrefix ex_store0 (u_Unit (ex_new_unit n))"
    by (cases "comps DefaultKeyPrefix") (simp_all add: hash_slot_ok_def unit_key_def ex_store0_def)
qed

lemma local_answers: "reads_answered local_etcd (\<lambda>s. s) s"
  by (simp add: reads_answered_def local_etcd_def)

lemma ex_web: "plain ''web.service''" "plain ''m1''"
  by (simp_all add: plain_def)

end
