(* ===== verification/Props_Registry.thy ===== *)
theory Props_Registry
  imports Registry_Examples
begin

text \<open>
  The properties of the registry in etcd: what is written is read back, what its calls preserve, and
  what it reports about units and machines. The etcd client is any that meets the contract \<open>etcd\<close>.
\<close>

section \<open>A unit that is created\<close>

text \<open>
  C6. A unit that was created is read back exactly as it was: its name, its unit file with all options
  in their order, and its target state survive the way through the unit file's text, JSON and the keys
  of etcd. The options must be such that a unit file can hold them, grouped by section, and no other
  unit file may be stored under the same SHA-1 hash.
\<close>

theorem unit_create_roundtrip:
  assumes "etcd api store" "rooted_path keyPrefix" "registry_inv keyPrefix (store e)"
    and "storable u" "hash_slot_ok keyPrefix (store e) (u_Unit u)"
    and "er_CreateUnit api keyPrefix u e = (None, e')" "reads_answered api store e'"
  shows "er_Unit api keyPrefix (u_Name u) e' = Inr (Some u)"
  by (rule etcd_registry.create_then_read[OF etcd_registry_intro[OF assms(1,2)] assms(3-7)])

theorem unit_create_roundtrip_witness:
  "er_Unit local_etcd DefaultKeyPrefix ''web.service'' (ex_created ''web.service'') = Inr (Some (ex_new_unit ''web.service''))"
proof -
  have n: "plain ''web.service''" "ascii ''web.service''" by (simp add: plain_def, code_simp)
  show ?thesis
    using unit_create_roundtrip[OF local_etcd_contract ex_prefix_rooted ex_store0_inv ex_new_unit_storable[OF n]
        ex_create[OF n(1)] local_answers] by (simp add: ex_new_unit_def)
qed

text \<open>
  C33. A unit whose name starts with an underscore can be created and read, but etcd hides its
  directory from listings: neither the list of units nor the schedule has it, so that no engine
  ever schedules it and no client sees it.
\<close>

theorem hidden_unit_unlisted:
  assumes "etcd api store" "rooted_path keyPrefix" "registry_inv keyPrefix (store e)"
    and "storable u" "hidden (u_Name u)" "hash_slot_ok keyPrefix (store e) (u_Unit u)"
    and "er_CreateUnit api keyPrefix u e = (None, e')" "reads_answered api store e'"
  shows "er_Unit api keyPrefix (u_Name u) e' = Inr (Some u) \<and>
    (\<forall>us. er_Units api keyPrefix e' = Inr us \<longrightarrow> u_Name u \<notin> u_Name ` set us) \<and>
    (\<forall>sus. er_Schedule api keyPrefix e' = Inr sus \<longrightarrow> u_Name u \<notin> su_Name ` set sus)"
proof -
  note loc = etcd_registry_intro[OF assms(1,2)]
  have "plain (u_Name u)" "ascii (u_Name u)" using assms(4) by (simp_all add: storable_def)
  from etcd_registry.create_quiet[OF loc assms(3) this assms(7)] have inv: "registry_inv keyPrefix (store e')"
    by (simp add: etcd_registry.quiet_def[OF loc])
  have h: "\<not> job_listed keyPrefix (store e') (u_Name u)" using assms(5) by (simp add: job_listed_def)
  have "u_Name u \<notin> u_Name ` set us" if "er_Units api keyPrefix e' = Inr us" for us
    using etcd_registry.er_Units_names[OF loc inv that] h by force
  moreover have "u_Name u \<notin> su_Name ` set sus" if "er_Schedule api keyPrefix e' = Inr sus" for sus
    using etcd_registry.er_Schedule_list[OF loc inv that] h by simp
  ultimately show ?thesis
    using etcd_registry.create_then_read[OF loc assms(3,4,6-8)] by blast
qed

theorem hidden_unit_unlisted_witness:
  "er_Unit local_etcd DefaultKeyPrefix ''_x.service'' (ex_created ''_x.service'') = Inr (Some (ex_new_unit ''_x.service''))"
proof -
  have n: "plain ''_x.service''" "ascii ''_x.service''" by (simp add: plain_def, code_simp)
  have h: "hidden (u_Name (ex_new_unit ''_x.service''))" by (simp add: hidden_def HasPrefix_def ex_new_unit_def)
  show ?thesis
    using hidden_unit_unlisted[OF local_etcd_contract ex_prefix_rooted ex_store0_inv ex_new_unit_storable(1)[OF n] h
        ex_new_unit_storable(2)[OF n] ex_create[OF n(1)] local_answers] by (simp add: ex_new_unit_def)
qed

section \<open>What the calls preserve\<close>



section \<open>The states of units\<close>

definition ex_published :: UnitState where
  "ex_published = \<lparr>us_LoadState = ''loaded'', us_ActiveState = ''active'', us_SubState = ''running'', us_MachineID = ''m1'',
     us_UnitHash = ex_hash_text, us_UnitName = ''web.service''\<rparr>"

definition ex_running :: store where
  "ex_running = er_SaveUnitState local_etcd DefaultKeyPrefix ''web.service'' ex_published 0
     (snd (er_UnitHeartbeat local_etcd DefaultKeyPrefix ''web.service'' ''m1'' 0
       (snd (er_ScheduleUnit local_etcd DefaultKeyPrefix ''web.service'' ''m1'' ex_waiting))))"

lemma ex_running_inv: "registry_inv DefaultKeyPrefix ex_running"
proof -
  note q = etcd_registry.call_quiet[OF ex_local] and d = etcd_registry.quiet_def[OF ex_local]
  let ?s1 = "snd (er_ScheduleUnit local_etcd DefaultKeyPrefix ''web.service'' ''m1'' ex_waiting)"
  let ?s2 = "snd (er_UnitHeartbeat local_etcd DefaultKeyPrefix ''web.service'' ''m1'' 0 ?s1)"
  have "registry_inv DefaultKeyPrefix ?s1"
    using q[OF registry_call.ScheduleUnit[OF ex_web(1) _ surjective_pairing, of "''m1''"] ex_waiting_inv] by (simp add: d)
  then have "registry_inv DefaultKeyPrefix ?s2"
    using q[OF registry_call.UnitHeartbeat[OF ex_web(1) surjective_pairing]] by (simp add: d)
  then show ?thesis
    unfolding ex_running_def
    using q[OF registry_call.SaveUnitState[OF ex_web(1), of ex_published]] ex_web(2) by (simp add: d ex_published_def)
qed

text \<open>
  C18. What \<open>ScheduledUnit\<close> reports: nothing for a unit without a directory; otherwise the target machine
  the schedule has, and the state of the unit: inactive without a target or when the target machine
  has published no state, launched when the heartbeat of the unit names the target machine, and
  loaded otherwise.
\<close>

theorem scheduled_unit_state:
  assumes "etcd api store" "rooted_path keyPrefix" "registry_inv keyPrefix (store e)" "plain n"
    and "\<And>m. etcd_sched keyPrefix (store e) n = Some m \<Longrightarrow> plain m"
    and "er_ScheduledUnit api keyPrefix n e = Inr so"
  shows "so = (if lookup (job_dir keyPrefix @ [n]) (es_root (store e)) = None then None
    else Some \<lparr>su_Name = n,
      su_State = Some (case etcd_sched keyPrefix (store e) n of
          None \<Rightarrow> JobStateInactive
        | Some m \<Rightarrow> if lookup (state_key keyPrefix n m) (es_root (store e)) = None then JobStateInactive
                    else if heartbeat_of keyPrefix (store e) n = Some m then JobStateLaunched else JobStateLoaded),
      su_TargetMachineID = (case etcd_sched keyPrefix (store e) n of None \<Rightarrow> [] | Some m \<Rightarrow> m)\<rparr>)"
  by (rule etcd_registry.scheduled_unit_spec[OF etcd_registry_intro[OF assms(1,2)] assms(3-6)])

theorem scheduled_unit_state_witness:
  "\<exists>su. er_ScheduledUnit local_etcd DefaultKeyPrefix ''web.service'' ex_running = Inr (Some su) \<and>
     su_State su = Some JobStateLaunched \<and> su_TargetMachineID su = ''m1''"
proof -
  have s: "etcd_sched DefaultKeyPrefix ex_running ''web.service'' = Some ''m1''" by code_simp
  have f: "lookup (job_dir DefaultKeyPrefix @ [''web.service'']) (es_root ex_running) \<noteq> None"
    "lookup (state_key DefaultKeyPrefix ''web.service'' ''m1'') (es_root ex_running) \<noteq> None"
    "heartbeat_of DefaultKeyPrefix ex_running ''web.service'' = Some ''m1''" by code_simp+
  have "\<not> isl (er_ScheduledUnit local_etcd DefaultKeyPrefix ''web.service'' ex_running)" by code_simp
  then obtain so where so: "er_ScheduledUnit local_etcd DefaultKeyPrefix ''web.service'' ex_running = Inr so"
    by (cases "er_ScheduledUnit local_etcd DefaultKeyPrefix ''web.service'' ex_running") auto
  show ?thesis
    using scheduled_unit_state[OF local_etcd_contract ex_prefix_rooted ex_running_inv ex_web(1) _ so] s f so ex_web(2) by auto
qed



section \<open>Machines\<close>



text \<open>
  C21. A machine state that was written is read back: the name, the address, the version and the
  capabilities of the machine as they were, and its metadata with those overridden that clients had
  set for it before, whether or not the machine was known to the registry.
\<close>

theorem machine_state_roundtrip:
  assumes "etcd api store" "rooted_path keyPrefix" "registry_inv keyPrefix (store e)" "machine_ok ms"
    and "er_SetMachineState api keyPrefix ms ttl e = (Inr i, e')" "reads_answered api store e'"
  shows "\<exists>ms'. er_MachineState api keyPrefix (ms_ID ms) e' = Inr ms' \<and> same_machine ms ms' \<and>
    map_of (ms_Metadata ms') = overridden (map_of (ms_Metadata ms)) (dynamic_metadata keyPrefix (store e) (ms_ID ms))"
  by (rule etcd_registry.machine_set_read[OF etcd_registry_intro[OF assms(1,2)] assms(3-6)])

definition ex_machine :: MachineState where
  "ex_machine = \<lparr>ms_ID = ''m3'', ms_PublicIP = ''10.0.0.3'', ms_Metadata = [(''zone'', ''a'')], ms_Capabilities = [(''GRPC'', True)],
     ms_Version = ''1.0.0''\<rparr>"

theorem machine_state_roundtrip_witness:
  "\<exists>ms'. er_MachineState local_etcd DefaultKeyPrefix ''m3''
      (snd (er_SetMachineState local_etcd DefaultKeyPrefix ex_machine 30000000000 ex_waiting)) = Inr ms' \<and>
     ms_PublicIP ms' = ''10.0.0.3'' \<and> map_of (ms_Metadata ms') ''zone'' = Some ''a''"
proof -
  let ?r = "er_SetMachineState local_etcd DefaultKeyPrefix ex_machine 30000000000 ex_waiting"
  have "\<not> isl (fst ?r)" by code_simp
  then have w: "?r = (Inr (projr (fst ?r)), snd ?r)" by (metis prod.collapse sum.collapse(2))
  have "ascii ''m3''" "ascii ''10.0.0.3''" "ascii ''1.0.0''" "ascii ''zone''" "ascii ''a''" "ascii ''GRPC''" by code_simp+
  then have ok: "machine_ok ex_machine" by (simp add: machine_ok_def ex_machine_def plain_def)
  have d: "dynamic_metadata DefaultKeyPrefix ex_waiting ''m3'' ''zone'' = None" by code_simp
  show ?thesis
    using machine_state_roundtrip[OF local_etcd_contract ex_prefix_rooted ex_waiting_inv ok w local_answers] d
    by (auto simp: same_machine_def overridden_def ex_machine_def)
qed

section \<open>Unit files\<close>

text \<open>
  C14. The text of a unit file is parsed back to the same options, grouped by section in the order in
  which the sections first appear. Parsing never changes what the file is: it has the same text and
  the same hash again, so that a unit read from the registry matches the one submitted. The options
  must be such that a line of a unit file can hold them.
\<close>

theorem unit_file_roundtrip:
  assumes "list_all option_ok opts"
  shows "\<exists>u. NewUnitFile (uf_String (NewUnitFromOptions opts)) = Inr u \<and> uf_Options u = by_section opts \<and>
    uf_String u = uf_String (NewUnitFromOptions opts) \<and> MatchUnitFiles u (NewUnitFromOptions opts)"
  using Deserialize_Serialize[OF assms] Serialize_by_section[of opts]
  by (simp add: NewUnitFile_def uf_String_def NewUnitFromOptions_def MatchUnitFiles_def uf_Hash_def uf_Bytes_def)

definition ex_interleaved :: "UnitOption list" where
  "ex_interleaved =
     [\<lparr>uo_Section = ''Service'', uo_Name = ''ExecStart'', uo_Value = ''/bin/a''\<rparr>,
      \<lparr>uo_Section = ''X-Fleet'', uo_Name = ''Global'', uo_Value = ''true''\<rparr>,
      \<lparr>uo_Section = ''Service'', uo_Name = ''User'', uo_Value = ''core''\<rparr>]"

theorem unit_file_roundtrip_witness:
  "\<exists>u. NewUnitFile (uf_String (NewUnitFromOptions ex_interleaved)) = Inr u \<and>
     map uo_Name (uf_Options u) = [''ExecStart'', ''User'', ''Global'']"
proof -
  have "list_all option_ok ex_interleaved" "map uo_Name (by_section ex_interleaved) = [''ExecStart'', ''User'', ''Global'']"
    by code_simp+
  with unit_file_roundtrip[of ex_interleaved] show ?thesis by auto
qed

end
