(* ===== verification/Schema.thy ===== *)
theory Schema
  imports Registry_Interface Go_Json
begin

text \<open>
  The entities of the HTTP interface (\<open>schema/v1-gen.go\<close>), their mapping to units, unit states and
  machine states (\<open>schema/mapper.go\<close>), and the client that serves them from a registry
  (\<open>client/api.go\<close>, \<open>client/registry.go\<close>). A slice of pointers may hold nil pointers; following one is
  a panic, which is a value here.
\<close>

datatype 'a call = Panics | Returns 'a

section \<open>Entities\<close>

record schemaUnitOption =
  so_Name :: string
  so_Section :: string
  so_Value :: string

record schemaUnit =
  sc_CurrentState :: string
  sc_DesiredState :: string
  sc_MachineID :: string
  sc_Name :: string
  sc_Options :: "schemaUnitOption option list"

record schemaUnitState =
  ss_Hash :: string
  ss_MachineID :: string
  ss_Name :: string
  ss_SystemdActiveState :: string
  ss_SystemdLoadState :: string
  ss_SystemdSubState :: string

record schemaMachine =
  sm_Id :: string
  sm_Metadata :: "(string, string) gmap"
  sm_PrimaryIP :: string

section \<open>Mapping\<close>

definition MapUnitFileToSchemaUnitOptions :: "UnitFile \<Rightarrow> schemaUnitOption option list" where
  "MapUnitFileToSchemaUnitOptions uf =
     map (\<lambda>opt. Some \<lparr>so_Name = uo_Name opt, so_Section = uo_Section opt, so_Value = uo_Value opt\<rparr>) (uf_Options uf)"

definition unit_option :: "schemaUnitOption \<Rightarrow> UnitOption" where
  "unit_option sopt = \<lparr>uo_Section = so_Section sopt, uo_Name = so_Name sopt, uo_Value = so_Value sopt\<rparr>"

definition MapSchemaUnitOptionsToUnitFile :: "schemaUnitOption option list \<Rightarrow> UnitFile call" where
  "MapSchemaUnitOptionsToUnitFile sopts =
     (if None \<in> set sopts then Panics
      else Returns (NewUnitFromOptions (map (\<lambda>sopt. unit_option (the sopt)) sopts)))"

definition MapSchemaUnitToUnit :: "schemaUnit \<Rightarrow> Unit call" where
  "MapSchemaUnitToUnit entity =
     (case MapSchemaUnitOptionsToUnitFile (sc_Options entity) of
        Panics \<Rightarrow> Panics
      | Returns uf \<Rightarrow> Returns \<lparr>u_Name = sc_Name entity, u_Unit = uf, u_TargetState = []\<rparr>)"

definition MapUnitToSchemaUnit :: "Unit \<Rightarrow> ScheduledUnit option \<Rightarrow> schemaUnit" where
  "MapUnitToSchemaUnit u su =
     \<lparr>sc_CurrentState = (case su of None \<Rightarrow> [] | Some s \<Rightarrow> (case su_State s of None \<Rightarrow> [] | Some st \<Rightarrow> st)),
      sc_DesiredState = u_TargetState u,
      sc_MachineID = (case su of None \<Rightarrow> [] | Some s \<Rightarrow> su_TargetMachineID s),
      sc_Name = u_Name u,
      sc_Options = MapUnitFileToSchemaUnitOptions (u_Unit u)\<rparr>"

fun MapSchemaUnitsToUnits :: "schemaUnit list \<Rightarrow> Unit list call" where
  "MapSchemaUnitsToUnits [] = Returns []"
| "MapSchemaUnitsToUnits (entity # entities) =
     (case MapSchemaUnitToUnit entity of
        Panics \<Rightarrow> Panics
      | Returns u \<Rightarrow>
          (case MapSchemaUnitsToUnits entities of Panics \<Rightarrow> Panics | Returns us \<Rightarrow> Returns (u # us)))"

definition MapMachineStateToSchema :: "MachineState \<Rightarrow> schemaMachine" where
  "MapMachineStateToSchema ms =
     \<lparr>sm_Id = ms_ID ms, sm_Metadata = gput_all fst snd (ms_Metadata ms) [], sm_PrimaryIP = ms_PublicIP ms\<rparr>"

definition MapSchemaToMachineStates :: "schemaMachine list \<Rightarrow> MachineState list" where
  "MapSchemaToMachineStates entities =
     map (\<lambda>me. \<lparr>ms_ID = sm_Id me, ms_PublicIP = sm_PrimaryIP me, ms_Metadata = gput_all fst snd (sm_Metadata me) [],
       ms_Capabilities = [], ms_Version = []\<rparr>) entities"

definition MapUnitStateToSchemaUnitState :: "UnitState \<Rightarrow> schemaUnitState" where
  "MapUnitStateToSchemaUnitState entity =
     \<lparr>ss_Hash = us_UnitHash entity, ss_MachineID = us_MachineID entity, ss_Name = us_UnitName entity,
      ss_SystemdActiveState = us_ActiveState entity, ss_SystemdLoadState = us_LoadState entity,
      ss_SystemdSubState = us_SubState entity\<rparr>"

definition MapUnitStatesToSchemaUnitStates :: "UnitState list \<Rightarrow> schemaUnitState list" where
  "MapUnitStatesToSchemaUnitStates entities = map MapUnitStateToSchemaUnitState entities"

definition MapSchemaUnitStatesToUnitStates :: "schemaUnitState list \<Rightarrow> UnitState list" where
  "MapSchemaUnitStatesToUnitStates entities =
     map (\<lambda>e. \<lparr>us_LoadState = ss_SystemdLoadState e, us_ActiveState = ss_SystemdActiveState e, us_SubState = ss_SystemdSubState e,
       us_MachineID = ss_MachineID e, us_UnitHash = ss_Hash e, us_UnitName = ss_Name e\<rparr>) entities"

definition MapSchemaUnitToScheduledUnit :: "schemaUnit \<Rightarrow> ScheduledUnit" where
  "MapSchemaUnitToScheduledUnit entity =
     \<lparr>su_Name = sc_Name entity, su_State = Some (sc_CurrentState entity), su_TargetMachineID = sc_MachineID entity\<rparr>"

definition MapSchemaUnitsToScheduledUnits :: "schemaUnit list \<Rightarrow> ScheduledUnit list" where
  "MapSchemaUnitsToScheduledUnits entities = map MapSchemaUnitToScheduledUnit entities"

section \<open>The client of a registry\<close>

record 'r API =
  api_Machines :: "'r \<Rightarrow> MachineState list result"
  api_SetMachineMetadata :: "string \<Rightarrow> string \<Rightarrow> string \<Rightarrow> 'r \<Rightarrow> string option \<times> 'r"
  api_DeleteMachineMetadata :: "string \<Rightarrow> string \<Rightarrow> 'r \<Rightarrow> string option \<times> 'r"
  api_Unit :: "string \<Rightarrow> 'r \<Rightarrow> schemaUnit option result"
  api_Units :: "'r \<Rightarrow> schemaUnit list result"
  api_UnitState :: "string \<Rightarrow> 'r \<Rightarrow> schemaUnitState option result call"
  api_UnitStates :: "'r \<Rightarrow> schemaUnitState list result"
  api_SetUnitTargetState :: "string \<Rightarrow> string \<Rightarrow> 'r \<Rightarrow> string option \<times> 'r"
  api_CreateUnit :: "schemaUnit \<Rightarrow> 'r \<Rightarrow> string option call \<times> 'r"
  api_DestroyUnit :: "string \<Rightarrow> 'r \<Rightarrow> string option \<times> 'r"

definition rc_Units :: "'r Registry \<Rightarrow> 'r \<Rightarrow> schemaUnit list result" where
  "rc_Units reg r =
     (case reg_Units reg r of
        Inl err \<Rightarrow> Inl err
      | Inr rUnits \<Rightarrow>
          (case reg_Schedule reg r of
             Inl err \<Rightarrow> Inl err
           | Inr sUnits \<Rightarrow>
               (let sUnitMap = gput_all su_Name (\<lambda>sUnit. sUnit) sUnits [] in
                Inr (map (\<lambda>ru. MapUnitToSchemaUnit ru (map_of sUnitMap (u_Name ru))) rUnits))))"

definition rc_Unit :: "'r Registry \<Rightarrow> string \<Rightarrow> 'r \<Rightarrow> schemaUnit option result" where
  "rc_Unit reg name r =
     (case reg_Unit reg name r of
        Inl err \<Rightarrow> Inl err
      | Inr None \<Rightarrow> Inr None
      | Inr (Some rUnit) \<Rightarrow>
          if IsGlobal rUnit then Inr (Some (MapUnitToSchemaUnit rUnit None))
          else
            (case reg_ScheduledUnit reg name r of
               Inl err \<Rightarrow> Inl err
             | Inr sUnit \<Rightarrow> Inr (Some (MapUnitToSchemaUnit rUnit sUnit))))"

definition rc_CreateUnit :: "'r Registry \<Rightarrow> schemaUnit \<Rightarrow> 'r \<Rightarrow> string option call \<times> 'r" where
  "rc_CreateUnit reg u r =
     (case MapSchemaUnitOptionsToUnitFile (sc_Options u) of
        Panics \<Rightarrow> (Panics, r)
      | Returns uf \<Rightarrow>
          (case (if length (sc_DesiredState u) > 0 then ParseJobState (sc_DesiredState u) else (JobStateInactive, None)) of
             (_, Some err) \<Rightarrow> (Returns (Some err), r)
           | (ts, None) \<Rightarrow>
               (case reg_CreateUnit reg \<lparr>u_Name = sc_Name u, u_Unit = uf, u_TargetState = ts\<rparr> r of
                  (err, r') \<Rightarrow> (Returns err, r'))))"

definition rc_UnitState :: "'r Registry \<Rightarrow> string \<Rightarrow> 'r \<Rightarrow> schemaUnitState option result call" where
  \<comment> \<open>the unit state of the registry is followed without looking whether there is one\<close>
  "rc_UnitState reg name r =
     (case reg_UnitState reg name r of
        Inl err \<Rightarrow> Returns (Inl err)
      | Inr None \<Rightarrow> Panics
      | Inr (Some rUnitState) \<Rightarrow> Returns (Inr (Some (MapUnitStateToSchemaUnitState rUnitState))))"

definition rc_UnitStates :: "'r Registry \<Rightarrow> 'r \<Rightarrow> schemaUnitState list result" where
  "rc_UnitStates reg r =
     (case reg_UnitStates reg r of
        Inl err \<Rightarrow> Inl err
      | Inr rUnitStates \<Rightarrow> Inr (map MapUnitStateToSchemaUnitState rUnitStates))"

definition rc_SetUnitTargetState :: "'r Registry \<Rightarrow> string \<Rightarrow> string \<Rightarrow> 'r \<Rightarrow> string option \<times> 'r" where
  "rc_SetUnitTargetState reg name target r = reg_SetUnitTargetState reg name target r"

text \<open>The methods the client does not define are those of the registry it embeds.\<close>

definition RegistryClient :: "'r Registry \<Rightarrow> 'r API" where
  "RegistryClient reg =
     \<lparr>api_Machines = reg_Machines reg, api_SetMachineMetadata = reg_SetMachineMetadata reg,
      api_DeleteMachineMetadata = reg_DeleteMachineMetadata reg, api_Unit = rc_Unit reg, api_Units = rc_Units reg,
      api_UnitState = rc_UnitState reg, api_UnitStates = rc_UnitStates reg,
      api_SetUnitTargetState = rc_SetUnitTargetState reg, api_CreateUnit = rc_CreateUnit reg,
      api_DestroyUnit = reg_DestroyUnit reg\<rparr>"

section \<open>Lemmas\<close>

lemma options_through_schema:
  "u = NewUnitFromOptions opts \<Longrightarrow> MapSchemaUnitOptionsToUnitFile (MapUnitFileToSchemaUnitOptions u) = Returns u"
proof -
  assume u: "u = NewUnitFromOptions opts"
  have "(\<lambda>opt. unit_option \<lparr>so_Name = uo_Name opt, so_Section = uo_Section opt, so_Value = uo_Value opt\<rparr>) = (\<lambda>opt. opt)"
    by (simp add: fun_eq_iff unit_option_def)
  moreover have "uf_Options u = opts" using u by (simp add: NewUnitFromOptions_def)
  ultimately show ?thesis
    using u by (auto simp: MapSchemaUnitOptionsToUnitFile_def MapUnitFileToSchemaUnitOptions_def comp_def)
qed

lemma unit_states_through_schema:
  "MapSchemaUnitStatesToUnitStates (MapUnitStatesToSchemaUnitStates uss) = uss"
  unfolding MapSchemaUnitStatesToUnitStates_def MapUnitStatesToSchemaUnitStates_def map_map
  by (rule map_idI) (simp add: MapUnitStateToSchemaUnitState_def)

end
