(* ===== verification/Api_Pages.thy ===== *)
theory Api_Pages
  imports Schema
begin

unbundle bit_operations_syntax

text \<open>
  Pages of collections in the HTTP interface (\<open>api/pagination.go\<close>, with the cutting of pages that
  \<open>api/units.go\<close>, \<open>api/state.go\<close> and \<open>api/machines.go\<close> each repeat): tokens of two 16-bit numbers, their text in
  URL-safe base64 (Go's \<open>encoding/base64\<close> and \<open>encoding/binary\<close>), and the slice of a list a token
  stands for, with the arithmetic at its width.
\<close>

section \<open>Base64\<close>

definition b64_digits :: string where
  "b64_digits = ''ABCDEFGHIJKLMNOPQRSTUVWXYZabcdefghijklmnopqrstuvwxyz0123456789-_''"

definition b64_char :: "nat \<Rightarrow> char" where
  "b64_char n = b64_digits ! (n mod 64)"

definition b64_value :: "char \<Rightarrow> nat option" where
  "b64_value c = map_of (zip b64_digits [0..<64]) c"

fun EncodeToString :: "byte list \<Rightarrow> string" where
  "EncodeToString [] = []"
| "EncodeToString [a] =
     (let n = unat a * 65536 in [b64_char (n div 262144), b64_char (n div 4096), CHR ''='', CHR ''=''])"
| "EncodeToString [a, b] =
     (let n = unat a * 65536 + unat b * 256 in [b64_char (n div 262144), b64_char (n div 4096), b64_char (n div 64), CHR ''=''])"
| "EncodeToString (a # b # c # r) =
     (let n = unat a * 65536 + unat b * 256 + unat c
      in b64_char (n div 262144) # b64_char (n div 4096) # b64_char (n div 64) # b64_char n # EncodeToString r)"

fun decode_quads :: "string \<Rightarrow> byte list option" where
  "decode_quads [] = Some []"
| "decode_quads (p # q # r # s # rest) =
     (case (b64_value p, b64_value q) of
        (Some a, Some b) \<Rightarrow>
          if s = CHR ''='' then
            (if rest \<noteq> [] then None
             else if r = CHR ''='' then Some [of_nat (a * 4 + b div 16)]
             else
               (case b64_value r of
                  None \<Rightarrow> None
                | Some c \<Rightarrow> Some [of_nat (a * 4 + b div 16), of_nat (b mod 16 * 16 + c div 4)]))
          else
            (case (b64_value r, b64_value s) of
               (Some c, Some d) \<Rightarrow>
                 map_option (\<lambda>bs. of_nat (a * 4 + b div 16) # of_nat (b mod 16 * 16 + c div 4) # of_nat (c mod 4 * 64 + d) # bs)
                   (decode_quads rest)
             | _ \<Rightarrow> None)
      | _ \<Rightarrow> None)"
| "decode_quads _ = None"

definition DecodeString :: "string \<Rightarrow> byte list option" where
  \<comment> \<open>line ends are dropped first\<close>
  "DecodeString s = decode_quads (filter (\<lambda>c. c \<noteq> CHR 0x0D \<and> c \<noteq> CHR 0x0A) s)"

section \<open>Tokens\<close>

record PageToken =
  pt_Limit :: "16 word"
  pt_Page :: "16 word"

definition DefaultPageToken :: "16 word \<Rightarrow> PageToken" where
  "DefaultPageToken limit = \<lparr>pt_Limit = limit, pt_Page = 1\<rparr>"

definition pt_Next :: "PageToken \<Rightarrow> PageToken" where
  "pt_Next tok = \<lparr>pt_Limit = pt_Limit tok, pt_Page = pt_Page tok + 1\<rparr>"

definition le_bytes :: "16 word \<Rightarrow> byte list" where
  "le_bytes w = [ucast w, ucast (drop_bit 8 w)]"

definition le_word :: "byte \<Rightarrow> byte \<Rightarrow> 16 word" where
  "le_word lo hi = ucast lo OR push_bit 8 (ucast hi)"

definition pt_Encode :: "PageToken \<Rightarrow> string" where
  "pt_Encode tok = EncodeToString (le_bytes (pt_Limit tok) @ le_bytes (pt_Page tok))"

definition decodePageToken :: "string \<Rightarrow> PageToken result" where
  "decodePageToken value =
     (case DecodeString value of
        None \<Rightarrow> Inl ''illegal base64 data''
      | Some (a # b # c # d # _) \<Rightarrow> Inr \<lparr>pt_Limit = le_word a b, pt_Page = le_word c d\<rparr>
      | Some [] \<Rightarrow> Inl ''EOF''
      | Some _ \<Rightarrow> Inl ''unexpected EOF'')"

definition validatePageToken :: "PageToken \<Rightarrow> 16 word \<Rightarrow> string option" where
  "validatePageToken tok limit =
     (if pt_Limit tok \<noteq> limit then Some (''token limit must be '' @ nat_dec (unat limit))
      else if pt_Page tok = 0 then Some ''token page must be greater than zero''
      else None)"

text \<open>The values of the query parameter \<open>nextPageToken\<close>, decoded and checked.\<close>

definition findNextPageToken :: "string list \<Rightarrow> 16 word \<Rightarrow> PageToken option result" where
  "findNextPageToken values limit =
     (case values of
        [] \<Rightarrow> Inr None
      | [val] \<Rightarrow>
          (case decodePageToken val of
             Inl err \<Rightarrow> Inl err
           | Inr tok \<Rightarrow> (case validatePageToken tok limit of Some err \<Rightarrow> Inl err | None \<Rightarrow> Inr (Some tok)))
      | _ \<Rightarrow> Inl ''too many values for page token'')"

section \<open>Cutting pages\<close>

text \<open>The indices are computed in 16 bits; a slice whose end is before its start is a panic.\<close>

definition page_data :: "'a list \<Rightarrow> PageToken \<Rightarrow> ('a list \<times> PageToken option) call" where
  "page_data all tok =
     (let total = length all;
          startIndex = unat ((pt_Page tok - 1) * pt_Limit tok);
          stopIndex = unat (pt_Page tok * pt_Limit tok)
      in if startIndex < total then
           (let (stopIndex, next) = (if stopIndex > total then (total, None) else (stopIndex, Some (pt_Next tok)))
            in if stopIndex < startIndex then Panics
               else Returns (take (stopIndex - startIndex) (drop startIndex all), next))
         else Returns ([], None))"

definition extractUnitPageData :: "schemaUnit list \<Rightarrow> PageToken \<Rightarrow> (schemaUnit list \<times> PageToken option) call" where
  "extractUnitPageData all tok = page_data all tok"

definition extractUnitStatePageData :: "schemaUnitState list \<Rightarrow> PageToken \<Rightarrow> (schemaUnitState list \<times> PageToken option) call" where
  "extractUnitStatePageData all tok = page_data all tok"

record UnitPage =
  up_NextPageToken :: string
  up_Units :: "schemaUnit list"

record UnitStatePage =
  usp_NextPageToken :: string
  usp_States :: "schemaUnitState list"

record MachinePage =
  mp_Machines :: "schemaMachine list"
  mp_NextPageToken :: string

definition next_token :: "PageToken option \<Rightarrow> string" where
  "next_token next = (case next of None \<Rightarrow> [] | Some tok \<Rightarrow> pt_Encode tok)"

definition newMachinePage :: "MachineState list \<Rightarrow> PageToken option \<Rightarrow> MachinePage" where
  "newMachinePage items tok = \<lparr>mp_Machines = map MapMachineStateToSchema items, mp_NextPageToken = next_token tok\<rparr>"

definition extractMachinePage :: "MachineState list \<Rightarrow> PageToken \<Rightarrow> MachinePage call" where
  "extractMachinePage all tok =
     (case page_data all tok of Panics \<Rightarrow> Panics | Returns (items, next) \<Rightarrow> Returns (newMachinePage items next))"

definition getMachinePage :: "'r API \<Rightarrow> PageToken \<Rightarrow> 'r \<Rightarrow> MachinePage result call" where
  "getMachinePage cAPI tok r =
     (case api_Machines cAPI r of
        Inl err \<Rightarrow> Returns (Inl err)
      | Inr all \<Rightarrow> (case extractMachinePage all tok of Panics \<Rightarrow> Panics | Returns page \<Rightarrow> Returns (Inr page)))"

definition getUnitPage :: "'r API \<Rightarrow> PageToken \<Rightarrow> 'r \<Rightarrow> UnitPage result call" where
  "getUnitPage cAPI tok r =
     (case api_Units cAPI r of
        Inl err \<Rightarrow> Returns (Inl err)
      | Inr units \<Rightarrow>
          (case extractUnitPageData units tok of
             Panics \<Rightarrow> Panics
           | Returns (items, next) \<Rightarrow> Returns (Inr \<lparr>up_NextPageToken = next_token next, up_Units = items\<rparr>)))"

definition getUnitStatePage :: "'r API \<Rightarrow> string \<Rightarrow> string \<Rightarrow> PageToken \<Rightarrow> 'r \<Rightarrow> UnitStatePage result call" where
  "getUnitStatePage cAPI machineID unitName tok r =
     (case api_UnitStates cAPI r of
        Inl err \<Rightarrow> Returns (Inl err)
      | Inr states \<Rightarrow>
          (let filtered = filter (\<lambda>us. (machineID = [] \<or> machineID = ss_MachineID us) \<and> (unitName = [] \<or> unitName = ss_Name us)) states
           in case extractUnitStatePageData filtered tok of
                Panics \<Rightarrow> Panics
              | Returns (items, next) \<Rightarrow> Returns (Inr \<lparr>usp_NextPageToken = next_token next, usp_States = items\<rparr>)))"

section \<open>Tokens are read back\<close>

lemma b64_digits_props: "length b64_digits = 64" "distinct b64_digits" "CHR ''='' \<notin> set b64_digits"
  "CHR 0x0A \<notin> set b64_digits" "CHR 0x0D \<notin> set b64_digits"
  by (simp_all add: b64_digits_def)

lemma b64_char_in: "b64_char n \<in> set b64_digits"
  unfolding b64_char_def by (rule nth_mem) (simp add: b64_digits_props)

lemma b64_char_not: "b64_char n \<noteq> CHR ''=''" "b64_char n \<noteq> CHR 0x0A" "b64_char n \<noteq> CHR 0x0D"
  using b64_char_in[of n] b64_digits_props(3-5) by metis+

lemma b64_value_char: "b64_value (b64_char n) = Some (n mod 64)"
proof -
  have "map_of (zip b64_digits [0..<64]) (b64_digits ! (n mod 64)) = Some ([0..<64] ! (n mod 64))"
    by (rule map_of_zip_nth) (use b64_digits_props in simp_all)
  then show ?thesis by (simp add: b64_value_def b64_char_def)
qed

lemma div_mod_parts: "(r :: nat) < k \<Longrightarrow> (q * k + r) div k = q \<and> (q * k + r) mod k = r"
  by simp

lemma quad_bytes:
  fixes a b c :: nat
  assumes "a < 256" "b < 256" "c < 256"
  defines "n \<equiv> a * 65536 + b * 256 + c"
  shows "n div 262144 mod 64 * 4 + n div 4096 mod 64 div 16 = a"
    "n div 4096 mod 64 mod 16 * 16 + n div 64 mod 64 div 4 = b"
    "n div 64 mod 64 mod 4 * 64 + n mod 64 = c"
proof -
  define a1 a0 where "a1 = a div 4" and "a0 = a mod 4"
  define b1 b0 where "b1 = b div 16" and "b0 = b mod 16"
  define c1 c0 where "c1 = c div 64" and "c0 = c mod 64"
  have a: "a = a1 * 4 + a0" "a0 < 4" by (simp_all add: a1_def a0_def)
  have b: "b = b1 * 16 + b0" "b0 < 16" by (simp_all add: b1_def b0_def)
  have c: "c = c1 * 64 + c0" "c0 < 64" by (simp_all add: c1_def c0_def)
  have lt: "a1 < 64" "b1 < 16" "c1 < 4" using a b c assms(1-3) by linarith+
  define x y where "x = a0 * 16 + b1" and "y = b0 * 4 + c1"
  have xy: "x < 64" "y < 64" using a(2) b(2) lt by (simp_all add: x_def y_def)
  have "n = a1 * 262144 + (x * 4096 + y * 64 + c0)" "n = (a1 * 64 + x) * 4096 + (y * 64 + c0)"
    "n = ((a1 * 64 + x) * 64 + y) * 64 + c0"
    using a b c by (simp_all add: n_def x_def y_def)
  moreover have "x * 4096 + y * 64 + c0 < 262144" "y * 64 + c0 < 4096" using xy c(2) by linarith+
  ultimately have n: "n div 262144 = a1" "n div 4096 = a1 * 64 + x" "n div 64 = (a1 * 64 + x) * 64 + y" "n mod 64 = c0"
    using div_mod_parts[of _ 262144 a1] div_mod_parts[of _ 4096 "a1 * 64 + x"] div_mod_parts[OF c(2), of "(a1 * 64 + x) * 64 + y"] by simp_all
  have m: "(a1 * 64 + x) mod 64 = x" "((a1 * 64 + x) * 64 + y) mod 64 = y" using div_mod_parts xy by blast+
  have d: "x div 16 = a0" "x mod 16 = b1" "y div 4 = b0" "y mod 4 = c1"
    unfolding x_def y_def using div_mod_parts lt by blast+
  show "n div 262144 mod 64 * 4 + n div 4096 mod 64 div 16 = a"
    "n div 4096 mod 64 mod 16 * 16 + n div 64 mod 64 div 4 = b"
    "n div 64 mod 64 mod 4 * 64 + n mod 64 = c"
    unfolding n m d using a b c lt by simp_all
qed

lemma unat_byte: "unat (b :: byte) < 256"
  using unsigned_less[of b] by simp

lemma quad_words:
  fixes a b c :: byte
  defines "n \<equiv> unat a * 65536 + unat b * 256 + unat c"
  shows "of_nat (n div 262144 mod 64 * 4 + n div 4096 mod 64 div 16) = a"
    "of_nat (n div 4096 mod 64 mod 16 * 16 + n div 64 mod 64 div 4) = b"
    "of_nat (n div 64 mod 64 mod 4 * 64 + n mod 64) = c"
  unfolding n_def quad_bytes[OF unat_byte unat_byte unat_byte] by simp_all

lemma decode_EncodeToString: "decode_quads (EncodeToString bs) = Some bs"
proof (induction bs rule: EncodeToString.induct)
  case (2 a)
  define n where "n = unat a * 65536"
  have "EncodeToString [a] = [b64_char (n div 262144), b64_char (n div 4096), CHR ''='', CHR ''='']"
    by (simp only: EncodeToString.simps Let_def n_def)
  then show ?case using quad_words(1)[of a 0 0] by (simp add: b64_value_char n_def)
next
  case (3 a b)
  define n where "n = unat a * 65536 + unat b * 256"
  have "EncodeToString [a, b] = [b64_char (n div 262144), b64_char (n div 4096), b64_char (n div 64), CHR ''='']"
    by (simp only: EncodeToString.simps Let_def n_def)
  moreover note quad_words(1,2)[of a b 0, unfolded unsigned_0 add_0_right, folded n_def]
  ultimately show ?case by (simp add: b64_value_char b64_char_not)
next
  case (4 a b c r)
  define n where "n = unat a * 65536 + unat b * 256 + unat c"
  have "EncodeToString (a # b # c # r) =
      b64_char (n div 262144) # b64_char (n div 4096) # b64_char (n div 64) # b64_char n # EncodeToString r"
    by (simp only: EncodeToString.simps Let_def n_def)
  moreover note quad_words[of a b c, folded n_def]
  ultimately show ?case using 4 by (simp add: b64_value_char b64_char_not)
qed simp

lemma EncodeToString_chars: "set (EncodeToString bs) \<subseteq> set b64_digits \<union> {CHR ''=''}"
  using b64_char_in by (induction bs rule: EncodeToString.induct) (auto simp: Let_def)

lemma DecodeString_EncodeToString: "DecodeString (EncodeToString bs) = Some bs"
proof -
  have "filter (\<lambda>c. c \<noteq> CHR 0x0D \<and> c \<noteq> CHR 0x0A) (EncodeToString bs) = EncodeToString bs"
    unfolding filter_id_conv using EncodeToString_chars[of bs] b64_digits_props(4,5) by auto
  then show ?thesis by (simp add: DecodeString_def decode_EncodeToString)
qed

lemma le_word_bytes: "le_word (ucast w) (ucast (drop_bit 8 w)) = w"
  unfolding le_word_def by (rule bit_word_eqI) (auto simp: bit_simps)

lemma decode_Encode: "decodePageToken (pt_Encode tok) = Inr tok"
  by (simp add: decodePageToken_def pt_Encode_def DecodeString_EncodeToString le_bytes_def le_word_bytes del: EncodeToString.simps)
end
