(* ===== verification/Api_Client.thy ===== *)
theory Api_Client
  imports Api_Pages
begin

text \<open>
  The HTTP client's side of collections (\<open>client/http.go\<close>): it asks for page after page until a page
  names no next one. The generated service that carries a request out is a parameter: given the token
  of a page, if any, it replies with that page or an error. Whether the loop ends depends on it.
\<close>

partial_function (option) list_pages ::
  "(string option \<Rightarrow> ('a list \<times> string) result) \<Rightarrow> string option \<Rightarrow> 'a list \<Rightarrow> 'a list result option" where
  "list_pages do_call token acc =
     (case do_call token of
        Inl err \<Rightarrow> Some (Inl err)
      | Inr (items, nextPageToken) \<Rightarrow>
          if length nextPageToken > 0 then list_pages do_call (Some nextPageToken) (acc @ items)
          else Some (Inr (acc @ items)))"

declare list_pages.simps [code]

definition hc_Machines :: "(string option \<Rightarrow> MachinePage result) \<Rightarrow> MachineState list result option" where
  "hc_Machines do_call =
     list_pages (\<lambda>tok. map_sum id (\<lambda>page. (MapSchemaToMachineStates (mp_Machines page), mp_NextPageToken page)) (do_call tok)) None []"

definition hc_Units :: "(string option \<Rightarrow> UnitPage result) \<Rightarrow> schemaUnit list result option" where
  "hc_Units do_call = list_pages (\<lambda>tok. map_sum id (\<lambda>page. (up_Units page, up_NextPageToken page)) (do_call tok)) None []"

definition hc_UnitStates :: "(string option \<Rightarrow> UnitStatePage result) \<Rightarrow> schemaUnitState list result option" where
  "hc_UnitStates do_call = list_pages (\<lambda>tok. map_sum id (\<lambda>page. (usp_States page, usp_NextPageToken page)) (do_call tok)) None []"

text \<open>Single entities: an error of the service with the code for \<open>not found\<close> is no entity, not an error.\<close>

datatype svc_error = googleapi_Error nat | svc_Failure string

definition is404 :: "svc_error \<Rightarrow> bool" where
  "is404 err = (case err of googleapi_Error code \<Rightarrow> code = 404 | svc_Failure _ \<Rightarrow> False)"

definition hc_Unit :: "(string \<Rightarrow> svc_error + schemaUnit) \<Rightarrow> string \<Rightarrow> svc_error + schemaUnit option" where
  "hc_Unit do_get name =
     (case do_get name of Inl err \<Rightarrow> if is404 err then Inr None else Inl err | Inr u \<Rightarrow> Inr (Some u))"

definition hc_UnitState :: "(string \<Rightarrow> svc_error + schemaUnitState) \<Rightarrow> string \<Rightarrow> svc_error + schemaUnitState option" where
  "hc_UnitState do_get name =
     (case do_get name of Inl err \<Rightarrow> if is404 err then Inr None else Inl err | Inr u \<Rightarrow> Inr (Some u))"

definition hc_DestroyUnit :: "(string \<Rightarrow> 'r \<Rightarrow> svc_error option \<times> 'r) \<Rightarrow> string \<Rightarrow> 'r \<Rightarrow> svc_error option \<times> 'r" where
  "hc_DestroyUnit do_delete name r = do_delete name r"

definition hc_CreateUnit :: "(string \<Rightarrow> schemaUnit \<Rightarrow> 'r \<Rightarrow> svc_error option \<times> 'r) \<Rightarrow> schemaUnit \<Rightarrow> 'r \<Rightarrow> svc_error option \<times> 'r" where
  "hc_CreateUnit do_set u r = do_set (sc_Name u) u r"

definition hc_SetUnitTargetState ::
  "(string \<Rightarrow> schemaUnit \<Rightarrow> 'r \<Rightarrow> svc_error option \<times> 'r) \<Rightarrow> string \<Rightarrow> string \<Rightarrow> 'r \<Rightarrow> svc_error option \<times> 'r" where
  "hc_SetUnitTargetState do_set name target r =
     do_set name \<lparr>sc_CurrentState = [], sc_DesiredState = target, sc_MachineID = [], sc_Name = name, sc_Options = []\<rparr> r"

section \<open>A client and a server\<close>

text \<open>
  A server that answers with the page a token stands for, after checking the token as every resource
  does; a panic of the server closes the connection.
\<close>

definition served :: "(PageToken \<Rightarrow> 'p result call) \<Rightarrow> 16 word \<Rightarrow> string option \<Rightarrow> 'p result" where
  "served page limit tok =
     (case findNextPageToken (case tok of None \<Rightarrow> [] | Some t \<Rightarrow> [t]) limit of
        Inl err \<Rightarrow> Inl err
      | Inr token \<Rightarrow>
          (case page (case token of None \<Rightarrow> DefaultPageToken limit | Some t \<Rightarrow> t) of
             Panics \<Rightarrow> Inl ''EOF''
           | Returns r \<Rightarrow> r))"

definition page_no :: "16 word \<Rightarrow> nat \<Rightarrow> PageToken" where
  "page_no limit k = \<lparr>pt_Limit = limit, pt_Page = of_nat k\<rparr>"

lemma Encode_not_Nil: "pt_Encode tok \<noteq> []"
  by (simp add: pt_Encode_def le_bytes_def Let_def)

lemma find_page:
  assumes "0 < k" "k < 65536"
  shows "findNextPageToken [pt_Encode (page_no limit k)] limit = Inr (Some (page_no limit k))"
proof -
  have "unat (of_nat k :: 16 word) = k" using assms by (simp add: unat_of_nat)
  then have "(of_nat k :: 16 word) \<noteq> 0" using assms(1) by (metis unsigned_0 less_irrefl)
  then show ?thesis by (simp add: findNextPageToken_def decode_Encode validatePageToken_def page_no_def)
qed

text \<open>The page with number \<open>k\<close> when no product wraps.\<close>

lemma page_data_exact:
  assumes "0 < k" "k * unat limit < 65536"
  shows "page_data all (page_no limit k) =
    Returns (take (unat limit) (drop ((k - 1) * unat limit) all),
      if k * unat limit \<le> length all \<and> (k - 1) * unat limit < length all then Some (page_no limit (Suc k)) else None)"
proof -
  let ?L = "unat limit"
  have mult: "unat (of_nat j * limit) = j * ?L" if "j * ?L < 65536" for j
    using that by (simp add: unat_word_ariths unat_of_nat mod_mult_left_eq)
  have "(k - 1) * ?L \<le> k * ?L" by simp
  then have st: "unat (of_nat (k - 1) * limit) = (k - 1) * ?L" by (intro mult) (use assms(2) in linarith)
  have sp: "unat (of_nat k * limit) = k * ?L" by (rule mult[OF assms(2)])
  have e: "k * ?L = (k - 1) * ?L + ?L" using assms(1) by (cases k) simp_all
  have k: "(of_nat k :: 16 word) - 1 = of_nat (k - 1)" using assms(1) by (simp add: of_nat_diff)
  show ?thesis
    using st sp e by (auto simp: page_data_def page_no_def pt_Next_def k Let_def add.commute)
qed

lemma list_pages_complete:
  assumes L: "0 < unat limit" and bound: "length all + unat limit < 65536"
    and pages: "\<And>k. 0 < k \<Longrightarrow> k < 65536 \<Longrightarrow> do_call (Some (pt_Encode (page_no limit k))) = page k"
    and page: "\<And>k. page k = (case page_data all (page_no limit k) of Panics \<Rightarrow> Inl err
        | Returns (items, next) \<Rightarrow> Inr (map g items, next_token next))"
    and k: "0 < k" "(k - 1) * unat limit \<le> length all"
    and tok: "do_call tok = page k"
  shows "list_pages do_call tok (map g (take ((k - 1) * unat limit) all)) = Some (Inr (map g all))"
  using k tok
proof (induction "length all - (k - 1) * unat limit" arbitrary: k tok rule: less_induct)
  case less
  let ?L = "unat limit"
  have kL: "k * ?L = (k - 1) * ?L + ?L" using less.prems(1) by (cases k) simp_all
  then have lt: "k * ?L < 65536" using less.prems(2) bound by linarith
  note pd = page_data_exact[OF less.prems(1) lt, of all]
  show ?case
  proof (cases "k * ?L \<le> length all \<and> (k - 1) * ?L < length all")
    case True
    have "Suc k \<le> Suc k * ?L" using L by (cases ?L) simp_all
    moreover have "Suc k * ?L < 65536" using True bound by simp
    ultimately have sk: "Suc k < 65536" by linarith
    have "length all - (Suc k - 1) * ?L < length all - (k - 1) * ?L"
      using True kL L unfolding diff_Suc_1 by linarith
    from less.hyps[OF this] True pages[of "Suc k"] sk
    have IH: "list_pages do_call (Some (pt_Encode (page_no limit (Suc k)))) (map g (take (k * ?L) all)) = Some (Inr (map g all))"
      by simp
    have "take (k * ?L) all = take ((k - 1) * ?L) all @ take ?L (drop ((k - 1) * ?L) all)"
      unfolding kL by (rule take_add)
    then show ?thesis
      using IH pd True less.prems(3) page[of k] Encode_not_Nil by (simp add: list_pages.simps[of do_call tok] next_token_def)
  next
    case False
    then have "length all - (k - 1) * ?L \<le> ?L" using less.prems(2) kL by auto
    then have "take ?L (drop ((k - 1) * ?L) all) = drop ((k - 1) * ?L) all" by simp
    then have "page k = Inr (map g (drop ((k - 1) * ?L) all), [])"
      using pd page[of k] unfolding if_not_P[OF False] by (simp add: next_token_def)
    then show ?thesis
      using less.prems(3)
      by (simp add: list_pages.simps[of do_call tok] flip: map_append)
  qed
qed

lemma served_complete:
  assumes L: "0 < unat limit" "length all + unat limit < 65536"
    and page: "\<And>tok. page tok = (case page_data all tok of Panics \<Rightarrow> Panics | Returns (items, next) \<Rightarrow> Returns (Inr (mk items next)))"
    and parts: "\<And>items next. part (mk items next) = (map g items, next_token next)"
  shows "list_pages (\<lambda>tok. map_sum id part (served page limit tok)) None [] = Some (Inr (map g all))"
proof -
  let ?page = "\<lambda>k. case page_data all (page_no limit k) of Panics \<Rightarrow> Inl ''EOF''
      | Returns (items, next) \<Rightarrow> Inr (map g items, next_token next)"
  have d: "DefaultPageToken limit = page_no limit 1" by (simp add: DefaultPageToken_def page_no_def)
  have serve: "map_sum id part (case page tok of Panics \<Rightarrow> Inl ''EOF'' | Returns r \<Rightarrow> r) =
      (case page_data all tok of Panics \<Rightarrow> Inl ''EOF'' | Returns (items, next) \<Rightarrow> Inr (map g items, next_token next))" for tok
    by (simp add: page parts split: call.split prod.split)
  have "list_pages (\<lambda>tok. map_sum id part (served page limit tok)) None (map g (take ((1 - 1) * unat limit) all)) = Some (Inr (map g all))"
  proof (rule list_pages_complete[OF L, where page = ?page])
    show "map_sum id part (served page limit (Some (pt_Encode (page_no limit k)))) = ?page k" if "0 < k" "k < 65536" for k
      using find_page[OF that, of limit] serve[of "page_no limit k"] by (simp add: served_def)
    show "map_sum id part (served page limit None) = ?page 1"
      using serve[of "page_no limit 1"] by (simp add: served_def findNextPageToken_def d)
  qed simp_all
  then show ?thesis by simp
qed

end
