(* ===== verification/Api_Common.thy ===== *)
theory Api_Common
  imports Api_Pages Go_File_Path Go_Path
begin

text \<open>
  What the resources of the HTTP interface share: requests and responses, the paths of collections
  and items (\<open>api/path.go\<close>), the content type, responses and errors (\<open>api/serialization.go\<close>), and the
  entities in JSON, with empty fields left out as their tags say. A message keeps the words of its
  format; values that the format quotes are left out.
\<close>

record Request =
  rq_Method :: string
  rq_Path :: string
  rq_ContentType :: "string list"
  rq_Query :: "(string, string list) gmap"
  rq_Body :: string

record Response =
  rs_Code :: nat
  rs_Body :: string

definition query_values :: "Request \<Rightarrow> string \<Rightarrow> string list" where
  "query_values req k = (case map_of (rq_Query req) k of None \<Rightarrow> [] | Some vs \<Rightarrow> vs)"

section \<open>Paths\<close>

definition isCollectionPath :: "string \<Rightarrow> string \<Rightarrow> bool" where
  "isCollectionPath base p = (p = base)"

definition isItemPath :: "string \<Rightarrow> string \<Rightarrow> string option" where
  "isItemPath base p =
     (if HasSuffix p ''/'' then None
      else
        (case Match (path_Join [base, ''*'']) p of
           Matched True \<Rightarrow> Some (path_Base p)
         | _ \<Rightarrow> None))"

section \<open>Content types and responses\<close>

definition validateContentType :: "Request \<Rightarrow> string option" where
  "validateContentType req =
     (case rq_ContentType req of
        [v] \<Rightarrow>
          (if TrimSpace (hd (Split v CHR '';'')) \<noteq> ''application/json''
           then Some ''only acceptable Content-Type is application/json''
           else None)
      | vs \<Rightarrow> Some (''expected 1 Content-Type, got '' @ nat_dec (length vs)))"

definition StatusOK :: nat where "StatusOK = 200"
definition StatusCreated :: nat where "StatusCreated = 201"
definition StatusNoContent :: nat where "StatusNoContent = 204"
definition StatusBadRequest :: nat where "StatusBadRequest = 400"
definition StatusNotFound :: nat where "StatusNotFound = 404"
definition StatusMethodNotAllowed :: nat where "StatusMethodNotAllowed = 405"
definition StatusConflict :: nat where "StatusConflict = 409"
definition StatusUnsupportedMediaType :: nat where "StatusUnsupportedMediaType = 415"
definition StatusInternalServerError :: nat where "StatusInternalServerError = 500"

lemmas status_codes = StatusOK_def StatusCreated_def StatusNoContent_def StatusBadRequest_def StatusNotFound_def
  StatusMethodNotAllowed_def StatusConflict_def StatusUnsupportedMediaType_def StatusInternalServerError_def

definition header_only :: "nat \<Rightarrow> Response" where
  "header_only code = \<lparr>rs_Code = code, rs_Body = []\<rparr>"

definition sendResponse :: "nat \<Rightarrow> json \<Rightarrow> Response" where
  \<comment> \<open>a response without content cannot carry the body that is written\<close>
  "sendResponse code resp = \<lparr>rs_Code = code, rs_Body = (if code = StatusNoContent then [] else json_print resp)\<rparr>"

definition errorResponse :: "nat \<Rightarrow> string \<Rightarrow> json" where
  "errorResponse code msg = JObj [(''error'', JObj [(''code'', enc_int (int code)), (''message'', JStr msg)])]"

definition sendError :: "nat \<Rightarrow> string option \<Rightarrow> Response" where
  "sendError code err = sendResponse code (errorResponse code (case err of None \<Rightarrow> [] | Some msg \<Rightarrow> msg))"

section \<open>Entities in JSON\<close>

definition str_field :: "string \<Rightarrow> string \<Rightarrow> (string \<times> json) list" where
  "str_field k v = (if v = [] then [] else [(k, JStr v)])"

definition list_field :: "string \<Rightarrow> ('a \<Rightarrow> json) \<Rightarrow> 'a list \<Rightarrow> (string \<times> json) list" where
  "list_field k enc vs = (if vs = [] then [] else [(k, JArr (map enc vs))])"

definition enc_pointer :: "('a \<Rightarrow> json) \<Rightarrow> 'a option \<Rightarrow> json" where
  "enc_pointer enc p = (case p of None \<Rightarrow> JNull | Some x \<Rightarrow> enc x)"

definition enc_schemaUnitOption :: "schemaUnitOption \<Rightarrow> json" where
  "enc_schemaUnitOption opt =
     JObj (str_field ''name'' (so_Name opt) @ str_field ''section'' (so_Section opt) @ str_field ''value'' (so_Value opt))"

definition enc_schemaUnit :: "schemaUnit \<Rightarrow> json" where
  "enc_schemaUnit u =
     JObj (str_field ''currentState'' (sc_CurrentState u) @ str_field ''desiredState'' (sc_DesiredState u) @
           str_field ''machineID'' (sc_MachineID u) @ str_field ''name'' (sc_Name u) @
           list_field ''options'' (enc_pointer enc_schemaUnitOption) (sc_Options u))"

definition enc_schemaUnitState :: "schemaUnitState \<Rightarrow> json" where
  "enc_schemaUnitState us =
     JObj (str_field ''hash'' (ss_Hash us) @ str_field ''machineID'' (ss_MachineID us) @ str_field ''name'' (ss_Name us) @
           str_field ''systemdActiveState'' (ss_SystemdActiveState us) @ str_field ''systemdLoadState'' (ss_SystemdLoadState us) @
           str_field ''systemdSubState'' (ss_SystemdSubState us))"

definition enc_schemaMachine :: "schemaMachine \<Rightarrow> json" where
  "enc_schemaMachine m =
     JObj (str_field ''id'' (sm_Id m) @ (if sm_Metadata m = [] then [] else [(''metadata'', enc_map JStr (sm_Metadata m))]) @
           str_field ''primaryIP'' (sm_PrimaryIP m))"

definition enc_UnitPage :: "UnitPage \<Rightarrow> json" where
  "enc_UnitPage page = JObj (str_field ''nextPageToken'' (up_NextPageToken page) @ list_field ''units'' enc_schemaUnit (up_Units page))"

definition enc_UnitStatePage :: "UnitStatePage \<Rightarrow> json" where
  "enc_UnitStatePage page =
     JObj (str_field ''nextPageToken'' (usp_NextPageToken page) @ list_field ''states'' enc_schemaUnitState (usp_States page))"

definition enc_MachinePage :: "MachinePage \<Rightarrow> json" where
  "enc_MachinePage page =
     JObj (list_field ''machines'' enc_schemaMachine (mp_Machines page) @ str_field ''nextPageToken'' (mp_NextPageToken page))"

text \<open>
  Decoding the body of a request reads one value and ignores what follows it. A list is decoded over
  the one that was there, element by element; a null is the nil pointer.
\<close>

definition json_decode :: "string \<Rightarrow> json option" where
  "json_decode body = map_option fst (parse_value (Suc (length body)) body)"

fun dec_items :: "'a field_decoder \<Rightarrow> 'a \<Rightarrow> 'a list \<Rightarrow> json list \<Rightarrow> 'a list option" where
  "dec_items dec zero old [] = Some []"
| "dec_items dec zero old (v # vs) =
     Option.bind (dec (case old of [] \<Rightarrow> zero | x # _ \<Rightarrow> x) v) (\<lambda>x. map_option (Cons x) (dec_items dec zero (tl old) vs))"

definition dec_slice :: "'a field_decoder \<Rightarrow> 'a \<Rightarrow> 'a list field_decoder" where
  "dec_slice dec zero old v = (case v of JArr vs \<Rightarrow> dec_items dec zero old vs | JNull \<Rightarrow> Some [] | _ \<Rightarrow> None)"

definition dec_struct :: "('a \<Rightarrow> (string \<times> json) list \<Rightarrow> 'a option) \<Rightarrow> 'a field_decoder" where
  "dec_struct dec old v = (case v of JObj ms \<Rightarrow> dec old ms | JNull \<Rightarrow> Some old | _ \<Rightarrow> None)"

definition dec_pointer :: "'a field_decoder \<Rightarrow> 'a \<Rightarrow> 'a option field_decoder" where
  "dec_pointer dec zero old v =
     (case v of JNull \<Rightarrow> Some None | _ \<Rightarrow> map_option Some (dec (case old of None \<Rightarrow> zero | Some x \<Rightarrow> x) v))"

definition zero_unit_option :: schemaUnitOption where
  "zero_unit_option = \<lparr>so_Name = [], so_Section = [], so_Value = []\<rparr>"

definition dec_schemaUnitOption :: "schemaUnitOption \<Rightarrow> (string \<times> json) list \<Rightarrow> schemaUnitOption option" where
  "dec_schemaUnitOption old ms =
     Option.bind (decode_field dec_string ''name'' (so_Name old) ms) (\<lambda>n.
     Option.bind (decode_field dec_string ''section'' (so_Section old) ms) (\<lambda>s.
     Option.bind (decode_field dec_string ''value'' (so_Value old) ms) (\<lambda>v.
     Some \<lparr>so_Name = n, so_Section = s, so_Value = v\<rparr>)))"

definition zero_schema_unit :: schemaUnit where
  "zero_schema_unit = \<lparr>sc_CurrentState = [], sc_DesiredState = [], sc_MachineID = [], sc_Name = [], sc_Options = []\<rparr>"

definition dec_schemaUnit :: "schemaUnit \<Rightarrow> (string \<times> json) list \<Rightarrow> schemaUnit option" where
  "dec_schemaUnit old ms =
     Option.bind (decode_field dec_string ''currentState'' (sc_CurrentState old) ms) (\<lambda>c.
     Option.bind (decode_field dec_string ''desiredState'' (sc_DesiredState old) ms) (\<lambda>d.
     Option.bind (decode_field dec_string ''machineID'' (sc_MachineID old) ms) (\<lambda>m.
     Option.bind (decode_field dec_string ''name'' (sc_Name old) ms) (\<lambda>n.
     Option.bind (decode_field (dec_slice (dec_pointer (dec_struct dec_schemaUnitOption) zero_unit_option) None) ''options''
       (sc_Options old) ms) (\<lambda>opts.
     Some \<lparr>sc_CurrentState = c, sc_DesiredState = d, sc_MachineID = m, sc_Name = n, sc_Options = opts\<rparr>)))))"

definition decode_unit :: "string \<Rightarrow> schemaUnit option" where
  "decode_unit body = Option.bind (json_decode body) (dec_struct dec_schemaUnit zero_schema_unit)"

end
