(* ===== verification/Api_Units.thy ===== *)
theory Api_Units
  imports Api_Common Unit_Lexer
begin

text \<open>
  The units of the HTTP interface (\<open>api/units.go\<close>): the checks of unit names and options, and the
  handlers behind \<open>/units\<close>, each a function of the request and the state of the registry behind the
  client. A handler that follows a nil pointer panics; the server then closes the connection.
\<close>

section \<open>Names\<close>

definition unitNameMax :: nat where "unitNameMax = 256"

definition validChars :: string where
  "validChars = ''0123456789'' @ ''abcdefghijklmnopqrstuvwxyz'' @ ''ABCDEFGHIJKLMNOPQRSTUVWXYZ'' @ '':-_.'' @ [CHR 0x5C] @ ''@''"

definition validUnitTypes :: unsafeSet where
  "validUnitTypes = NewUnsafeSet
     [''automount'', ''busname'', ''device'', ''mount'', ''path'', ''scope'', ''service'', ''slice'', ''snapshot'', ''socket'',
      ''swap'', ''target'', ''timer'']"

definition validTemplateTypes :: unsafeSet where
  "validTemplateTypes = NewUnsafeSet [''path'', ''service'', ''socket'', ''target'', ''timer'']"

definition ValidateName :: "string \<Rightarrow> string option" where
  "ValidateName name =
     (if length name = 0 then Some ''unit name cannot be empty''
      else if length name > unitNameMax then Some (''unit name exceeds maximum length ('' @ nat_dec unitNameMax @ '')'')
      else
        (case LastIndexByte name CHR ''.'' of
           None \<Rightarrow> Some ''unit name must contain .''
         | Some dot \<Rightarrow>
             if dot = length name - 1 then Some ''unit name cannot end in .''
             else
               (let suffix = drop (dot + 1) name in
                if \<not> us_Contains validUnitTypes suffix then Some ''invalid unit type''
                else if CHR ''@'' \<in> set name \<and> \<not> us_Contains validTemplateTypes suffix then Some ''invalid unit type for template''
                else if \<not> list_all (\<lambda>c. c \<in> set validChars) (take dot name) then Some ''invalid character in unit name''
                else if HasPrefix name ''@'' then Some ''unit name cannot start in @''
                else None)))"

section \<open>Options\<close>

definition pattern_matches :: "string \<Rightarrow> string \<Rightarrow> bool" where
  "pattern_matches pattern name = (case Match pattern name of Matched m \<Rightarrow> m | _ \<Rightarrow> False)"

definition job_of_file :: "UnitFile \<Rightarrow> Job" where
  "job_of_file uf = \<lparr>j_Name = [], j_State = None, j_TargetState = [], j_TargetMachineID = [], j_Unit = uf\<rparr>"

text \<open>The first peer that a conflict or a replacement pattern matches, in the order the sets are read.\<close>

fun peer_clash :: "range_order \<Rightarrow> unsafeSet \<Rightarrow> unsafeSet \<Rightarrow> string list \<Rightarrow> string option" where
  "peer_clash ord conflicts replaces [] = None"
| "peer_clash ord conflicts replaces (peer # peers) =
     (if \<exists>c\<in>set (us_Values (at (at ord peer) ''conflicts'') conflicts). pattern_matches c peer
      then Some ''unresolvable requirements: peer matches conflict''
      else if \<exists>r\<in>set (us_Values (at (at ord peer) ''replaces'') replaces). pattern_matches r peer
      then Some ''unresolvable requirements: peer matches replace''
      else peer_clash ord conflicts replaces peers)"

definition ValidateOptions :: "range_order \<Rightarrow> schemaUnitOption option list \<Rightarrow> string option call" where
  "ValidateOptions ord opts =
     (case MapSchemaUnitOptionsToUnitFile opts of
        Panics \<Rightarrow> Panics
      | Returns uf \<Rightarrow> Returns
          (case Deserialize (Serialize (uf_Options uf)) of
             Inl err \<Rightarrow> Some err
           | Inr _ \<Rightarrow>
               (let j = job_of_file uf;
                    conflicts = NewUnsafeSet (Conflicts j);
                    replaces = NewUnsafeSet (Replaces j);
                    peers = NewUnsafeSet (Peers j)
                in case peer_clash ord conflicts replaces (us_Values (at ord ''peers'') peers) of
                     Some err \<Rightarrow> Some err
                   | None \<Rightarrow>
                       (let hasPeers = us_Length peers \<noteq> 0;
                            hasConflicts = us_Length conflicts \<noteq> 0;
                            hasReplaces = us_Length replaces \<noteq> 0;
                            hasReqTarget = RequiredTarget j \<noteq> None;
                            isGlobal = IsGlobal \<lparr>u_Name = [], u_Unit = uf, u_TargetState = []\<rparr>
                        in if hasReqTarget \<and> hasPeers then Some ''MachineID cannot be used with Peers''
                           else if hasReqTarget \<and> hasConflicts then Some ''MachineID cannot be used with Conflicts''
                           else if hasReqTarget \<and> isGlobal then Some ''MachineID cannot be used with Global''
                           else if hasReqTarget \<and> hasReplaces then Some ''MachineID cannot be used with Replaces''
                           else if isGlobal \<and> hasPeers then Some ''Global cannot be used with Peers''
                           else if isGlobal \<and> hasReplaces then Some ''Global cannot be used with Replaces''
                           else if hasConflicts \<and> hasReplaces then Some ''Conflicts cannot be used with Replaces''
                           else None))))"

section \<open>Handlers\<close>

record unitsResource =
  ur_basePath :: string
  ur_tokenLimit :: "16 word"

definition wireUpUnitsResource :: "string \<Rightarrow> int \<Rightarrow> unitsResource" where
  "wireUpUnitsResource pre tokenLimit = \<lparr>ur_basePath = path_Join [pre, ''units''], ur_tokenLimit = of_int tokenLimit\<rparr>"

definition ur_create :: "'r API \<Rightarrow> schemaUnit \<Rightarrow> 'r \<Rightarrow> Response call \<times> 'r" where
  "ur_create cAPI u r =
     (case api_CreateUnit cAPI u r of
        (Panics, r') \<Rightarrow> (Panics, r')
      | (Returns (Some err), r') \<Rightarrow> (Returns (sendError StatusInternalServerError None), r')
      | (Returns None, r') \<Rightarrow> (Returns (header_only StatusCreated), r'))"

definition ur_update :: "'r API \<Rightarrow> string \<Rightarrow> string \<Rightarrow> 'r \<Rightarrow> Response \<times> 'r" where
  "ur_update cAPI name ds r =
     (case api_SetUnitTargetState cAPI name ds r of
        (Some err, r') \<Rightarrow> (sendError StatusInternalServerError None, r')
      | (None, r') \<Rightarrow> (header_only StatusNoContent, r'))"

text \<open>
  Whether the request is for a new unit: an error response, or the decision. The unit files are
  compared by their hashes when there is a unit of that name already.
\<close>

definition ur_new_unit :: "range_order \<Rightarrow> schemaUnit \<Rightarrow> schemaUnit option \<Rightarrow> (Response + bool) call" where
  "ur_new_unit ord su eu =
     (case eu of
        None \<Rightarrow>
          if length (sc_Options su) = 0
          then Returns (Inl (sendError StatusConflict (Some ''unit does not exist and options field empty'')))
          else
            (case ValidateOptions ord (sc_Options su) of
               Panics \<Rightarrow> Panics
             | Returns (Some err) \<Rightarrow> Returns (Inl (sendError StatusBadRequest (Some err)))
             | Returns None \<Rightarrow> Returns (Inr True))
      | Some e \<Rightarrow>
          if sc_Name e = sc_Name su \<and> length (sc_Options su) > 0 then
            (case (MapSchemaUnitOptionsToUnitFile (sc_Options su), MapSchemaUnitOptionsToUnitFile (sc_Options e)) of
               (Returns a, Returns b) \<Rightarrow> Returns (Inr (\<not> MatchUnitFiles a b))
             | _ \<Rightarrow> Panics)
          else Returns (Inr False))"

definition is_template :: "string \<Rightarrow> bool call" where
  \<comment> \<open>a name without a dot has no name information\<close>
  "is_template name = (case NewUnitNameInfo name of None \<Rightarrow> Panics | Some un \<Rightarrow> Returns (IsTemplate un))"

text \<open>A PUT of a unit with a valid name, and the checks before it.\<close>

definition ur_put :: "range_order \<Rightarrow> 'r API \<Rightarrow> schemaUnit \<Rightarrow> 'r \<Rightarrow> Response call \<times> 'r" where
  "ur_put ord cAPI su r =
     (case api_Unit cAPI (sc_Name su) r of
        Inl err \<Rightarrow> (Returns (sendError StatusInternalServerError None), r)
      | Inr eu \<Rightarrow>
     (case ur_new_unit ord su eu of
        Panics \<Rightarrow> (Panics, r)
      | Returns (Inl resp) \<Rightarrow> (Returns resp, r)
      | Returns (Inr newUnit) \<Rightarrow>
          if newUnit then ur_create cAPI su r
          else if length (sc_DesiredState su) = 0
          then (Returns (sendError StatusConflict (Some ''must provide DesiredState to update existing unit'')), r)
          else
            (case is_template (sc_Name su) of
               Panics \<Rightarrow> (Panics, r)
             | Returns tmpl \<Rightarrow>
                 if tmpl \<and> sc_DesiredState su \<noteq> JobStateInactive
                 then (Returns (sendError StatusBadRequest (Some ''cannot activate template'')), r)
                 else (case ur_update cAPI (sc_Name su) (sc_DesiredState su) r of (resp, r') \<Rightarrow> (Returns resp, r')))))"

definition ur_set :: "range_order \<Rightarrow> 'r API \<Rightarrow> Request \<Rightarrow> string \<Rightarrow> 'r \<Rightarrow> Response call \<times> 'r" where
  "ur_set ord cAPI req name r =
     (case validateContentType req of
        Some err \<Rightarrow> (Returns (sendError StatusUnsupportedMediaType (Some err)), r)
      | None \<Rightarrow>
     (case decode_unit (rq_Body req) of
        None \<Rightarrow> (Returns (sendError StatusBadRequest (Some ''unable to decode body'')), r)
      | Some su0 \<Rightarrow>
     (let su = (if sc_Name su0 = [] then su0\<lparr>sc_Name := name\<rparr> else su0) in
      if name \<noteq> sc_Name su
      then (Returns (sendError StatusBadRequest (Some ''name in URL differs from unit name in request body'')), r)
      else
     (case ValidateName (sc_Name su) of
        Some err \<Rightarrow> (Returns (sendError StatusBadRequest (Some err)), r)
      | None \<Rightarrow> ur_put ord cAPI su r))))"

definition ur_destroy :: "'r API \<Rightarrow> string \<Rightarrow> 'r \<Rightarrow> Response \<times> 'r" where
  "ur_destroy cAPI name r =
     (case api_Unit cAPI name r of
        Inl err \<Rightarrow> (sendError StatusInternalServerError None, r)
      | Inr None \<Rightarrow> (sendError StatusNotFound (Some ''unit does not exist''), r)
      | Inr (Some u) \<Rightarrow>
          (case api_DestroyUnit cAPI name r of
             (Some err, r') \<Rightarrow> (sendError StatusInternalServerError None, r')
           | (None, r') \<Rightarrow> (header_only StatusNoContent, r')))"

definition ur_get :: "'r API \<Rightarrow> string \<Rightarrow> 'r \<Rightarrow> Response" where
  "ur_get cAPI name r =
     (case api_Unit cAPI name r of
        Inl err \<Rightarrow> sendError StatusInternalServerError None
      | Inr None \<Rightarrow> sendError StatusNotFound (Some ''unit does not exist'')
      | Inr (Some u) \<Rightarrow> sendResponse StatusOK (enc_schemaUnit u))"

definition ur_list :: "unitsResource \<Rightarrow> 'r API \<Rightarrow> Request \<Rightarrow> 'r \<Rightarrow> Response call" where
  "ur_list ur cAPI req r =
     (case findNextPageToken (query_values req ''nextPageToken'') (ur_tokenLimit ur) of
        Inl err \<Rightarrow> Returns (sendError StatusBadRequest (Some err))
      | Inr token \<Rightarrow>
          (case getUnitPage cAPI (case token of None \<Rightarrow> DefaultPageToken (ur_tokenLimit ur) | Some t \<Rightarrow> t) r of
             Panics \<Rightarrow> Panics
           | Returns (Inl err) \<Rightarrow> Returns (sendError StatusInternalServerError None)
           | Returns (Inr page) \<Rightarrow> Returns (sendResponse StatusOK (enc_UnitPage page))))"

definition ur_ServeHTTP :: "range_order \<Rightarrow> unitsResource \<Rightarrow> 'r API \<Rightarrow> Request \<Rightarrow> 'r \<Rightarrow> Response call \<times> 'r" where
  "ur_ServeHTTP ord ur cAPI req r =
     (if isCollectionPath (ur_basePath ur) (rq_Path req) then
        (if rq_Method req = ''GET'' then (ur_list ur cAPI req r, r)
         else (Returns (sendError StatusMethodNotAllowed (Some ''only GET supported against this resource'')), r))
      else
        (case isItemPath (ur_basePath ur) (rq_Path req) of
           Some name \<Rightarrow>
             if rq_Method req = ''GET'' then (Returns (ur_get cAPI name r), r)
             else if rq_Method req = ''DELETE'' then (case ur_destroy cAPI name r of (resp, r') \<Rightarrow> (Returns resp, r'))
             else if rq_Method req = ''PUT'' then ur_set ord cAPI req name r
             else (Returns (sendError StatusMethodNotAllowed (Some ''only GET, PUT and DELETE supported against this resource'')), r)
         | None \<Rightarrow> (Returns (sendError StatusNotFound None), r)))"

end
