(* ===== verification/Api_Machines.thy ===== *)
theory Api_Machines
  imports Api_Common
begin

text \<open>
  The states of units and the machines in the HTTP interface (\<open>api/state.go\<close>, \<open>api/machines.go\<close>), and
  the handlers of \<open>api/mux.go\<close> and \<open>api/server.go\<close> for everything else.
\<close>

section \<open>Unit states\<close>

record stateResource =
  sr_basePath :: string
  sr_tokenLimit :: "16 word"

definition wireUpStateResource :: "string \<Rightarrow> int \<Rightarrow> stateResource" where
  "wireUpStateResource pre tokenLimit = \<lparr>sr_basePath = path_Join [pre, ''state''], sr_tokenLimit = of_int tokenLimit\<rparr>"

definition first_value :: "string list \<Rightarrow> string" where
  "first_value vs = (case vs of [] \<Rightarrow> [] | v # _ \<Rightarrow> v)"

definition sr_list :: "stateResource \<Rightarrow> 'r API \<Rightarrow> Request \<Rightarrow> 'r \<Rightarrow> Response call" where
  "sr_list sr cAPI req r =
     (case findNextPageToken (query_values req ''nextPageToken'') (sr_tokenLimit sr) of
        Inl err \<Rightarrow> Returns (sendError StatusBadRequest (Some err))
      | Inr token \<Rightarrow>
          (case getUnitStatePage cAPI (first_value (query_values req ''machineID'')) (first_value (query_values req ''unitName''))
                  (case token of None \<Rightarrow> DefaultPageToken (sr_tokenLimit sr) | Some t \<Rightarrow> t) r of
             Panics \<Rightarrow> Panics
           | Returns (Inl err) \<Rightarrow> Returns (sendError StatusInternalServerError None)
           | Returns (Inr page) \<Rightarrow> Returns (sendResponse StatusOK (enc_UnitStatePage page))))"

definition sr_get :: "'r API \<Rightarrow> string \<Rightarrow> 'r \<Rightarrow> Response call" where
  "sr_get cAPI name r =
     (case api_UnitState cAPI name r of
        Panics \<Rightarrow> Panics
      | Returns (Inl err) \<Rightarrow> Returns (sendError StatusInternalServerError None)
      | Returns (Inr None) \<Rightarrow> Returns (sendError StatusNotFound (Some ''unit state does not exist''))
      | Returns (Inr (Some us)) \<Rightarrow> Returns (sendResponse StatusOK (enc_schemaUnitState us)))"

definition sr_ServeHTTP :: "stateResource \<Rightarrow> 'r API \<Rightarrow> Request \<Rightarrow> 'r \<Rightarrow> Response call" where
  "sr_ServeHTTP sr cAPI req r =
     (if isCollectionPath (sr_basePath sr) (rq_Path req) then
        (if rq_Method req = ''GET'' then sr_list sr cAPI req r
         else Returns (sendError StatusMethodNotAllowed (Some ''only GET supported against this resource'')))
      else
        (case isItemPath (sr_basePath sr) (rq_Path req) of
           Some name \<Rightarrow>
             if rq_Method req = ''GET'' then sr_get cAPI name r
             else Returns (sendError StatusMethodNotAllowed (Some ''only GET supported against this resource''))
         | None \<Rightarrow> Returns (sendError StatusNotFound None)))"

section \<open>Machines\<close>

record machinesResource =
  mr_tokenLimit :: "16 word"

definition wireUpMachinesResource :: "int \<Rightarrow> machinesResource" where
  "wireUpMachinesResource tokenLimit = \<lparr>mr_tokenLimit = of_int tokenLimit\<rparr>"

record machineMetadataOp =
  mo_Operation :: string
  mo_Path :: string
  mo_Value :: string

definition zero_op :: machineMetadataOp where
  "zero_op = \<lparr>mo_Operation = [], mo_Path = [], mo_Value = []\<rparr>"

text \<open>The value of an operation is itself a structure, with a field of the same name.\<close>

definition dec_op :: "machineMetadataOp \<Rightarrow> (string \<times> json) list \<Rightarrow> machineMetadataOp option" where
  "dec_op old ms =
     Option.bind (decode_field dec_string ''op'' (mo_Operation old) ms) (\<lambda>oper.
     Option.bind (decode_field dec_string ''path'' (mo_Path old) ms) (\<lambda>p.
     Option.bind (decode_field (dec_struct (\<lambda>v. decode_field dec_string ''value'' v)) ''Value'' (mo_Value old) ms) (\<lambda>v.
     Some \<lparr>mo_Operation = oper, mo_Path = p, mo_Value = v\<rparr>)))"

definition decode_ops :: "string \<Rightarrow> machineMetadataOp list option" where
  "decode_ops body = Option.bind (json_decode body) (dec_slice (dec_struct dec_op) zero_op [])"

text \<open>The machine and the key of a path \<open>/<machine>/metadata/<key>\<close>, as the regular expression captures them.\<close>

definition metadataKeyChar :: "char \<Rightarrow> bool" where
  "metadataKeyChar c \<longleftrightarrow>
     CHR ''A'' \<le> c \<and> c \<le> CHR ''Z'' \<or> CHR ''a'' \<le> c \<and> c \<le> CHR ''z'' \<or> CHR ''0'' \<le> c \<and> c \<le> CHR ''9'' \<or>
     c = CHR ''_'' \<or> c = CHR ''.'' \<or> c = CHR ''-''"

definition metadataPathRegex :: "string \<Rightarrow> (string \<times> string) option" where
  "metadataPathRegex p =
     (case Split p CHR ''/'' of
        [a, m, d, k] \<Rightarrow>
          if a = [] \<and> m \<noteq> [] \<and> d = ''metadata'' \<and> k \<noteq> [] \<and> list_all metadataKeyChar k then Some (m, k) else None
      | _ \<Rightarrow> None)"

definition check_op :: "machineMetadataOp \<Rightarrow> string option" where
  "check_op opr =
     (if mo_Operation opr \<noteq> ''add'' \<and> mo_Operation opr \<noteq> ''remove'' \<and> mo_Operation opr \<noteq> ''replace''
      then Some ''invalid op: expect add, remove, or replace''
      else if metadataPathRegex (mo_Path opr) = None then Some ''machine metadata path invalid''
      else if mo_Operation opr \<noteq> ''remove'' \<and> length (mo_Value opr) = 0
      then Some ''invalid value: add and replace require a value''
      else None)"

fun check_ops :: "machineMetadataOp list \<Rightarrow> string option" where
  "check_ops [] = None"
| "check_ops (opr # ops) = (case check_op opr of Some err \<Rightarrow> Some err | None \<Rightarrow> check_ops ops)"

fun apply_ops :: "'r API \<Rightarrow> machineMetadataOp list \<Rightarrow> 'r \<Rightarrow> string option call \<times> 'r" where
  "apply_ops cAPI [] r = (Returns None, r)"
| "apply_ops cAPI (opr # ops) r =
     (case metadataPathRegex (mo_Path opr) of
        None \<Rightarrow> (Panics, r)
      | Some (machID, key) \<Rightarrow>
          (case (if mo_Operation opr = ''remove'' then api_DeleteMachineMetadata cAPI machID key r
                 else api_SetMachineMetadata cAPI machID key (mo_Value opr) r) of
             (Some err, r') \<Rightarrow> (Returns (Some err), r')
           | (None, r') \<Rightarrow> apply_ops cAPI ops r'))"

definition mr_patch :: "'r API \<Rightarrow> Request \<Rightarrow> 'r \<Rightarrow> Response call \<times> 'r" where
  "mr_patch cAPI req r =
     (case decode_ops (rq_Body req) of
        None \<Rightarrow> (Returns (sendError StatusBadRequest (Some ''unable to decode body'')), r)
      | Some ops \<Rightarrow>
          (case check_ops ops of
             Some err \<Rightarrow> (Returns (sendError StatusBadRequest (Some err)), r)
           | None \<Rightarrow>
               (case apply_ops cAPI ops r of
                  (Panics, r') \<Rightarrow> (Panics, r')
                | (Returns (Some err), r') \<Rightarrow> (Returns (sendError StatusInternalServerError (Some err)), r')
                | (Returns None, r') \<Rightarrow> (Returns (sendResponse StatusNoContent JNull), r'))))"

definition mr_list :: "machinesResource \<Rightarrow> 'r API \<Rightarrow> Request \<Rightarrow> 'r \<Rightarrow> Response call" where
  "mr_list mr cAPI req r =
     (case findNextPageToken (query_values req ''nextPageToken'') (mr_tokenLimit mr) of
        Inl err \<Rightarrow> Returns (sendError StatusBadRequest (Some err))
      | Inr token \<Rightarrow>
          (case getMachinePage cAPI (case token of None \<Rightarrow> DefaultPageToken (mr_tokenLimit mr) | Some t \<Rightarrow> t) r of
             Panics \<Rightarrow> Panics
           | Returns (Inl err) \<Rightarrow> Returns (sendError StatusInternalServerError None)
           | Returns (Inr page) \<Rightarrow> Returns (sendResponse StatusOK (enc_MachinePage page))))"

definition mr_ServeHTTP :: "machinesResource \<Rightarrow> 'r API \<Rightarrow> Request \<Rightarrow> 'r \<Rightarrow> Response call \<times> 'r" where
  "mr_ServeHTTP mr cAPI req r =
     (if rq_Method req = ''GET'' then (mr_list mr cAPI req r, r)
      else if rq_Method req = ''PATCH'' then mr_patch cAPI req r
      else (Returns (sendError StatusMethodNotAllowed (Some ''only GET and PATCH supported against this resource'')), r))"

section \<open>Everything else\<close>

definition methodNotAllowedHandler :: Response where
  "methodNotAllowedHandler = sendError StatusMethodNotAllowed None"

definition baseHandler :: "Request \<Rightarrow> Response" where
  "baseHandler req = sendError (if rq_Path req = ''/'' then StatusMethodNotAllowed else StatusNotFound) None"

definition StatusServiceUnavailable :: nat where "StatusServiceUnavailable = 503"

definition unavailable_ServeHTTP :: Response where
  "unavailable_ServeHTTP = sendError StatusServiceUnavailable (Some ''fleet server unable to communicate with etcd'')"

definition dr_ServeHTTP :: "string \<Rightarrow> Request \<Rightarrow> Response" where
  \<comment> \<open>the first argument is the generated discovery document\<close>
  "dr_ServeHTTP DiscoveryJSON req =
     (if rq_Method req \<noteq> ''GET'' then sendError StatusBadRequest (Some ''only HTTP GET supported against this resource'')
      else \<lparr>rs_Code = StatusOK, rs_Body = DiscoveryJSON\<rparr>)"

section \<open>What the checks of a patch establish\<close>

lemma check_ops_None: "check_ops ops = None \<longleftrightarrow> (\<forall>opr\<in>set ops. check_op opr = None)"
  by (induction ops) (auto split: option.splits)

lemma check_op_path: "check_op opr = None \<Longrightarrow> \<exists>m k. metadataPathRegex (mo_Path opr) = Some (m, k)"
  by (auto simp: check_op_def split: if_splits)

lemma metadataPathRegex_parts:
  assumes "metadataPathRegex p = Some (m, k)"
  shows "m \<noteq> []" "slash \<notin> set m" "k \<noteq> []" "slash \<notin> set k"
proof -
  have s: "Split p CHR ''/'' = [[], m, ''metadata'', k]" "m \<noteq> []" "k \<noteq> []"
    using assms by (auto simp: metadataPathRegex_def split: list.splits if_splits)
  then show "m \<noteq> []" "k \<noteq> []" by auto
  show "slash \<notin> set m" "slash \<notin> set k" using Split_pieces[of _ p "CHR ''/''"] s(1) by auto
qed

end
