(* ===== verification/Api_Laws.thy ===== *)
theory Api_Laws
  imports Api_Units Api_Machines Registry_Etcd_Machines
begin

text \<open>
  What the HTTP interface passes on to the registry: the names it accepts are fit to be keys, the
  responses of a PUT say what was done, and every call on units keeps the invariant of the registry.
\<close>

section \<open>Names that are accepted\<close>

lemma validUnitTypes_elems:
  "us_Contains validUnitTypes t \<Longrightarrow> plain t \<and> ascii t"
proof -
  assume "us_Contains validUnitTypes t"
  then have "t \<in> set [''automount'', ''busname'', ''device'', ''mount'', ''path'', ''scope'', ''service'', ''slice'', ''snapshot'',
      ''socket'', ''swap'', ''target'', ''timer'']"
    unfolding us_Contains_iff validUnitTypes_def using NewUnsafeSet_spec by blast
  moreover have "list_all (\<lambda>t. plain t \<and> ascii t) [''automount'', ''busname'', ''device'', ''mount'', ''path'', ''scope'', ''service'',
      ''slice'', ''snapshot'', ''socket'', ''swap'', ''target'', ''timer'']" by (simp add: plain_def)
  ultimately show ?thesis by (simp only: list_all_iff)
qed

lemma validChars_plain: "c \<in> set validChars \<Longrightarrow> c \<noteq> slash \<and> (of_char c :: nat) < 128"
proof -
  have "list_all (\<lambda>c. c \<noteq> slash \<and> (of_char c :: nat) < 128) validChars" by code_simp
  then show "c \<in> set validChars \<Longrightarrow> ?thesis" unfolding list_all_iff by blast
qed

lemma ValidateName_parts:
  assumes "ValidateName name = None"
  obtains pre suf where "name = pre @ CHR ''.'' # suf" "us_Contains validUnitTypes suf" "list_all (\<lambda>c. c \<in> set validChars) pre"
    "length name \<le> unitNameMax"
proof -
  obtain dot where dot: "LastIndexByte name CHR ''.'' = Some dot" "us_Contains validUnitTypes (drop (dot + 1) name)"
    "list_all (\<lambda>c. c \<in> set validChars) (take dot name)" "length name \<le> unitNameMax"
    using assms by (auto simp: ValidateName_def Let_def split: if_splits option.splits)
  have "dot < length name" "name ! dot = CHR ''.''" using LastIndexByte_SomeD[OF dot(1)] by simp_all
  then have "name = take dot name @ CHR ''.'' # drop (dot + 1) name" using id_take_nth_drop[of dot name] by simp
  with dot that show thesis by blast
qed

lemma ValidateName_plain:
  assumes "ValidateName name = None"
  shows "plain name" "ascii name"
proof -
  obtain pre suf where n: "name = pre @ CHR ''.'' # suf" "us_Contains validUnitTypes suf" "list_all (\<lambda>c. c \<in> set validChars) pre"
    by (rule ValidateName_parts[OF assms])
  have s: "suf \<noteq> []" "slash \<notin> set suf" "suf \<noteq> ''.''" "ascii suf" using validUnitTypes_elems[OF n(2)] by (simp_all add: plain_def)
  have p: "slash \<notin> set pre" "ascii pre" using n(3) validChars_plain by (auto simp: list_all_iff ascii_def)
  have "name \<noteq> ''.''" "name \<noteq> ''..''" using n(1) s by (auto simp: append_eq_Cons_conv)
  with n(1) s p show "plain name" "ascii name" by (auto simp: plain_def)
qed

section \<open>The response of a PUT\<close>

lemma sendError_code [simp]: "rs_Code (sendError c m) = c"
  by (simp add: sendError_def sendResponse_def)

text \<open>A PUT of a unit leaves the state alone, or it creates the unit, or it sets its target state.\<close>

lemma ur_put_cases:
  assumes "ur_put ord cAPI su r = (resp, r')"
  obtains (refused) "r' = r" "\<forall>rs. resp = Returns rs \<longrightarrow> rs_Code rs \<in> {400, 409, 415, 500}"
    | (created) "ur_create cAPI su r = (resp, r')"
    | (updated) rs where "sc_DesiredState su \<noteq> []" "ur_update cAPI (sc_Name su) (sc_DesiredState su) r = (rs, r')" "resp = Returns rs"
proof (cases "api_Unit cAPI (sc_Name su) r")
  case (Inl err)
  then show thesis using assms by (intro refused) (auto simp: ur_put_def status_codes)
next
  case (Inr eu)
  show thesis
  proof (cases "ur_new_unit ord su eu")
    case Panics
    then show thesis using assms Inr by (intro refused) (auto simp: ur_put_def)
  next
    case (Returns d)
    show thesis
    proof (cases d)
      case (Inl rs)
      have "rs_Code rs \<in> {400, 409}"
        using Returns Inl by (auto simp: ur_new_unit_def status_codes split: option.splits if_splits call.splits)
      then show thesis using assms \<open>api_Unit cAPI (sc_Name su) r = Inr eu\<close> Returns Inl by (intro refused) (auto simp: ur_put_def)
    next
      case (Inr newUnit)
      then show thesis
        using assms \<open>api_Unit cAPI (sc_Name su) r = Inr eu\<close> Returns refused created updated
        by (auto simp: ur_put_def status_codes split: if_splits call.splits prod.splits)
    qed
  qed
qed

lemma ur_set_cases:
  assumes "ur_set ord cAPI req name r = (resp, r')"
  obtains (refused) "r' = r" "\<forall>rs. resp = Returns rs \<longrightarrow> rs_Code rs \<in> {400, 409, 415, 500}"
    | (passed) su where "decode_unit (rq_Body req) = Some su" "ValidateName name = None"
        "ur_put ord cAPI (su\<lparr>sc_Name := name\<rparr>) r = (resp, r')"
proof (cases "decode_unit (rq_Body req)")
  case None
  then show thesis using assms by (intro refused) (auto simp: ur_set_def status_codes split: option.splits)
next
  case (Some su)
  define su' where "su' = (if sc_Name su = [] then su\<lparr>sc_Name := name\<rparr> else su)"
  show thesis
  proof (cases "validateContentType req = None \<and> name = sc_Name su' \<and> ValidateName name = None")
    case True
    moreover have "su' = su\<lparr>sc_Name := name\<rparr>" using True by (auto simp: su'_def)
    ultimately show thesis using assms Some passed by (auto simp: ur_set_def Let_def su'_def[symmetric])
  next
    case False
    then have "(resp, r') \<in> (\<lambda>c. (Returns c, r)) ` {rs. rs_Code rs \<in> {400, 415}}"
      unfolding assms[symmetric] using Some
      by (auto simp: ur_set_def Let_def su'_def[symmetric] status_codes image_iff split: option.split)
    then show thesis by (intro refused) auto
  qed
qed

section \<open>The interface on the registry in etcd\<close>

abbreviation etcd_client :: "(MUSKey list \<Rightarrow> MUSKey list) \<Rightarrow> 'e KeysAPI \<Rightarrow> string \<Rightarrow> 'e API" where
  "etcd_client srt api keyPrefix \<equiv> RegistryClient (NewEtcdRegistry srt api keyPrefix)"

text \<open>The unit a request asks for.\<close>

definition requested_unit :: "schemaUnit \<Rightarrow> UnitFile \<Rightarrow> Unit" where
  "requested_unit su uf =
     \<lparr>u_Name = sc_Name su, u_Unit = uf, u_TargetState = (if sc_DesiredState su = [] then JobStateInactive else sc_DesiredState su)\<rparr>"

lemma etcd_create_cases:
  assumes "rc_CreateUnit (NewEtcdRegistry srt api keyPrefix) su e = (resp, e')"
  obtains (panics) "resp = Panics" "e' = e"
    | (parse) err where "resp = Returns (Some err)" "e' = e"
    | (called) uf eo where "MapSchemaUnitOptionsToUnitFile (sc_Options su) = Returns uf"
        "er_CreateUnit api keyPrefix (requested_unit su uf) e = (eo, e')" "resp = Returns (map_option err_text eo)"
        "u_TargetState (requested_unit su uf) \<in> {JobStateInactive, JobStateLoaded, JobStateLaunched}"
proof (cases "MapSchemaUnitOptionsToUnitFile (sc_Options su)")
  case Panics
  then show thesis using assms panics by (simp add: rc_CreateUnit_def)
next
  case (Returns uf)
  let ?p = "if length (sc_DesiredState su) > 0 then ParseJobState (sc_DesiredState su) else (JobStateInactive, None)"
  show thesis
  proof (cases "snd ?p")
    case (Some err)
    then show thesis using assms Returns parse by (cases ?p) (auto simp: rc_CreateUnit_def)
  next
    case None
    have p: "?p = (u_TargetState (requested_unit su uf), None)"
      "u_TargetState (requested_unit su uf) \<in> {JobStateInactive, JobStateLoaded, JobStateLaunched}"
      using None by (auto simp: requested_unit_def ParseJobState_def split: if_splits)
    have "\<lparr>u_Name = sc_Name su, u_Unit = uf, u_TargetState = u_TargetState (requested_unit su uf)\<rparr> = requested_unit su uf"
      by (simp add: requested_unit_def)
    then show thesis
      using assms Returns p called
      by (auto simp: rc_CreateUnit_def NewEtcdRegistry_def text_error_def map_prod_def split: prod.splits)
  qed
qed

context etcd_registry
begin

lemma api_create_quiet:
  assumes "registry_inv keyPrefix (store e)" "plain (sc_Name su)" "ascii (sc_Name su)"
    and "ur_create (etcd_client srt api keyPrefix) su e = (resp, e')"
  shows "quiet e e'"
proof -
  obtain r where "rc_CreateUnit (NewEtcdRegistry srt api keyPrefix) su e = (r, e')"
    using assms(4) by (auto simp: ur_create_def RegistryClient_def split: prod.splits call.splits option.splits)
  then show ?thesis
  proof (cases rule: etcd_create_cases)
    case (called uf eo)
    show ?thesis by (rule create_quiet[OF assms(1) _ _ called(2)]) (use assms(2,3) in \<open>simp_all add: requested_unit_def\<close>)
  qed (use assms(1) in \<open>simp_all add: quiet_def\<close>)
qed

lemma api_set_quiet:
  assumes inv: "registry_inv keyPrefix (store e)" and "ur_set ord (etcd_client srt api keyPrefix) req name e = (resp, e')"
  shows "quiet e e'"
  using assms(2)
proof (cases rule: ur_set_cases)
  case refused
  then show ?thesis using inv by (simp add: quiet_def)
next
  case (passed su)
  note n = ValidateName_plain[OF passed(2)]
  from passed(3) show ?thesis
  proof (cases rule: ur_put_cases)
    case refused
    then show ?thesis using inv by (simp add: quiet_def)
  next
    case created
    show ?thesis by (rule api_create_quiet[OF inv _ _ created]) (use n in simp_all)
  next
    case (updated rs)
    obtain eo where "er_SetUnitTargetState api keyPrefix name (sc_DesiredState su) e = (eo, e')"
      using updated(2)
      by (auto simp: ur_update_def RegistryClient_def rc_SetUnitTargetState_def NewEtcdRegistry_def text_error_def map_prod_def
          split: prod.splits option.splits)
    from call_quiet[OF registry_call.SetUnitTargetState[OF n(1) this] inv] show ?thesis .
  qed
qed

lemma api_destroy_quiet:
  assumes inv: "registry_inv keyPrefix (store e)" and "plain name" "ur_destroy (etcd_client srt api keyPrefix) name e = (resp, e')"
  shows "quiet e e'"
proof -
  have "e' = e \<or> (\<exists>eo. er_DestroyUnit api keyPrefix name e = (eo, e'))"
    using assms(3)
    by (auto simp: ur_destroy_def RegistryClient_def NewEtcdRegistry_def text_error_def map_prod_def
        split: prod.splits option.splits sum.splits)
  then show ?thesis
    using call_quiet[OF registry_call.DestroyUnit[OF assms(2)] inv] inv by (auto simp: quiet_def)
qed

lemma api_units_quiet:
  assumes inv: "registry_inv keyPrefix (store e)" and "\<And>name. isItemPath (ur_basePath ur) (rq_Path req) = Some name \<Longrightarrow> plain name"
    and "ur_ServeHTTP ord ur (etcd_client srt api keyPrefix) req e = (resp, e')"
  shows "quiet e e'"
proof -
  have refl: "quiet e e" using inv by (simp add: quiet_def)
  consider "e' = e" | name where "isItemPath (ur_basePath ur) (rq_Path req) = Some name"
      "\<exists>rs. ur_destroy (etcd_client srt api keyPrefix) name e = (rs, e')"
    | name where "ur_set ord (etcd_client srt api keyPrefix) req name e = (resp, e')"
    using assms(3) by (auto simp: ur_ServeHTTP_def split: if_splits option.splits prod.splits)
  then show ?thesis
    using refl api_set_quiet[OF inv] api_destroy_quiet[OF inv assms(2)] by cases auto
qed

text \<open>What was put is got.\<close>

lemma api_put_get:
  assumes inv: "registry_inv keyPrefix (store e)"
    and put: "ur_set ord (etcd_client srt api keyPrefix) req name e = (Returns resp, e')" "rs_Code resp = StatusCreated"
    and su: "decode_unit (rq_Body req) = Some su" "MapSchemaUnitOptionsToUnitFile (sc_Options su) = Returns uf"
    and uf: "ascii (uf_String uf)" "list_all option_ok (uf_Options uf)" "grouped (uf_Options uf)" "hash_slot_ok keyPrefix (store e) uf"
    and ans: "reads_answered api store e'" and so: "er_ScheduledUnit api keyPrefix name e' = Inr so"
  shows "\<exists>u. ur_get (etcd_client srt api keyPrefix) name e' = sendResponse StatusOK (enc_schemaUnit u) \<and>
    sc_Name u = name \<and> sc_Options u = sc_Options su \<and>
    sc_DesiredState u = (if sc_DesiredState su = [] then JobStateInactive else sc_DesiredState su)"
proof -
  let ?su = "su\<lparr>sc_Name := name\<rparr>"
  have vn: "ValidateName name = None" and "ur_create (etcd_client srt api keyPrefix) ?su e = (Returns resp, e')"
    using put su(1)
    by (auto elim!: ur_set_cases ur_put_cases simp: StatusCreated_def ur_update_def status_codes header_only_def
        split: prod.splits option.splits)
  then have "rc_CreateUnit (NewEtcdRegistry srt api keyPrefix) ?su e = (Returns None, e')"
    using put(2) by (auto simp: ur_create_def RegistryClient_def status_codes split: prod.splits call.splits option.splits)
  then obtain uf' where u: "MapSchemaUnitOptionsToUnitFile (sc_Options ?su) = Returns uf'"
    "er_CreateUnit api keyPrefix (requested_unit ?su uf') e = (None, e')"
    "u_TargetState (requested_unit ?su uf') \<in> {JobStateInactive, JobStateLoaded, JobStateLaunched}"
    by (cases rule: etcd_create_cases) auto
  define u where "u = requested_unit ?su uf"
  have uf': "uf' = uf" using u(1) su(2) by simp
  have opts: "uf = NewUnitFromOptions (uf_Options uf)" "None \<notin> set (sc_Options su)"
    "uf_Options uf = map (\<lambda>sopt. unit_option (the sopt)) (sc_Options su)"
    using su(2) by (auto simp: MapSchemaUnitOptionsToUnitFile_def NewUnitFromOptions_def split: if_splits)
  have st: "storable u"
    using ValidateName_plain[OF vn] uf(1-3) opts(1) u(3) uf' by (auto simp: storable_def u_def requested_unit_def)
  have "er_Unit api keyPrefix name e' = Inr (Some u)"
    using create_then_read[OF inv st _ u(2)[unfolded uf', folded u_def] ans] uf(4) by (simp add: u_def requested_unit_def)
  then have "\<exists>so. rc_Unit (NewEtcdRegistry srt api keyPrefix) name e' = Inr (Some (MapUnitToSchemaUnit u so))"
    using so by (auto simp: rc_Unit_def NewEtcdRegistry_def text_result_def)
  moreover have "MapUnitFileToSchemaUnitOptions uf = sc_Options su"
    unfolding MapUnitFileToSchemaUnitOptions_def opts(3) map_map
  proof (rule map_idI)
    fix x assume "x \<in> set (sc_Options su)"
    with opts(2) obtain o' where "x = Some o'" by (cases x) auto
    then show "((\<lambda>opt. Some \<lparr>so_Name = uo_Name opt, so_Section = uo_Section opt, so_Value = uo_Value opt\<rparr>) \<circ>
        (\<lambda>sopt. unit_option (the sopt))) x = x" by (simp add: unit_option_def)
  qed
  ultimately show ?thesis
    by (auto simp: ur_get_def RegistryClient_def MapUnitToSchemaUnit_def u_def requested_unit_def)
qed

end

end
