(* ===== verification/Props_Api.thy ===== *)
theory Props_Api
  imports Api_Client Api_Laws Registry_Examples
begin

text \<open>
  The properties of the HTTP interface: pages, the units it stores and gives back, and the requests
  it does not handle as it means to.
\<close>

section \<open>Pages\<close>

text \<open>
  C16. A client that lists units, unit states or machines page by page gets all of them, each once and
  in order, from a server whose collection does not change meanwhile, and its loop ends. The page size
  must not be zero, and the collection with one more page must be within 16 bits.
\<close>

theorem http_client_gets_all:
  assumes "0 < unat limit" "length units + unat limit < 65536" "length states + unat limit < 65536" "length machines + unat limit < 65536"
    and "api_Units cAPI r = Inr units" "api_UnitStates cAPI r = Inr states" "api_Machines cAPI r = Inr machines"
  shows "hc_Units (served (\<lambda>tok. getUnitPage cAPI tok r) limit) = Some (Inr units) \<and>
    hc_UnitStates (served (\<lambda>tok. getUnitStatePage cAPI [] [] tok r) limit) = Some (Inr states) \<and>
    hc_Machines (served (\<lambda>tok. getMachinePage cAPI tok r) limit) =
      Some (Inr (map (\<lambda>ms. hd (MapSchemaToMachineStates [MapMachineStateToSchema ms])) machines))"
proof (intro conjI)
  show "hc_Units (served (\<lambda>tok. getUnitPage cAPI tok r) limit) = Some (Inr units)"
    unfolding hc_Units_def
    using served_complete[OF assms(1,2), of "\<lambda>tok. getUnitPage cAPI tok r" "\<lambda>items next. \<lparr>up_NextPageToken = next_token next, up_Units = items\<rparr>"
        "\<lambda>page. (up_Units page, up_NextPageToken page)" "\<lambda>u. u"] assms(5)
    by (simp add: getUnitPage_def extractUnitPageData_def split: call.split)
  show "hc_UnitStates (served (\<lambda>tok. getUnitStatePage cAPI [] [] tok r) limit) = Some (Inr states)"
    unfolding hc_UnitStates_def
    using served_complete[OF assms(1,3), of "\<lambda>tok. getUnitStatePage cAPI [] [] tok r"
        "\<lambda>items next. \<lparr>usp_NextPageToken = next_token next, usp_States = items\<rparr>" "\<lambda>page. (usp_States page, usp_NextPageToken page)" "\<lambda>u. u"] assms(6)
    by (simp add: getUnitStatePage_def extractUnitStatePageData_def split: call.split)
  let ?g = "\<lambda>ms. hd (MapSchemaToMachineStates [MapMachineStateToSchema ms])"
  have m: "MapSchemaToMachineStates (map MapMachineStateToSchema items) = map ?g items" for items
    by (simp add: MapSchemaToMachineStates_def)
  show "hc_Machines (served (\<lambda>tok. getMachinePage cAPI tok r) limit) = Some (Inr (map ?g machines))"
    unfolding hc_Machines_def
    by (rule served_complete[OF assms(1,4), where mk = newMachinePage])
      (auto simp: getMachinePage_def extractMachinePage_def newMachinePage_def m assms(7) split: call.split)
qed

definition ex_listed :: "unit API" where
  "ex_listed =
     \<lparr>api_Machines = (\<lambda>_. Inr [zero_machine\<lparr>ms_ID := ''m1''\<rparr>]), api_SetMachineMetadata = (\<lambda>_ _ _ r. (None, r)),
      api_DeleteMachineMetadata = (\<lambda>_ _ r. (None, r)), api_Unit = (\<lambda>_ _. Inr None),
      api_Units = (\<lambda>_. Inr (map (\<lambda>n. zero_schema_unit\<lparr>sc_Name := n\<rparr>) [''a.service'', ''b.service'', ''c.service''])),
      api_UnitState = (\<lambda>_ _. Panics), api_UnitStates = (\<lambda>_. Inr []), api_SetUnitTargetState = (\<lambda>_ _ r. (None, r)),
      api_CreateUnit = (\<lambda>_ r. (Returns None, r)), api_DestroyUnit = (\<lambda>_ r. (None, r))\<rparr>"

theorem http_client_gets_all_witness:
  "hc_Units (served (\<lambda>tok. getUnitPage ex_listed tok ()) 2) =
     Some (Inr (map (\<lambda>n. zero_schema_unit\<lparr>sc_Name := n\<rparr>) [''a.service'', ''b.service'', ''c.service'']))"
  using http_client_gets_all[of 2 "map (\<lambda>n. zero_schema_unit\<lparr>sc_Name := n\<rparr>) [''a.service'', ''b.service'', ''c.service'']"
      "[]" "[zero_machine\<lparr>ms_ID := ''m1''\<rparr>]" ex_listed "()"] by (simp add: ex_listed_def)

text \<open>
  C34. The page a token stands for is the right slice of the collection as long as the end of the page
  is within 16 bits, with a token for the next page exactly when there may be more. Beyond that the
  indices wrap: the second page of 40000 units of 50000 ends before it starts, and the handler panics.
\<close>

theorem page_bounds:
  assumes "0 < k" "k * unat limit < 65536"
  shows "extractUnitPageData all (page_no limit k) =
      Returns (take (unat limit) (drop ((k - 1) * unat limit) all),
        if k * unat limit \<le> length all \<and> (k - 1) * unat limit < length all then Some (page_no limit (Suc k)) else None) \<and>
    extractUnitPageData (replicate 50000 u) (page_no 40000 2) = Panics"
  using page_data_exact[OF assms, of all]
  by (simp add: extractUnitPageData_def page_data_def page_no_def Let_def)

theorem page_bounds_witness:
  "extractUnitPageData [zero_schema_unit] (page_no 1 1) = Returns ([zero_schema_unit], Some (page_no 1 2))"
  using page_bounds[of 1 1 "[zero_schema_unit]"] by (simp add: numeral_2_eq_2)

section \<open>Units\<close>

definition ex_put :: "string \<Rightarrow> Request" where
  "ex_put body = \<lparr>rq_Method = ''PUT'', rq_Path = ''/fleet/v1/units/web.service'', rq_ContentType = [''application/json''], rq_Query = [],
     rq_Body = body\<rparr>"

definition ex_schema_unit :: schemaUnit where
  "ex_schema_unit = zero_schema_unit\<lparr>sc_DesiredState := ''launched'', sc_Name := ''web.service'',
     sc_Options := [Some \<lparr>so_Name = ''Conflicts'', so_Section = ''X-Fleet'', so_Value = ''db*''\<rparr>]\<rparr>"

definition ex_body :: string where "ex_body = json_print (enc_schemaUnit ex_schema_unit)"

lemma ex_put_parts:
  "validateContentType (ex_put body) = None" "decode_unit ex_body = Some ex_schema_unit" "ValidateName ''web.service'' = None"
proof -
  have "TrimSpace (hd (Split ''application/json'' CHR '';'')) = ''application/json''" by code_simp
  then show "validateContentType (ex_put body) = None" by (simp add: validateContentType_def ex_put_def)
  show "decode_unit ex_body = Some ex_schema_unit" "ValidateName ''web.service'' = None" by code_simp+
qed

lemma ex_put_created:
  "ur_set keep_order (etcd_client (\<lambda>ks. ks) local_etcd DefaultKeyPrefix) (ex_put ex_body) ''web.service'' ex_store0 =
     (Returns (header_only StatusCreated), ex_created ''web.service'')"
proof -
  let ?C = "etcd_client (\<lambda>ks. ks) local_etcd DefaultKeyPrefix"
  have "er_Unit local_etcd DefaultKeyPrefix ''web.service'' ex_store0 = Inr None" by code_simp
  then have a: "api_Unit ?C ''web.service'' ex_store0 = Inr None"
    by (simp add: RegistryClient_def rc_Unit_def NewEtcdRegistry_def text_result_def)
  have "ValidateOptions keep_order (sc_Options ex_schema_unit) = Returns None" "sc_Options ex_schema_unit \<noteq> []" by code_simp+
  then have n: "ur_new_unit keep_order ex_schema_unit None = Returns (Inr True)" by (simp add: ur_new_unit_def)
  have u: "MapSchemaUnitOptionsToUnitFile (sc_Options ex_schema_unit) = Returns (u_Unit (ex_new_unit ''web.service''))"
    by (simp add: MapSchemaUnitOptionsToUnitFile_def ex_schema_unit_def ex_new_unit_def unit_option_def ex_option_def)
  have "ParseJobState ''launched'' = (''launched'', None)" by code_simp
  then have "api_CreateUnit ?C ex_schema_unit ex_store0 = (Returns None, ex_created ''web.service'')"
    using u ex_create[OF ex_web(1)]
    by (simp add: RegistryClient_def rc_CreateUnit_def NewEtcdRegistry_def text_error_def ex_schema_unit_def ex_new_unit_def JobStateLaunched_def)
  moreover have "sc_Name ex_schema_unit = ''web.service''" by (simp add: ex_schema_unit_def)
  ultimately show ?thesis
    using a n ex_put_parts by (simp add: ur_set_def ex_put_def ur_put_def ur_create_def)
qed

text \<open>
  C11. What is put is got: after a PUT that was answered with 201, a GET of the same name is answered
  with 200 and the unit with the same options in the same order and the desired state that was asked
  for, through the interface, the client, the registry, JSON and etcd. The options must be such that a
  unit file can hold them, grouped by section.
\<close>

theorem put_then_get:
  assumes "etcd api store" "rooted_path keyPrefix" "registry_inv keyPrefix (store e)"
    and "ur_set ord (etcd_client srt api keyPrefix) req name e = (Returns resp, e')" "rs_Code resp = StatusCreated"
    and "decode_unit (rq_Body req) = Some su" "MapSchemaUnitOptionsToUnitFile (sc_Options su) = Returns uf"
    and "ascii (uf_String uf)" "list_all option_ok (uf_Options uf)" "grouped (uf_Options uf)" "hash_slot_ok keyPrefix (store e) uf"
    and "reads_answered api store e'" "er_ScheduledUnit api keyPrefix name e' = Inr so"
  shows "\<exists>u. ur_get (etcd_client srt api keyPrefix) name e' = sendResponse StatusOK (enc_schemaUnit u) \<and>
    sc_Name u = name \<and> sc_Options u = sc_Options su \<and>
    sc_DesiredState u = (if sc_DesiredState su = [] then JobStateInactive else sc_DesiredState su)"
  by (rule etcd_registry.api_put_get[OF etcd_registry_intro[OF assms(1,2)] assms(3-13)])

theorem put_then_get_witness:
  "\<exists>u. ur_get (etcd_client (\<lambda>ks. ks) local_etcd DefaultKeyPrefix) ''web.service'' (ex_created ''web.service'') =
       sendResponse StatusOK (enc_schemaUnit u) \<and>
     sc_Options u = sc_Options ex_schema_unit \<and> sc_DesiredState u = ''launched''"
proof -
  let ?uf = "u_Unit (ex_new_unit ''web.service'')"
  have n: "plain ''web.service''" "ascii ''web.service''" by (simp add: plain_def, code_simp)
  have d: "decode_unit (rq_Body (ex_put ex_body)) = Some ex_schema_unit" using ex_put_parts(2) by (simp add: ex_put_def)
  have u: "MapSchemaUnitOptionsToUnitFile (sc_Options ex_schema_unit) = Returns ?uf"
    by (simp add: MapSchemaUnitOptionsToUnitFile_def ex_schema_unit_def ex_new_unit_def unit_option_def ex_option_def)
  have st: "ascii (uf_String ?uf)" "list_all option_ok (uf_Options ?uf)" "grouped (uf_Options ?uf)"
    using ex_new_unit_storable(1)[OF n] by (simp_all add: storable_def)
  have p: "comps DefaultKeyPrefix = [''_coreos.com'', ''fleet'']" by code_simp
  have s: "etcd_sched DefaultKeyPrefix (ex_created ''web.service'') ''web.service'' = None"
    by (simp add: etcd_sched_def files_def job_key_def p ex_created_def)
  have "registry_inv DefaultKeyPrefix (ex_created ''web.service'')"
    using etcd_registry.create_quiet[OF ex_local ex_store0_inv _ _ ex_create[OF n(1)]] n
    by (simp add: etcd_registry.quiet_def[OF ex_local] ex_new_unit_def)
  then obtain so where so: "er_ScheduledUnit local_etcd DefaultKeyPrefix ''web.service'' (ex_created ''web.service'') = Inr so"
    using etcd_registry.unscheduled_unit_read[OF ex_local _ n(1) s local_answers] registry_inv_parts(3) by blast
  have c: "rs_Code (header_only StatusCreated) = StatusCreated" by (simp add: header_only_def)
  show ?thesis
    using put_then_get[OF local_etcd_contract ex_prefix_rooted ex_store0_inv ex_put_created c d u st ex_new_unit_storable(2)[OF n]
        local_answers so] by (auto simp: ex_schema_unit_def)
qed

text \<open>
  C13. No request on units can break the registry: whatever method, path, content type and body it has,
  and whether it is served, refused, fails or panics, the store keeps its invariant and the leases
  their holders. The names the interface accepts for a PUT are fit to be keys; the name of a DELETE
  is one that is left in a cleaned path.
\<close>

theorem units_requests_keep_invariant:
  assumes "etcd api store" "rooted_path keyPrefix" "registry_inv keyPrefix (store e)"
    and "\<And>name. isItemPath (ur_basePath ur) (rq_Path req) = Some name \<Longrightarrow> plain name"
    and "ur_ServeHTTP ord ur (etcd_client srt api keyPrefix) req e = (resp, e')"
  shows "registry_inv keyPrefix (store e') \<and> lease_holder keyPrefix (store e') = lease_holder keyPrefix (store e)"
proof -
  note loc = etcd_registry_intro[OF assms(1,2)]
  show ?thesis
    using etcd_registry.api_units_quiet[OF loc assms(3-5)] by (simp add: etcd_registry.quiet_def[OF loc])
qed

theorem units_requests_keep_invariant_witness:
  "registry_inv DefaultKeyPrefix (snd (ur_ServeHTTP keep_order (wireUpUnitsResource ''/fleet/v1'' 100)
     (etcd_client (\<lambda>ks. ks) local_etcd DefaultKeyPrefix) ((ex_put [])\<lparr>rq_Method := ''DELETE''\<rparr>) ex_waiting))"
proof -
  have "isItemPath (ur_basePath (wireUpUnitsResource ''/fleet/v1'' 100)) ''/fleet/v1/units/web.service'' = Some ''web.service''"
    by code_simp
  then have it: "plain name"
    if "isItemPath (ur_basePath (wireUpUnitsResource ''/fleet/v1'' 100)) (rq_Path ((ex_put [])\<lparr>rq_Method := ''DELETE''\<rparr>)) = Some name" for name
    using ex_web(1) that by (simp add: ex_put_def)
  show ?thesis
    by (rule units_requests_keep_invariant[OF local_etcd_contract ex_prefix_rooted ex_waiting_inv it surjective_pairing, THEN conjunct1])
qed





section \<open>Machines\<close>

definition ex_patch :: "string \<Rightarrow> Request" where
  "ex_patch body = \<lparr>rq_Method = ''PATCH'', rq_Path = ''/fleet/v1/machines'', rq_ContentType = [''application/json''], rq_Query = [],
     rq_Body = body\<rparr>"

text \<open>The body of a patch with one operation that adds a value.\<close>

definition ex_add :: "string \<Rightarrow> json \<Rightarrow> string" where
  "ex_add path v = json_print (JArr [JObj [(''op'', JStr ''add''), (''path'', JStr path), (''value'', v)]])"

text \<open>A value given as the documentation has it, as a string, is refused.\<close>

lemma documented_patch_refused:
  "mr_patch cAPI (ex_patch (ex_add ''/m1/metadata/disk'' (JStr ''ssd''))) r =
     (Returns (sendError StatusBadRequest (Some ''unable to decode body'')), r)"
proof -
  have "decode_ops (ex_add ''/m1/metadata/disk'' (JStr ''ssd'')) = None" by code_simp
  then show ?thesis by (simp add: mr_patch_def ex_patch_def)
qed


end
