(* ===== verification/Rpc_Messages.thy ===== *)
theory Rpc_Messages
  imports Schema
begin

text \<open>
  The messages of the gRPC registry service (\<open>protobuf/fleet.pb.go\<close>) as far as the registry uses
  them, and the conversions between them and the program's own types (\<open>job/job_protobuf.go\<close>,
  \<open>unit/unit_protobuf.go\<close>, \<open>registry/rpc/rpcutils.go\<close>). An enumeration of the wire is a 32-bit
  integer, so a message can carry a target state that has no name; the text of a message on the wire
  is not modelled.
\<close>

section \<open>Messages\<close>

type_synonym TargetState = "32 word"

definition TargetState_INACTIVE :: TargetState where "TargetState_INACTIVE = 0"
definition TargetState_LOADED :: TargetState where "TargetState_LOADED = 1"
definition TargetState_LAUNCHED :: TargetState where "TargetState_LAUNCHED = 2"

lemmas TargetState_defs = TargetState_INACTIVE_def TargetState_LOADED_def TargetState_LAUNCHED_def

record pbUnitOption =
  pbo_Section :: string
  pbo_Name :: string
  pbo_Value :: string

record pbUnitFile =
  pbf_UnitOptions :: "pbUnitOption list"

record pbUnit =
  pbu_Name :: string
  pbu_Unit :: pbUnitFile
  pbu_DesiredState :: TargetState

record pbScheduledUnit =
  pbs_Name :: string
  pbs_CurrentState :: TargetState
  pbs_MachineID :: string

record pbUnitState =
  pbt_Name :: string
  pbt_Hash :: string
  pbt_LoadState :: string
  pbt_ActiveState :: string
  pbt_SubState :: string
  pbt_MachineID :: string

datatype ServingStatus = UNKNOWN | SERVING | NOT_SERVING

section \<open>From the program's types to messages\<close>

definition JobState_ToPB :: "JobState \<Rightarrow> TargetState" where
  "JobState_ToPB state =
     (if state = JobStateInactive then TargetState_INACTIVE
      else if state = JobStateLoaded then TargetState_LOADED
      else if state = JobStateLaunched then TargetState_LAUNCHED
      else TargetState_LOADED)"

definition UnitFile_ToPB :: "UnitFile \<Rightarrow> pbUnitFile" where
  "UnitFile_ToPB uf =
     \<lparr>pbf_UnitOptions = map (\<lambda>opt. \<lparr>pbo_Section = uo_Section opt, pbo_Name = uo_Name opt, pbo_Value = uo_Value opt\<rparr>)
        (uf_Options uf)\<rparr>"

definition UnitState_ToPB :: "UnitState \<Rightarrow> pbUnitState" where
  "UnitState_ToPB s =
     \<lparr>pbt_Name = us_UnitName s, pbt_Hash = us_UnitHash s, pbt_LoadState = us_LoadState s,
      pbt_ActiveState = us_ActiveState s, pbt_SubState = us_SubState s, pbt_MachineID = us_MachineID s\<rparr>"

definition Unit_ToPB :: "Unit \<Rightarrow> pbUnit" where
  "Unit_ToPB u =
     \<lparr>pbu_Name = u_Name u, pbu_Unit = UnitFile_ToPB (u_Unit u), pbu_DesiredState = JobState_ToPB (u_TargetState u)\<rparr>"

definition ScheduledUnit_ToPB :: "ScheduledUnit \<Rightarrow> pbScheduledUnit call" where
  \<comment> \<open>the state is a pointer the method dereferences\<close>
  "ScheduledUnit_ToPB u =
     (case su_State u of
        None \<Rightarrow> Panics
      | Some state \<Rightarrow> Returns \<lparr>pbs_Name = su_Name u, pbs_CurrentState = JobState_ToPB state, pbs_MachineID = su_TargetMachineID u\<rparr>)"

section \<open>And back\<close>

definition rpcUnitStateToJobState :: "TargetState \<Rightarrow> JobState" where
  "rpcUnitStateToJobState state =
     (if state = TargetState_INACTIVE then JobStateInactive
      else if state = TargetState_LOADED then JobStateLoaded
      else if state = TargetState_LAUNCHED then JobStateLaunched
      else JobStateInactive)"

definition rpcUnitStateToExtUnitState :: "pbUnitState \<Rightarrow> UnitState" where
  "rpcUnitStateToExtUnitState state =
     \<lparr>us_LoadState = pbt_LoadState state, us_ActiveState = pbt_ActiveState state, us_SubState = pbt_SubState state,
      us_MachineID = pbt_MachineID state, us_UnitHash = pbt_Hash state, us_UnitName = pbt_Name state\<rparr>"

definition rpcUnitToJobUnit :: "pbUnit \<Rightarrow> Unit" where
  "rpcUnitToJobUnit u =
     (let unitOptions = map (\<lambda>option. \<lparr>uo_Section = pbo_Section option, uo_Name = pbo_Name option, uo_Value = pbo_Value option\<rparr>)
        (pbf_UnitOptions (pbu_Unit u))
      in \<lparr>u_Name = pbu_Name u, u_Unit = NewUnitFromOptions unitOptions, u_TargetState = rpcUnitStateToJobState (pbu_DesiredState u)\<rparr>)"

section \<open>Round trips\<close>

text \<open>
  The units that survive the wire: the contents of the unit file are those of its options, and the
  target state is one of the three.
\<close>

definition job_state :: "JobState \<Rightarrow> bool" where
  "job_state s \<longleftrightarrow> s \<in> {JobStateInactive, JobStateLoaded, JobStateLaunched}"

definition wire_ok :: "Unit \<Rightarrow> bool" where
  "wire_ok u \<longleftrightarrow> u_Unit u = NewUnitFromOptions (uf_Options (u_Unit u)) \<and> job_state (u_TargetState u)"

lemmas JobState_defs = JobStateInactive_def JobStateLoaded_def JobStateLaunched_def

lemma rpcUnitStateToJobState_ToPB [simp]: "job_state s \<Longrightarrow> rpcUnitStateToJobState (JobState_ToPB s) = s"
  by (auto simp: job_state_def rpcUnitStateToJobState_def JobState_ToPB_def TargetState_defs JobState_defs)

lemma job_state_rpc [simp]: "job_state (rpcUnitStateToJobState s)"
  by (simp add: job_state_def rpcUnitStateToJobState_def)

lemma JobState_ToPB_rpc:
  "JobState_ToPB (rpcUnitStateToJobState s) = (if s \<in> {TargetState_LOADED, TargetState_LAUNCHED} then s else TargetState_INACTIVE)"
  by (simp add: rpcUnitStateToJobState_def JobState_ToPB_def TargetState_defs JobState_defs)

lemma options_rpc:
  "map (\<lambda>option. \<lparr>uo_Section = pbo_Section option, uo_Name = pbo_Name option, uo_Value = pbo_Value option\<rparr>)
     (pbf_UnitOptions (UnitFile_ToPB uf)) = uf_Options uf"
  by (auto simp: UnitFile_ToPB_def comp_def intro!: map_idI)

lemma rpcUnitToJobUnit_ToPB:
  "rpcUnitToJobUnit (Unit_ToPB u) =
     \<lparr>u_Name = u_Name u, u_Unit = NewUnitFromOptions (uf_Options (u_Unit u)),
      u_TargetState = (if job_state (u_TargetState u) then u_TargetState u else JobStateLoaded)\<rparr>"
proof -
  have "rpcUnitStateToJobState (JobState_ToPB (u_TargetState u)) =
      (if job_state (u_TargetState u) then u_TargetState u else JobStateLoaded)"
    by (auto simp: job_state_def rpcUnitStateToJobState_def JobState_ToPB_def TargetState_defs JobState_defs)
  then show ?thesis by (simp add: rpcUnitToJobUnit_def Let_def options_rpc Unit_ToPB_def)
qed

lemma rpcUnitToJobUnit_wire_ok [simp]: "wire_ok (rpcUnitToJobUnit u)"
  by (simp add: wire_ok_def rpcUnitToJobUnit_def Let_def NewUnitFromOptions_def)

lemma wire_roundtrip_iff: "rpcUnitToJobUnit (Unit_ToPB u) = u \<longleftrightarrow> wire_ok u"
  by (cases u) (auto simp: rpcUnitToJobUnit_ToPB wire_ok_def job_state_def NewUnitFromOptions_def)

lemma rpcUnitToJobUnit_name [simp]: "u_Name (rpcUnitToJobUnit u) = pbu_Name u"
  by (simp add: rpcUnitToJobUnit_def Let_def)

lemma rpcUnitToJobUnit_target:
  "rpcUnitToJobUnit (u\<lparr>pbu_DesiredState := s\<rparr>) = (rpcUnitToJobUnit u)\<lparr>u_TargetState := rpcUnitStateToJobState s\<rparr>"
  by (simp add: rpcUnitToJobUnit_def Let_def)

lemma Unit_ToPB_name [simp]: "pbu_Name (Unit_ToPB u) = u_Name u"
  by (simp add: Unit_ToPB_def)

lemma rpcUnitStateToExtUnitState_ToPB [simp]: "rpcUnitStateToExtUnitState (UnitState_ToPB s) = s"
  by (simp add: rpcUnitStateToExtUnitState_def UnitState_ToPB_def)

lemma UnitState_ToPB_rpc [simp]: "UnitState_ToPB (rpcUnitStateToExtUnitState s) = s"
  by (simp add: rpcUnitStateToExtUnitState_def UnitState_ToPB_def)

end
