(* ===== verification/Rpc_Inmemory.thy ===== *)
theory Rpc_Inmemory
  imports Rpc_Messages Registry_Etcd
begin

text \<open>
  \<open>registry/rpc/inmemory.go\<close>: the registry a leader keeps in memory and serves over gRPC. The methods
  that read the clock take its reading \<open>now\<close> in nanoseconds, those that range over a map whose order
  shows take the iteration order. Locks and debug output are left out: the calls run one
  after another.
\<close>

section \<open>State\<close>

type_synonym Time = int

definition Time_Add :: "Time \<Rightarrow> Duration \<Rightarrow> Time" where
  "Time_Add t d = t + sint d"

record unitStateHeartbeat =
  ib_deadline :: Time
  ib_state :: pbUnitState

record inmemoryRegistry =
  im_unitsCache :: "(string, pbUnit) gmap"
  im_scheduledUnits :: "(string, pbScheduledUnit) gmap"
  im_unitHeartbeats :: "(string, (string, Time) gmap) gmap"
  im_unitStates :: "(string, (string, unitStateHeartbeat) gmap) gmap"

definition newInmemoryRegistry :: inmemoryRegistry where
  "newInmemoryRegistry = \<lparr>im_unitsCache = [], im_scheduledUnits = [], im_unitHeartbeats = [], im_unitStates = []\<rparr>"

definition isValid :: "Time \<Rightarrow> unitStateHeartbeat \<Rightarrow> bool" where
  "isValid now u \<longleftrightarrow> now < ib_deadline u"

definition beat :: "Time \<Rightarrow> Duration \<Rightarrow> unitStateHeartbeat \<Rightarrow> unitStateHeartbeat" where
  "beat now ttl u = u\<lparr>ib_deadline := Time_Add now ttl\<rparr>"

text \<open>A lookup in a map of maps; a missing inner map is a nil map.\<close>

definition gget2 :: "('a, ('b, 'v) gmap) gmap \<Rightarrow> 'a \<Rightarrow> 'b \<Rightarrow> 'v option" where
  "gget2 m a b = (case map_of m a of None \<Rightarrow> None | Some inner \<Rightarrow> map_of inner b)"

definition gput2 :: "'a \<Rightarrow> 'b \<Rightarrow> 'v \<Rightarrow> ('a, ('b, 'v) gmap) gmap \<Rightarrow> ('a, ('b, 'v) gmap) gmap" where
  "gput2 a b v m = (case map_of m a of Some inner \<Rightarrow> gput a (gput b v inner) m | None \<Rightarrow> gput a [(b, v)] m)"

section \<open>The methods\<close>

definition im_isUnitLoaded :: "string \<Rightarrow> string \<Rightarrow> inmemoryRegistry \<Rightarrow> bool" where
  "im_isUnitLoaded unitName machineID r \<longleftrightarrow> gget2 (im_unitStates r) unitName machineID \<noteq> None"

definition im_isUnitLaunched :: "string \<Rightarrow> string \<Rightarrow> inmemoryRegistry \<Rightarrow> bool" where
  "im_isUnitLaunched unitName machineID r \<longleftrightarrow> gget2 (im_unitHeartbeats r) unitName machineID \<noteq> None"

definition im_getScheduledUnitState :: "string \<Rightarrow> string \<Rightarrow> inmemoryRegistry \<Rightarrow> TargetState" where
  "im_getScheduledUnitState unitName machineID r =
     (if im_isUnitLoaded unitName machineID r
      then if im_isUnitLaunched unitName machineID r then TargetState_LAUNCHED else TargetState_LOADED
      else TargetState_INACTIVE)"

definition im_isScheduled :: "string \<Rightarrow> string \<Rightarrow> inmemoryRegistry \<Rightarrow> bool" where
  "im_isScheduled unitName mach r =
     (if mach = [] \<or> unitName = [] then False
      else case map_of (im_scheduledUnits r) unitName of
             Some s \<Rightarrow> pbs_MachineID s = mach
           | None \<Rightarrow> False)"

text \<open>A panic in the middle of the load leaves nothing to look at: the process ends.\<close>

fun load_schedule :: "ScheduledUnit list \<Rightarrow> (string, pbScheduledUnit) gmap \<Rightarrow> (string, pbScheduledUnit) gmap call" where
  "load_schedule [] m = Returns m"
| "load_schedule (su # schedule) m =
     (case ScheduledUnit_ToPB su of
        Panics \<Rightarrow> Panics
      | Returns p \<Rightarrow> load_schedule schedule (gput (su_Name su) p m))"

definition im_LoadFrom :: "'r Registry \<Rightarrow> 'r \<Rightarrow> inmemoryRegistry \<Rightarrow> (string option \<times> inmemoryRegistry) call" where
  "im_LoadFrom reg r im =
     (case reg_Units reg r of
        Inl err \<Rightarrow> Returns (Some err, im)
      | Inr units \<Rightarrow>
          let im1 = im\<lparr>im_unitsCache := gput_all u_Name Unit_ToPB units (im_unitsCache im)\<rparr>
          in case reg_Schedule reg r of
               Inl err \<Rightarrow> Returns (Some err, im1)
             | Inr schedule \<Rightarrow>
                 (case load_schedule schedule (im_scheduledUnits im1) of
                    Panics \<Rightarrow> Panics
                  | Returns m \<Rightarrow> Returns (None, im1\<lparr>im_scheduledUnits := m\<rparr>)))"

definition im_Schedule :: "range_order \<Rightarrow> inmemoryRegistry \<Rightarrow> pbScheduledUnit list" where
  "im_Schedule ord r =
     map (\<lambda>n. let su = the (map_of (im_scheduledUnits r) n)
              in su\<lparr>pbs_CurrentState := im_getScheduledUnitState (pbs_Name su) (pbs_MachineID su) r\<rparr>)
       (ord [''scheduledUnits''] (gkeys (im_scheduledUnits r)))"

definition im_ScheduledUnit :: "string \<Rightarrow> inmemoryRegistry \<Rightarrow> pbScheduledUnit" where
  "im_ScheduledUnit unitName r =
     (case map_of (im_scheduledUnits r) unitName of
        Some su \<Rightarrow> su\<lparr>pbs_CurrentState := im_getScheduledUnitState unitName (pbs_MachineID su) r\<rparr>
      | None \<Rightarrow> \<lparr>pbs_Name = unitName, pbs_CurrentState = TargetState_INACTIVE, pbs_MachineID = []\<rparr>)"

definition im_Unit :: "string \<Rightarrow> inmemoryRegistry \<Rightarrow> pbUnit option" where
  "im_Unit name r = map_of (im_unitsCache r) name"

definition im_Units :: "inmemoryRegistry \<Rightarrow> pbUnit list" where
  \<comment> \<open>the names are distinct and sorted, so the order of the loop over the map does not matter\<close>
  "im_Units r = map (\<lambda>unitName. the (map_of (im_unitsCache r) unitName)) (sort (gkeys (im_unitsCache r)))"

definition zero_pbUnitState :: pbUnitState where
  "zero_pbUnitState = \<lparr>pbt_Name = [], pbt_Hash = [], pbt_LoadState = [], pbt_ActiveState = [], pbt_SubState = [], pbt_MachineID = []\<rparr>"

definition im_stateByMUSKey :: "range_order \<Rightarrow> Time \<Rightarrow> string \<Rightarrow> inmemoryRegistry \<Rightarrow> pbUnitState" where
  "im_stateByMUSKey ord now name r =
     fold (\<lambda>unitname state.
         if name \<noteq> unitname then state
         else let unitStates = the (map_of (im_unitStates r) unitname) in
           case List.find (\<lambda>m. isValid now (the (map_of unitStates m))) (ord [''unitStates'', unitname] (gkeys unitStates)) of
             Some m \<Rightarrow> ib_state (the (map_of unitStates m))
           | None \<Rightarrow> state) (ord [''unitStates''] (gkeys (im_unitStates r))) zero_pbUnitState"

definition im_statesByMUSKey :: "Time \<Rightarrow> inmemoryRegistry \<Rightarrow> (MUSKey, pbUnitState) gmap" where
  \<comment> \<open>the keys are distinct, so the order of the loops over the maps does not matter\<close>
  "im_statesByMUSKey now r =
     concat (map (\<lambda>(unitname, unitStates).
         map (\<lambda>(machineID, heartbeat). ((unitname, machineID), ib_state heartbeat))
           (filter (\<lambda>(machineID, heartbeat). isValid now heartbeat) unitStates)) (im_unitStates r))"

definition im_UnitState :: "range_order \<Rightarrow> Time \<Rightarrow> string \<Rightarrow> inmemoryRegistry \<Rightarrow> pbUnitState" where
  "im_UnitState ord now name r = im_stateByMUSKey ord now name r"

definition im_UnitStates :: "(MUSKey list \<Rightarrow> MUSKey list) \<Rightarrow> Time \<Rightarrow> inmemoryRegistry \<Rightarrow> pbUnitState list" where
  \<comment> \<open>the first argument is the sorting routine behind \<open>sort.Sort\<close>\<close>
  "im_UnitStates srt now r =
     (let mus = im_statesByMUSKey now r in map (\<lambda>key. the (map_of mus key)) (srt (gkeys mus)))"

definition im_ClearUnitHeartbeat :: "string \<Rightarrow> inmemoryRegistry \<Rightarrow> inmemoryRegistry" where
  "im_ClearUnitHeartbeat name r = r\<lparr>im_unitHeartbeats := gdel name (im_unitHeartbeats r)\<rparr>"

definition im_DestroyUnit :: "string \<Rightarrow> inmemoryRegistry \<Rightarrow> bool \<times> inmemoryRegistry" where
  "im_DestroyUnit name r =
     (gmem name (im_unitsCache r),
      \<lparr>im_unitsCache = gdel name (im_unitsCache r), im_scheduledUnits = gdel name (im_scheduledUnits r),
       im_unitHeartbeats = gdel name (im_unitHeartbeats r), im_unitStates = gdel name (im_unitStates r)\<rparr>)"

definition im_RemoveUnitState :: "string \<Rightarrow> inmemoryRegistry \<Rightarrow> inmemoryRegistry" where
  "im_RemoveUnitState unitName r = r\<lparr>im_unitStates := gdel unitName (im_unitStates r)\<rparr>"

definition im_SaveUnitState :: "Time \<Rightarrow> string \<Rightarrow> pbUnitState \<Rightarrow> Duration \<Rightarrow> inmemoryRegistry \<Rightarrow> inmemoryRegistry" where
  "im_SaveUnitState now unitName state ttl r =
     (let statebeat = \<lparr>ib_deadline = Time_Add now ttl, ib_state = state\<rparr>
      in r\<lparr>im_unitStates := gput2 unitName (pbt_MachineID state) statebeat (im_unitStates r)\<rparr>)"

definition im_UnitHeartbeat :: "Time \<Rightarrow> string \<Rightarrow> string \<Rightarrow> Duration \<Rightarrow> inmemoryRegistry \<Rightarrow> inmemoryRegistry" where
  "im_UnitHeartbeat now unitName machineid ttl r =
     r\<lparr>im_unitHeartbeats := gput2 unitName machineid (Time_Add now ttl) (im_unitHeartbeats r)\<rparr>"

definition im_ScheduleUnit :: "string \<Rightarrow> string \<Rightarrow> inmemoryRegistry \<Rightarrow> inmemoryRegistry" where
  "im_ScheduleUnit unitName machineid r =
     r\<lparr>im_scheduledUnits := gput unitName
        \<lparr>pbs_Name = unitName, pbs_CurrentState = TargetState_INACTIVE, pbs_MachineID = machineid\<rparr> (im_scheduledUnits r)\<rparr>"

definition im_UnscheduleUnit :: "string \<Rightarrow> string \<Rightarrow> inmemoryRegistry \<Rightarrow> inmemoryRegistry" where
  "im_UnscheduleUnit unitName machineid r = r\<lparr>im_scheduledUnits := gdel unitName (im_scheduledUnits r)\<rparr>"

definition im_SetUnitTargetState :: "string \<Rightarrow> TargetState \<Rightarrow> inmemoryRegistry \<Rightarrow> bool \<times> inmemoryRegistry" where
  "im_SetUnitTargetState unitName targetState r =
     (case map_of (im_unitsCache r) unitName of
        Some u \<Rightarrow> (True, r\<lparr>im_unitsCache := gput unitName (u\<lparr>pbu_DesiredState := targetState\<rparr>) (im_unitsCache r)\<rparr>)
      | None \<Rightarrow> (False, r))"

definition im_CreateUnit :: "pbUnit \<Rightarrow> inmemoryRegistry \<Rightarrow> inmemoryRegistry" where
  "im_CreateUnit u r = r\<lparr>im_unitsCache := gput (pbu_Name u) u (im_unitsCache r)\<rparr>"

end
