(* ===== verification/Rpc_Server.thy ===== *)
theory Rpc_Server
  imports Rpc_Inmemory "HOL-Library.Signed_Division"
begin

text \<open>
  \<open>registry/rpc/rpcserver.go\<close>: the gRPC service of the leader, which writes units and the schedule
  through to the registry behind it and keeps a copy in memory. A method takes the registry behind
  it as the interface record \<open>reg\<close> and its state \<open>r\<close>. The gRPC server and the listener are parameters;
  only what they answer when the service starts matters here.
\<close>

record rpcserver =
  rs_localRegistry :: inmemoryRegistry
  rs_serverStatus :: ServingStatus
  rs_hasNonGRPCAgents :: bool

definition bindAddrMaxRetry :: nat where "bindAddrMaxRetry = 5"

definition registryServiceName :: string where "registryServiceName = ''rpc.Registry''"

section \<open>Starting and stopping\<close>

text \<open>The attempts to bind the address; \<open>bind it\<close> is the error of attempt \<open>it\<close>.\<close>

fun bind_listener :: "(nat \<Rightarrow> string option) \<Rightarrow> nat \<Rightarrow> nat \<Rightarrow> string option \<Rightarrow> string option" where
  "bind_listener bind it 0 err = err"
| "bind_listener bind it (Suc attempts) err =
     (case bind it of
        None \<Rightarrow> None
      | Some e \<Rightarrow> bind_listener bind (Suc it) attempts (Some e))"

definition SetServingStatus :: "ServingStatus \<Rightarrow> rpcserver \<Rightarrow> rpcserver" where
  "SetServingStatus status s = s\<lparr>rs_serverStatus := status\<rparr>"

definition NewRPCServer :: "string option \<Rightarrow> (nat \<Rightarrow> string option) \<Rightarrow> 'r Registry \<Rightarrow> 'r \<Rightarrow> rpcserver result call" where
  \<comment> \<open>\<open>resolve\<close> and \<open>bind\<close> are the errors of resolving and of binding the address\<close>
  "NewRPCServer resolve bind reg r =
     (case resolve of
        Some err \<Rightarrow> Returns (Inl err)
      | None \<Rightarrow>
          (case bind_listener bind 0 bindAddrMaxRetry None of
             Some err \<Rightarrow> Returns (Inl err)
           | None \<Rightarrow>
               (case im_LoadFrom reg r newInmemoryRegistry of
                  Panics \<Rightarrow> Panics
                | Returns (ignored, local) \<Rightarrow>
                    let s = SetServingStatus NOT_SERVING
                          \<lparr>rs_localRegistry = local, rs_serverStatus = UNKNOWN, rs_hasNonGRPCAgents = False\<rparr>
                    in case reg_Machines reg r of
                         Inl err \<Rightarrow> Returns (Inl err)
                       | Inr machineStates \<Rightarrow>
                           Returns (Inr (s\<lparr>rs_hasNonGRPCAgents :=
                             (\<exists>state\<in>set machineStates. \<not> Capabilities_Has (ms_Capabilities state) CapGRPC)\<rparr>)))))"

definition rs_Status :: "string \<Rightarrow> rpcserver \<Rightarrow> ServingStatus result" where
  "rs_Status service s =
     (if service \<noteq> registryServiceName then Inl ''unknown rpc service to collect its status''
      else Inr (rs_serverStatus s))"

definition rs_Start :: "rpcserver \<Rightarrow> rpcserver" where
  \<comment> \<open>and then serves until it is stopped\<close>
  "rs_Start s = SetServingStatus SERVING s"

definition rs_Stop :: "rpcserver \<Rightarrow> rpcserver" where
  "rs_Stop s = SetServingStatus NOT_SERVING s"

section \<open>Reading\<close>

definition rs_GetScheduledUnits :: "range_order \<Rightarrow> rpcserver \<Rightarrow> pbScheduledUnit list" where
  "rs_GetScheduledUnits ord s = im_Schedule ord (rs_localRegistry s)"

definition rs_GetScheduledUnit :: "string \<Rightarrow> rpcserver \<Rightarrow> pbScheduledUnit option" where
  "rs_GetScheduledUnit name s = Some (im_ScheduledUnit name (rs_localRegistry s))"

definition rs_GetUnit :: "string \<Rightarrow> rpcserver \<Rightarrow> pbUnit option" where
  "rs_GetUnit name s = im_Unit name (rs_localRegistry s)"

definition rs_GetUnits :: "'r Registry \<Rightarrow> rpcserver \<times> 'r \<Rightarrow> pbUnit list result" where
  "rs_GetUnits reg = (\<lambda>(s, r).
     let units = im_Units (rs_localRegistry s) in
     if rs_hasNonGRPCAgents s then
       case reg_Units reg r of
         Inl err \<Rightarrow> Inl err
       | Inr etcdUnits \<Rightarrow>
           let unitNames = map pbu_Name units
           in Inr (units @ map Unit_ToPB (filter (\<lambda>u. u_Name u \<notin> set unitNames) etcdUnits))
     else Inr units)"

definition rs_GetUnitState :: "range_order \<Rightarrow> Time \<Rightarrow> string \<Rightarrow> rpcserver \<Rightarrow> pbUnitState" where
  "rs_GetUnitState ord now name s = im_UnitState ord now name (rs_localRegistry s)"

definition rs_GetUnitStates :: "(MUSKey list \<Rightarrow> MUSKey list) \<Rightarrow> 'r Registry \<Rightarrow> Time \<Rightarrow> rpcserver \<times> 'r \<Rightarrow> pbUnitState list result" where
  "rs_GetUnitStates srt reg now = (\<lambda>(s, r).
     let states = im_UnitStates srt now (rs_localRegistry s) in
     if rs_hasNonGRPCAgents s then
       case reg_UnitStates reg r of
         Inl err \<Rightarrow> Inl err
       | Inr etcdUnitStates \<Rightarrow>
           let unitStateNames = gput_all pbt_Name pbt_MachineID states []
           in Inr (states @ map UnitState_ToPB (filter (\<lambda>state.
                case map_of unitStateNames (us_UnitName state) of
                  None \<Rightarrow> True
                | Some machId \<Rightarrow> machId \<noteq> us_MachineID state) etcdUnitStates))
     else Inr states)"

section \<open>Writing\<close>

text \<open>A 32-bit time to live in seconds as a duration.\<close>

definition ttl_seconds :: "32 word \<Rightarrow> Duration" where
  "ttl_seconds ttl = scast ttl * 1000000000"

definition rs_local :: "(inmemoryRegistry \<Rightarrow> inmemoryRegistry) \<Rightarrow> rpcserver \<Rightarrow> rpcserver" where
  "rs_local f s = s\<lparr>rs_localRegistry := f (rs_localRegistry s)\<rparr>"

definition rs_ClearUnitHeartbeat :: "string \<Rightarrow> rpcserver \<Rightarrow> rpcserver" where
  "rs_ClearUnitHeartbeat name s = rs_local (im_ClearUnitHeartbeat name) s"

definition rs_CreateUnit :: "'r Registry \<Rightarrow> pbUnit \<Rightarrow> rpcserver \<times> 'r \<Rightarrow> string option \<times> rpcserver \<times> 'r" where
  "rs_CreateUnit reg u = (\<lambda>(s, r).
     let (err, r') = reg_CreateUnit reg (rpcUnitToJobUnit u) r
     in (err, if err = None then rs_local (im_CreateUnit u) s else s, r'))"

definition rs_DestroyUnit :: "'r Registry \<Rightarrow> string \<Rightarrow> rpcserver \<times> 'r \<Rightarrow> string option \<times> rpcserver \<times> 'r" where
  "rs_DestroyUnit reg name = (\<lambda>(s, r).
     let (err, r') = reg_DestroyUnit reg name r
     in (err, if err = None then rs_local (\<lambda>im. snd (im_DestroyUnit name im)) s else s, r'))"

definition rs_UnitHeartbeat :: "Time \<Rightarrow> string \<Rightarrow> string \<Rightarrow> 32 word \<Rightarrow> rpcserver \<Rightarrow> rpcserver" where
  "rs_UnitHeartbeat now name machineID ttl s = rs_local (im_UnitHeartbeat now name machineID (ttl_seconds ttl)) s"

definition rs_RemoveUnitState :: "'r Registry \<Rightarrow> string \<Rightarrow> rpcserver \<times> 'r \<Rightarrow> rpcserver \<times> 'r" where
  "rs_RemoveUnitState reg name = (\<lambda>(s, r).
     (rs_local (im_RemoveUnitState name) s,
      if rs_hasNonGRPCAgents s then snd (reg_RemoveUnitState reg name r) else r))"

definition rs_SaveUnitState :: "'r Registry \<Rightarrow> Time \<Rightarrow> string \<Rightarrow> pbUnitState \<Rightarrow> 32 word \<Rightarrow> rpcserver \<times> 'r \<Rightarrow> rpcserver \<times> 'r" where
  "rs_SaveUnitState reg now name state ttl = (\<lambda>(s, r).
     (rs_local (im_SaveUnitState now name state (ttl_seconds ttl)) s,
      if rs_hasNonGRPCAgents s then reg_SaveUnitState reg name (rpcUnitStateToExtUnitState state) (ttl_seconds ttl) r else r))"

definition rs_ScheduleUnit :: "'r Registry \<Rightarrow> string \<Rightarrow> string \<Rightarrow> rpcserver \<times> 'r \<Rightarrow> string option \<times> rpcserver \<times> 'r" where
  "rs_ScheduleUnit reg name machineID = (\<lambda>(s, r).
     let (err, r') = reg_ScheduleUnit reg name machineID r
     in (err, if err = None then rs_local (im_ScheduleUnit name machineID) s else s, r'))"

definition rs_SetUnitTargetState :: "'r Registry \<Rightarrow> string \<Rightarrow> TargetState \<Rightarrow> rpcserver \<times> 'r \<Rightarrow> string option \<times> rpcserver \<times> 'r" where
  "rs_SetUnitTargetState reg name currentState = (\<lambda>(s, r).
     let (err, r') = reg_SetUnitTargetState reg name (rpcUnitStateToJobState currentState) r
     in (err, if err = None then rs_local (\<lambda>im. snd (im_SetUnitTargetState name currentState im)) s else s, r'))"

definition rs_UnscheduleUnit :: "'r Registry \<Rightarrow> string \<Rightarrow> string \<Rightarrow> rpcserver \<times> 'r \<Rightarrow> string option \<times> rpcserver \<times> 'r" where
  "rs_UnscheduleUnit reg name machineID = (\<lambda>(s, r).
     let (err, r') = reg_UnscheduleUnit reg name machineID r
     in (err, if err = None then rs_local (im_UnscheduleUnit name machineID) s else s, r'))"

definition rs_AgentEvents :: "string \<Rightarrow> string option" where
  "rs_AgentEvents machID = Some ''Agent events function not implemented''"

end
