(* ===== verification/Rpc_Client.thy ===== *)
theory Rpc_Client
  imports Rpc_Server
begin

text \<open>
  The client side of the gRPC registry: \<open>registry/rpc/rpcregistry.go\<close> with its balancer
  (\<open>balancer.go\<close>). The generated client of the service is the record \<open>RegistryServiceClient\<close>, one function
  per method of the service over a state \<open>'c\<close>, an error where the call fails; the connection itself
  is a parameter of the steps that make one.
\<close>

section \<open>The balancer\<close>

record simpleBalancer =
  sb_addrs :: "string list"
  sb_numGets :: "32 word"
  sb_readyc_closed :: bool
  sb_readyOnce :: bool

definition newSimpleBalancer :: "string list \<Rightarrow> simpleBalancer" where
  "newSimpleBalancer eps = \<lparr>sb_addrs = eps, sb_numGets = 0, sb_readyc_closed = False, sb_readyOnce = False\<rparr>"

definition sb_Up :: "simpleBalancer \<Rightarrow> simpleBalancer" where
  "sb_Up b = (if sb_readyOnce b then b else b\<lparr>sb_readyc_closed := True, sb_readyOnce := True\<rparr>)"

definition sb_Get :: "simpleBalancer \<Rightarrow> string call \<times> simpleBalancer" where
  \<comment> \<open>the remainder by zero and the index into no addresses panic\<close>
  "sb_Get b =
     (let v = sb_numGets b + 1; n = length (sb_addrs b)
      in (if n = 0 then Panics else Returns (sb_addrs b ! (unat (v mod of_nat n))), b\<lparr>sb_numGets := v\<rparr>))"

definition sb_Close :: "simpleBalancer \<Rightarrow> simpleBalancer" where
  "sb_Close b = b\<lparr>sb_readyc_closed := False\<rparr>"

section \<open>The generated client\<close>

record 'c RegistryServiceClient =
  cl_GetScheduledUnits :: "'c \<Rightarrow> pbScheduledUnit list result"
  cl_GetScheduledUnit :: "string \<Rightarrow> 'c \<Rightarrow> pbScheduledUnit option result"
  cl_GetUnit :: "string \<Rightarrow> 'c \<Rightarrow> pbUnit option result"
  cl_GetUnits :: "'c \<Rightarrow> pbUnit list result"
  cl_GetUnitState :: "string \<Rightarrow> 'c \<Rightarrow> pbUnitState result"
  cl_GetUnitStates :: "'c \<Rightarrow> pbUnitState list result"
  cl_ClearUnitHeartbeat :: "string \<Rightarrow> 'c \<Rightarrow> string option \<times> 'c"
  cl_CreateUnit :: "pbUnit \<Rightarrow> 'c \<Rightarrow> string option \<times> 'c"
  cl_DestroyUnit :: "string \<Rightarrow> 'c \<Rightarrow> string option \<times> 'c"
  cl_UnitHeartbeat :: "string \<Rightarrow> string \<Rightarrow> 32 word \<Rightarrow> 'c \<Rightarrow> string option \<times> 'c"
  cl_RemoveUnitState :: "string \<Rightarrow> 'c \<Rightarrow> string option \<times> 'c"
  cl_SaveUnitState :: "string \<Rightarrow> pbUnitState \<Rightarrow> 32 word \<Rightarrow> 'c \<Rightarrow> string option \<times> 'c"
  cl_ScheduleUnit :: "string \<Rightarrow> string \<Rightarrow> 'c \<Rightarrow> string option \<times> 'c"
  cl_SetUnitTargetState :: "string \<Rightarrow> TargetState \<Rightarrow> 'c \<Rightarrow> string option \<times> 'c"
  cl_UnscheduleUnit :: "string \<Rightarrow> string \<Rightarrow> 'c \<Rightarrow> string option \<times> 'c"
  cl_Status :: "string \<Rightarrow> 'c \<Rightarrow> ServingStatus result"

section \<open>The registry over gRPC\<close>

record RPCRegistry =
  rr_registryConn :: bool
  rr_balancer :: "simpleBalancer option"

definition NewRPCRegistry :: RPCRegistry where
  "NewRPCRegistry = \<lparr>rr_registryConn = False, rr_balancer = None\<rparr>"

text \<open>
  \<open>Connect\<close> blocks until the connection is up, which is when gRPC calls \<open>Up\<close>; an error of the dialler
  ends the process. Closing the connection closes its balancer.
\<close>

definition ep_engines :: "string list" where "ep_engines = ['':fleet-engine:'']"

definition rr_Connect :: "RPCRegistry \<Rightarrow> RPCRegistry" where
  "rr_Connect r = r\<lparr>rr_registryConn := True, rr_balancer := Some (sb_Up (newSimpleBalancer ep_engines))\<rparr>"

definition rr_Close :: "RPCRegistry \<Rightarrow> RPCRegistry" where
  "rr_Close r = r\<lparr>rr_balancer := map_option sb_Close (rr_balancer r)\<rparr>"

definition rr_Status :: "'c RegistryServiceClient \<Rightarrow> 'c \<Rightarrow> ServingStatus result" where
  "rr_Status cl c = cl_Status cl registryServiceName c"

text \<open>What a call that may wait comes to: it waits for ever, ends the process, or returns.\<close>

datatype 'a waiting = Blocks | Exits | Done 'a

definition rr_IsRegistryReady :: "'c RegistryServiceClient \<Rightarrow> 'c \<Rightarrow> RPCRegistry \<Rightarrow> bool waiting" where
  "rr_IsRegistryReady cl c r =
     (if rr_registryConn r then
        let answer = (\<lambda>hasConn. case rr_Status cl c of Inl err \<Rightarrow> False | Inr status \<Rightarrow> hasConn \<and> status = SERVING)
        in case rr_balancer r of
             None \<Rightarrow> Done (answer False)
           | Some b \<Rightarrow> if sb_readyc_closed b then Done (answer True) else Blocks
      else Done False)"

definition rr_UseEtcdRegistry :: bool where "rr_UseEtcdRegistry = False"

text \<open>
  The whole seconds of a duration, towards zero; the detour over a floating-point number is exact for
  less than \<open>2\<^sup>2\<^sup>3\<close> seconds.
\<close>

definition Seconds32 :: "Duration \<Rightarrow> 32 word" where
  "Seconds32 ttl = word_of_int (sint ttl sdiv 1000000000)"

definition rr_ClearUnitHeartbeat :: "'c RegistryServiceClient \<Rightarrow> string \<Rightarrow> 'c \<Rightarrow> 'c" where
  "rr_ClearUnitHeartbeat cl unitName c = snd (cl_ClearUnitHeartbeat cl unitName c)"

definition rr_CreateUnit :: "'c RegistryServiceClient \<Rightarrow> Unit \<Rightarrow> 'c \<Rightarrow> string option \<times> 'c" where
  "rr_CreateUnit cl j c = cl_CreateUnit cl (Unit_ToPB j) c"

definition rr_DestroyUnit :: "'c RegistryServiceClient \<Rightarrow> string \<Rightarrow> 'c \<Rightarrow> string option \<times> 'c" where
  "rr_DestroyUnit cl unitName c = cl_DestroyUnit cl unitName c"

definition rr_UnitHeartbeat :: "'c RegistryServiceClient \<Rightarrow> string \<Rightarrow> string \<Rightarrow> Duration \<Rightarrow> 'c \<Rightarrow> string option \<times> 'c" where
  "rr_UnitHeartbeat cl unitName machID ttl c = cl_UnitHeartbeat cl unitName machID (Seconds32 ttl) c"

definition rr_RemoveMachineState :: "string \<Rightarrow> 'c \<Rightarrow> string option \<times> 'c" where
  "rr_RemoveMachineState machID c = (Some ''Remove machine state function not implemented'', c)"

definition rr_RemoveUnitState :: "'c RegistryServiceClient \<Rightarrow> string \<Rightarrow> 'c \<Rightarrow> string option \<times> 'c" where
  "rr_RemoveUnitState cl unitName c = cl_RemoveUnitState cl unitName c"

definition rr_SaveUnitState :: "'c RegistryServiceClient \<Rightarrow> string \<Rightarrow> UnitState \<Rightarrow> Duration \<Rightarrow> 'c \<Rightarrow> 'c" where
  "rr_SaveUnitState cl unitName unitState ttl c =
     (let us = (if us_UnitName unitState = [] then unitState\<lparr>us_UnitName := unitName\<rparr> else unitState)
      in snd (cl_SaveUnitState cl unitName (UnitState_ToPB us) (Seconds32 ttl) c))"

definition rr_ScheduleUnit :: "'c RegistryServiceClient \<Rightarrow> string \<Rightarrow> string \<Rightarrow> 'c \<Rightarrow> string option \<times> 'c" where
  "rr_ScheduleUnit cl unitName machID c = cl_ScheduleUnit cl unitName machID c"

definition rr_SetUnitTargetState :: "'c RegistryServiceClient \<Rightarrow> string \<Rightarrow> JobState \<Rightarrow> 'c \<Rightarrow> string option \<times> 'c" where
  "rr_SetUnitTargetState cl unitName state c = cl_SetUnitTargetState cl unitName (JobState_ToPB state) c"

definition rr_UnscheduleUnit :: "'c RegistryServiceClient \<Rightarrow> string \<Rightarrow> string \<Rightarrow> 'c \<Rightarrow> string option \<times> 'c" where
  "rr_UnscheduleUnit cl unitName machID c = cl_UnscheduleUnit cl unitName machID c"

definition rr_scheduled :: "pbScheduledUnit \<Rightarrow> ScheduledUnit" where
  "rr_scheduled u =
     \<lparr>su_Name = pbs_Name u, su_State = Some (rpcUnitStateToJobState (pbs_CurrentState u)), su_TargetMachineID = pbs_MachineID u\<rparr>"

definition rr_Schedule :: "'c RegistryServiceClient \<Rightarrow> 'c \<Rightarrow> ScheduledUnit list result" where
  "rr_Schedule cl c = map_sum (\<lambda>err. err) (map rr_scheduled) (cl_GetScheduledUnits cl c)"

definition rr_ScheduledUnit :: "'c RegistryServiceClient \<Rightarrow> string \<Rightarrow> 'c \<Rightarrow> ScheduledUnit option result" where
  "rr_ScheduledUnit cl unitName c = map_sum (\<lambda>err. err) (map_option rr_scheduled) (cl_GetScheduledUnit cl unitName c)"

definition rr_Unit :: "'c RegistryServiceClient \<Rightarrow> string \<Rightarrow> 'c \<Rightarrow> Unit option result" where
  "rr_Unit cl unitName c = map_sum (\<lambda>err. err) (map_option rpcUnitToJobUnit) (cl_GetUnit cl unitName c)"

definition rr_Units :: "'c RegistryServiceClient \<Rightarrow> 'c \<Rightarrow> Unit list result" where
  "rr_Units cl c = map_sum (\<lambda>err. err) (map rpcUnitToJobUnit) (cl_GetUnits cl c)"

definition rr_UnitState :: "'c RegistryServiceClient \<Rightarrow> string \<Rightarrow> 'c \<Rightarrow> UnitState option result" where
  "rr_UnitState cl unitName c = map_sum (\<lambda>err. err) (\<lambda>st. Some (rpcUnitStateToExtUnitState st)) (cl_GetUnitState cl unitName c)"

definition rr_UnitStates :: "'c RegistryServiceClient \<Rightarrow> 'c \<Rightarrow> UnitState list result" where
  "rr_UnitStates cl c = map_sum (\<lambda>err. err) (map rpcUnitStateToExtUnitState) (cl_GetUnitStates cl c)"

text \<open>
  The methods on machines panic; nothing reaches them, since the switching registry asks etcd. They
  are errors that name the panic.
\<close>

definition rr_panic :: "string \<Rightarrow> string" where
  "rr_panic what = ''panic: '' @ what @ '' function not implemented''"

definition rr_EngineVersion :: "int result" where
  "rr_EngineVersion = Inl ''Engine version function not implemented''"

definition rr_UpdateEngineVersion :: "int \<Rightarrow> int \<Rightarrow> string option" where
  "rr_UpdateEngineVersion from to = Some ''Update engine version function not implemented''"

definition rpc_registry :: "'c RegistryServiceClient \<Rightarrow> 'c Registry" where
  "rpc_registry cl =
     \<lparr>reg_ClearUnitHeartbeat = rr_ClearUnitHeartbeat cl,
      reg_CreateMachineState = (\<lambda>ms ttl c. (Inl (rr_panic ''Set machine state''), c)),
      reg_CreateUnit = rr_CreateUnit cl,
      reg_DestroyUnit = rr_DestroyUnit cl,
      reg_UnitHeartbeat = rr_UnitHeartbeat cl,
      reg_Machines = (\<lambda>c. Inl (rr_panic ''Machines'')),
      reg_RemoveMachineState = rr_RemoveMachineState,
      reg_RemoveUnitState = rr_RemoveUnitState cl,
      reg_SaveUnitState = rr_SaveUnitState cl,
      reg_ScheduleUnit = rr_ScheduleUnit cl,
      reg_SetUnitTargetState = rr_SetUnitTargetState cl,
      reg_SetMachineState = (\<lambda>ms ttl c. (Inl (rr_panic ''Set machine state''), c)),
      reg_MachineState = (\<lambda>machID c. Inl (rr_panic ''Machine state'')),
      reg_UnscheduleUnit = rr_UnscheduleUnit cl,
      reg_SetMachineMetadata = (\<lambda>machID key value c. (Some (rr_panic ''Set machine metadata''), c)),
      reg_DeleteMachineMetadata = (\<lambda>machID key c. (Some (rr_panic ''Delete machine metadata''), c)),
      reg_IsRegistryReady = (\<lambda>c. rr_IsRegistryReady cl c (rr_Connect NewRPCRegistry) = Done True),
      reg_UseEtcdRegistry = (\<lambda>c. rr_UseEtcdRegistry),
      reg_Schedule = rr_Schedule cl,
      reg_ScheduledUnit = rr_ScheduledUnit cl,
      reg_Unit = rr_Unit cl,
      reg_Units = rr_Units cl,
      reg_UnitState = rr_UnitState cl,
      reg_UnitStates = rr_UnitStates cl\<rparr>"

end
