(* ===== verification/Rpc_Mux.thy ===== *)
theory Rpc_Mux
  imports Rpc_Client
begin

text \<open>
  \<open>registry/rpc/registrymux.go\<close>: the registry that uses etcd or the gRPC service of the leader,
  depending on what this machine and the leader can do. The two ways it follows the leader are here:
  \<open>EngineChanged\<close>, which the engine calls when it sees a new leader, and one round of the loop of
  \<open>ConnectToRegistry\<close>, which agents without an engine run. The dialler's loop over time-outs and the
  sockets are not modelled: whether a connection comes up is an argument.
\<close>

datatype which_registry = EtcdReg | RpcReg

record RegistryMux =
  rm_rpcserver :: "rpcserver option"
  rm_currentRegistry :: "which_registry option"
  rm_rpcRegistry :: "RPCRegistry option"
  rm_currentEngine :: MachineState

definition NewRegistryMux :: RegistryMux where
  "NewRegistryMux =
     \<lparr>rm_rpcserver = None, rm_currentRegistry = None, rm_rpcRegistry = None, rm_currentEngine = zero_machine\<rparr>"

text \<open>A pointer that is nil is not asked, like the first operand of the source's conjunction says.\<close>

definition mux_ready :: "'c RegistryServiceClient \<Rightarrow> 'c \<Rightarrow> RegistryMux \<Rightarrow> bool waiting" where
  "mux_ready cl c r =
     (case rm_rpcRegistry r of
        None \<Rightarrow> Done False
      | Some rr \<Rightarrow> rr_IsRegistryReady cl c rr)"

definition mux_connect :: "bool \<Rightarrow> RegistryMux \<Rightarrow> RegistryMux waiting" where
  \<comment> \<open>a new connection; \<open>dialled\<close> tells whether it comes up, the process ends when not\<close>
  "mux_connect dialled r =
     (if dialled then Done (r\<lparr>rm_rpcRegistry := Some (rr_Connect NewRPCRegistry), rm_currentRegistry := Some RpcReg\<rparr>)
      else Exits)"

definition mux_close :: "RegistryMux \<Rightarrow> RegistryMux" where
  "mux_close r = r\<lparr>rm_rpcRegistry := map_option rr_Close (rm_rpcRegistry r)\<rparr>"

definition ConnectToRegistry_round :: "'c RegistryServiceClient \<Rightarrow> 'c \<Rightarrow> bool result \<Rightarrow> bool \<Rightarrow> RegistryMux \<Rightarrow> RegistryMux waiting" where
  "ConnectToRegistry_round cl c isGrpcLeader dialled r =
     (case isGrpcLeader of
        Inl err \<Rightarrow> Done r
      | Inr isGrpc \<Rightarrow>
          if isGrpc then
            (case mux_ready cl c r of
               Blocks \<Rightarrow> Blocks
             | Exits \<Rightarrow> Exits
             | Done ready \<Rightarrow>
                 if ready then Done (r\<lparr>rm_currentRegistry := Some RpcReg\<rparr>)
                 else mux_connect dialled (mux_close r))
          else Done ((mux_close r)\<lparr>rm_currentRegistry := Some EtcdReg\<rparr>))"

text \<open>
  \<open>EngineChanged\<close> in its steps: stopping the server of a machine that no longer leads, starting the
  one of the leader, choosing the registry. \<open>newServer\<close> is what \<open>NewRPCServer\<close> answers; the
  server starts serving at once.
\<close>

definition ec_stop :: "'c RegistryServiceClient \<Rightarrow> 'c \<Rightarrow> bool \<Rightarrow> RegistryMux \<Rightarrow> RegistryMux waiting" where
  "ec_stop cl c stopServer r =
     (if rm_rpcserver r = None then Done r
      else if rm_rpcRegistry r = None then
        Done (if stopServer then r\<lparr>rm_rpcserver := None\<rparr> else r)
      else
        case mux_ready cl c r of
          Blocks \<Rightarrow> Blocks
        | Exits \<Rightarrow> Exits
        | Done ready \<Rightarrow> Done (if \<not> ready \<or> stopServer then r\<lparr>rm_rpcserver := None\<rparr> else r))"

definition ec_start :: "rpcserver result \<Rightarrow> MachineState \<Rightarrow> MachineState \<Rightarrow> RegistryMux \<Rightarrow> RegistryMux waiting" where
  "ec_start newServer localState newEngine r =
     (if ms_ID newEngine = ms_ID localState \<and> rm_rpcserver r = None then
        case newServer of
          Inl err \<Rightarrow> Exits
        | Inr s \<Rightarrow> Done (r\<lparr>rm_rpcserver := Some (rs_Start s)\<rparr>)
      else Done r)"

definition ec_choose :: "'c RegistryServiceClient \<Rightarrow> 'c \<Rightarrow> bool \<Rightarrow> MachineState \<Rightarrow> RegistryMux \<Rightarrow> RegistryMux waiting" where
  "ec_choose cl c dialled newEngine r =
     (if Capabilities_Has (ms_Capabilities newEngine) CapGRPC then
        case mux_ready cl c r of
          Blocks \<Rightarrow> Blocks
        | Exits \<Rightarrow> Exits
        | Done ready \<Rightarrow> if ready then Done (r\<lparr>rm_currentRegistry := Some RpcReg\<rparr>) else mux_connect dialled r
      else Done (r\<lparr>rm_rpcserver := map_option rs_Stop (rm_rpcserver r), rm_currentRegistry := Some EtcdReg\<rparr>))"

definition EngineChanged ::
  "'c RegistryServiceClient \<Rightarrow> 'c \<Rightarrow> 'c \<Rightarrow> rpcserver result \<Rightarrow> bool \<Rightarrow> MachineState \<Rightarrow> MachineState \<Rightarrow> RegistryMux \<Rightarrow> RegistryMux waiting" where
  \<comment> \<open>\<open>c1\<close> and \<open>c2\<close> are what the service is like when its status is asked for\<close>
  "EngineChanged cl c1 c2 newServer dialled localState newEngine r =
     (let stopServer = (ms_ID (rm_currentEngine r) \<noteq> ms_ID newEngine);
          r1 = r\<lparr>rm_currentEngine := newEngine\<rparr>
      in if Capabilities_Has (ms_Capabilities localState) CapGRPC then
           case ec_stop cl c1 stopServer r1 of
             Blocks \<Rightarrow> Blocks
           | Exits \<Rightarrow> Exits
           | Done r2 \<Rightarrow>
               (case ec_start newServer localState newEngine r2 of
                  Blocks \<Rightarrow> Blocks
                | Exits \<Rightarrow> Exits
                | Done r3 \<Rightarrow> ec_choose cl c2 dialled newEngine r3)
         else Done (r1\<lparr>rm_currentRegistry := Some EtcdReg\<rparr>))"

section \<open>The registry it is\<close>

definition getRegistry :: "RegistryMux \<Rightarrow> which_registry" where
  "getRegistry r = (case rm_currentRegistry r of None \<Rightarrow> EtcdReg | Some w \<Rightarrow> w)"

definition mux_registry :: "'s Registry \<Rightarrow> 's Registry \<Rightarrow> RegistryMux \<Rightarrow> 's Registry" where
  "mux_registry etcdRegistry rpcRegistry r =
     (let reg = (case getRegistry r of EtcdReg \<Rightarrow> etcdRegistry | RpcReg \<Rightarrow> rpcRegistry) in
      \<lparr>reg_ClearUnitHeartbeat = reg_ClearUnitHeartbeat reg,
       reg_CreateMachineState = reg_CreateMachineState etcdRegistry,
       reg_CreateUnit = reg_CreateUnit reg,
       reg_DestroyUnit = reg_DestroyUnit reg,
       reg_UnitHeartbeat = reg_UnitHeartbeat reg,
       reg_Machines = reg_Machines etcdRegistry,
       reg_RemoveMachineState = reg_RemoveMachineState etcdRegistry,
       reg_RemoveUnitState = reg_RemoveUnitState reg,
       reg_SaveUnitState = reg_SaveUnitState reg,
       reg_ScheduleUnit = reg_ScheduleUnit reg,
       reg_SetUnitTargetState = reg_SetUnitTargetState reg,
       reg_SetMachineState = reg_SetMachineState etcdRegistry,
       reg_MachineState = reg_MachineState etcdRegistry,
       reg_UnscheduleUnit = reg_UnscheduleUnit reg,
       reg_SetMachineMetadata = reg_SetMachineMetadata etcdRegistry,
       reg_DeleteMachineMetadata = reg_DeleteMachineMetadata etcdRegistry,
       reg_IsRegistryReady = reg_IsRegistryReady reg,
       reg_UseEtcdRegistry = reg_UseEtcdRegistry reg,
       reg_Schedule = reg_Schedule reg,
       reg_ScheduledUnit = reg_ScheduledUnit reg,
       reg_Unit = reg_Unit reg,
       reg_Units = reg_Units reg,
       reg_UnitState = reg_UnitState reg,
       reg_UnitStates = reg_UnitStates reg\<rparr>)"

end
