(* ===== verification/Rpc_Laws.thy ===== *)
theory Rpc_Laws
  imports Rpc_Mux Fake_Registry
begin

text \<open>
  What the gRPC service promises: it mirrors the registry behind it. The registry is any that meets
  the contract \<open>rpc_backend\<close>; the registry of \<open>registry/fake.go\<close> meets it. Then the laws of the
  in-memory registry as a store of unit states, and of the registry that follows the leader.
\<close>

section \<open>The contract of the registry behind the service\<close>

text \<open>
  \<open>units r\<close> is the unit stored under each name, \<open>target r\<close> the machine each unit is scheduled to, empty
  for none. An operation that succeeds changes what it is about and nothing else; one that fails
  changes neither.
\<close>

locale rpc_backend =
  fixes reg :: "'r Registry"
    and inv :: "'r \<Rightarrow> bool"
    and units :: "'r \<Rightarrow> (string \<rightharpoonup> Unit)"
    and target :: "'r \<Rightarrow> string \<Rightarrow> string"
  assumes Units_content: "\<lbrakk>inv r; reg_Units reg r = Inr us\<rbrakk> \<Longrightarrow>
      distinct (map u_Name us) \<and> (\<forall>u. u \<in> set us \<longleftrightarrow> units r (u_Name u) = Some u)"
    and content_ok: "\<lbrakk>inv r; units r n = Some u\<rbrakk> \<Longrightarrow> u_Name u = n \<and> wire_ok u"
    and Schedule_content: "\<lbrakk>inv r; reg_Schedule reg r = Inr ss\<rbrakk> \<Longrightarrow>
      distinct (map su_Name ss) \<and> (\<forall>su\<in>set ss. target r (su_Name su) = su_TargetMachineID su) \<and>
      (\<forall>n. n \<notin> su_Name ` set ss \<longrightarrow> target r n = [])"
    and Create: "\<lbrakk>inv r; wire_ok u; reg_CreateUnit reg u r = (err, r')\<rbrakk> \<Longrightarrow>
      inv r' \<and> target r' = target r \<and> units r' = (if err = None then (units r)(u_Name u \<mapsto> u) else units r)"
    and Destroy: "\<lbrakk>inv r; reg_DestroyUnit reg n r = (err, r')\<rbrakk> \<Longrightarrow>
      inv r' \<and> units r' = (if err = None then (units r)(n := None) else units r) \<and>
      target r' = (if err = None then (target r)(n := []) else target r)"
    and SetTarget: "\<lbrakk>inv r; job_state t; reg_SetUnitTargetState reg n t r = (err, r')\<rbrakk> \<Longrightarrow>
      inv r' \<and> target r' = target r \<and>
      units r' = (if err = None then (units r)(n := map_option (u_TargetState_update (\<lambda>_. t)) (units r n)) else units r)"
    and Schedule: "\<lbrakk>inv r; reg_ScheduleUnit reg n m r = (err, r')\<rbrakk> \<Longrightarrow>
      inv r' \<and> units r' = units r \<and> target r' = (if err = None then (target r)(n := m) else target r)"
    and Unschedule: "\<lbrakk>inv r; reg_UnscheduleUnit reg n m r = (err, r')\<rbrakk> \<Longrightarrow>
      inv r' \<and> units r' = units r \<and> target r' = (if err = None then (target r)(n := []) else target r)"
    and SaveState: "inv r \<Longrightarrow> inv (reg_SaveUnitState reg n st ttl r) \<and>
      units (reg_SaveUnitState reg n st ttl r) = units r \<and> target (reg_SaveUnitState reg n st ttl r) = target r"
    and RemoveState: "\<lbrakk>inv r; reg_RemoveUnitState reg n r = (err, r')\<rbrakk> \<Longrightarrow>
      inv r' \<and> units r' = units r \<and> target r' = target r"

text \<open>The calls that change the state of the service.\<close>

datatype rpc_call =
    CallCreateUnit pbUnit
  | CallDestroyUnit string
  | CallSetUnitTargetState string TargetState
  | CallScheduleUnit string string
  | CallUnscheduleUnit string string
  | CallSaveUnitState Time string pbUnitState "32 word"
  | CallRemoveUnitState string
  | CallUnitHeartbeat Time string string "32 word"
  | CallClearUnitHeartbeat string

fun rs_call :: "'r Registry \<Rightarrow> rpc_call \<Rightarrow> rpcserver \<times> 'r \<Rightarrow> rpcserver \<times> 'r" where
  "rs_call reg (CallCreateUnit u) sr = snd (rs_CreateUnit reg u sr)"
| "rs_call reg (CallDestroyUnit n) sr = snd (rs_DestroyUnit reg n sr)"
| "rs_call reg (CallSetUnitTargetState n st) sr = snd (rs_SetUnitTargetState reg n st sr)"
| "rs_call reg (CallScheduleUnit n m) sr = snd (rs_ScheduleUnit reg n m sr)"
| "rs_call reg (CallUnscheduleUnit n m) sr = snd (rs_UnscheduleUnit reg n m sr)"
| "rs_call reg (CallSaveUnitState now n st ttl) sr = rs_SaveUnitState reg now n st ttl sr"
| "rs_call reg (CallRemoveUnitState n) sr = rs_RemoveUnitState reg n sr"
| "rs_call reg (CallUnitHeartbeat now n m ttl) (s, r) = (rs_UnitHeartbeat now n m ttl s, r)"
| "rs_call reg (CallClearUnitHeartbeat n) (s, r) = (rs_ClearUnitHeartbeat n s, r)"

text \<open>The client of a connection that delivers every call to the service, once; \<open>now\<close> is the clock of the service.\<close>

definition direct_client ::
  "range_order \<Rightarrow> (MUSKey list \<Rightarrow> MUSKey list) \<Rightarrow> Time \<Rightarrow> 'r Registry \<Rightarrow> (rpcserver \<times> 'r) RegistryServiceClient" where
  "direct_client ord srt now reg =
     \<lparr>cl_GetScheduledUnits = (\<lambda>(s, r). Inr (rs_GetScheduledUnits ord s)),
      cl_GetScheduledUnit = (\<lambda>n (s, r). Inr (rs_GetScheduledUnit n s)),
      cl_GetUnit = (\<lambda>n (s, r). Inr (rs_GetUnit n s)),
      cl_GetUnits = rs_GetUnits reg,
      cl_GetUnitState = (\<lambda>n (s, r). Inr (rs_GetUnitState ord now n s)),
      cl_GetUnitStates = rs_GetUnitStates srt reg now,
      cl_ClearUnitHeartbeat = (\<lambda>n (s, r). (None, rs_ClearUnitHeartbeat n s, r)),
      cl_CreateUnit = rs_CreateUnit reg,
      cl_DestroyUnit = rs_DestroyUnit reg,
      cl_UnitHeartbeat = (\<lambda>n m ttl (s, r). (None, rs_UnitHeartbeat now n m ttl s, r)),
      cl_RemoveUnitState = (\<lambda>n sr. (None, rs_RemoveUnitState reg n sr)),
      cl_SaveUnitState = (\<lambda>n st ttl sr. (None, rs_SaveUnitState reg now n st ttl sr)),
      cl_ScheduleUnit = rs_ScheduleUnit reg,
      cl_SetUnitTargetState = rs_SetUnitTargetState reg,
      cl_UnscheduleUnit = rs_UnscheduleUnit reg,
      cl_Status = (\<lambda>service (s, r). rs_Status service s)\<rparr>"

text \<open>The machine the in-memory registry has a unit scheduled to.\<close>

definition im_target :: "inmemoryRegistry \<Rightarrow> string \<Rightarrow> string" where
  "im_target im n = (case map_of (im_scheduledUnits im) n of None \<Rightarrow> [] | Some su \<Rightarrow> pbs_MachineID su)"

definition im_content :: "inmemoryRegistry \<Rightarrow> (string \<rightharpoonup> Unit)" where
  "im_content im = (\<lambda>n. map_option rpcUnitToJobUnit (map_of (im_unitsCache im) n))"

definition im_named :: "inmemoryRegistry \<Rightarrow> bool" where
  "im_named im \<longleftrightarrow> gmap_ok (im_unitsCache im) \<and> gmap_ok (im_scheduledUnits im) \<and>
     (\<forall>n u. map_of (im_unitsCache im) n = Some u \<longrightarrow> pbu_Name u = n) \<and>
     (\<forall>n u. map_of (im_scheduledUnits im) n = Some u \<longrightarrow> pbs_Name u = n)"

lemma im_named_new [simp]: "im_named newInmemoryRegistry"
  by (simp add: im_named_def newInmemoryRegistry_def)

lemma im_ScheduledUnit_target: "pbs_MachineID (im_ScheduledUnit n im) = im_target im n"
  by (simp add: im_ScheduledUnit_def im_target_def split: option.split)

lemmas im_ops = im_CreateUnit_def im_DestroyUnit_def im_SetUnitTargetState_def im_ScheduleUnit_def im_UnscheduleUnit_def
  im_SaveUnitState_def im_RemoveUnitState_def im_UnitHeartbeat_def im_ClearUnitHeartbeat_def

lemmas im_views = im_content_def im_target_def im_named_def

text \<open>Each operation in memory, seen through the two views.\<close>

lemma im_CreateUnit_view:
  "im_named im \<Longrightarrow> im_named (im_CreateUnit u im) \<and>
     im_content (im_CreateUnit u im) = (im_content im)(pbu_Name u \<mapsto> rpcUnitToJobUnit u) \<and>
     im_target (im_CreateUnit u im) = im_target im"
  by (auto simp: im_ops im_views fun_eq_iff)

lemma im_DestroyUnit_view:
  "im_named im \<Longrightarrow> im_named (snd (im_DestroyUnit n im)) \<and>
     im_content (snd (im_DestroyUnit n im)) = (im_content im)(n := None) \<and>
     im_target (snd (im_DestroyUnit n im)) = (im_target im)(n := [])"
  by (auto simp: im_ops im_views fun_eq_iff split: if_splits)

lemma im_SetUnitTargetState_view:
  "im_named im \<Longrightarrow> im_named (snd (im_SetUnitTargetState n st im)) \<and>
     im_content (snd (im_SetUnitTargetState n st im)) =
       (im_content im)(n := map_option (u_TargetState_update (\<lambda>_. rpcUnitStateToJobState st)) (im_content im n)) \<and>
     im_target (snd (im_SetUnitTargetState n st im)) = im_target im"
  by (auto simp: im_ops im_views fun_eq_iff rpcUnitToJobUnit_target split: option.splits)

lemma im_ScheduleUnit_view:
  "im_named im \<Longrightarrow> im_named (im_ScheduleUnit n m im) \<and> im_content (im_ScheduleUnit n m im) = im_content im \<and>
     im_target (im_ScheduleUnit n m im) = (im_target im)(n := m)"
  by (auto simp: im_ops im_views fun_eq_iff)

lemma im_UnscheduleUnit_view:
  "im_named im \<Longrightarrow> im_named (im_UnscheduleUnit n m im) \<and> im_content (im_UnscheduleUnit n m im) = im_content im \<and>
     im_target (im_UnscheduleUnit n m im) = (im_target im)(n := [])"
  by (auto simp: im_ops im_views fun_eq_iff split: if_splits)

lemma im_state_ops_view:
  "im_named im \<Longrightarrow> im_named (im_SaveUnitState now n st ttl im) \<and> im_content (im_SaveUnitState now n st ttl im) = im_content im \<and>
     im_target (im_SaveUnitState now n st ttl im) = im_target im"
  "im_named im \<Longrightarrow> im_named (im_RemoveUnitState n im) \<and> im_content (im_RemoveUnitState n im) = im_content im \<and>
     im_target (im_RemoveUnitState n im) = im_target im"
  "im_named im \<Longrightarrow> im_named (im_UnitHeartbeat now n m ttl im) \<and> im_content (im_UnitHeartbeat now n m ttl im) = im_content im \<and>
     im_target (im_UnitHeartbeat now n m ttl im) = im_target im"
  "im_named im \<Longrightarrow> im_named (im_ClearUnitHeartbeat n im) \<and> im_content (im_ClearUnitHeartbeat n im) = im_content im \<and>
     im_target (im_ClearUnitHeartbeat n im) = im_target im"
  by (simp_all add: im_ops im_views Let_def fun_eq_iff)

lemmas im_view = im_CreateUnit_view im_DestroyUnit_view im_SetUnitTargetState_view im_ScheduleUnit_view
  im_UnscheduleUnit_view im_state_ops_view

text \<open>What a load leaves in memory.\<close>

definition pb_scheduled :: "ScheduledUnit \<Rightarrow> pbScheduledUnit" where
  "pb_scheduled su = \<lparr>pbs_Name = su_Name su, pbs_CurrentState = JobState_ToPB (the (su_State su)), pbs_MachineID = su_TargetMachineID su\<rparr>"

lemma load_schedule_Returns:
  "load_schedule ss m = Returns m' \<longleftrightarrow> (\<forall>su\<in>set ss. su_State su \<noteq> None) \<and> m' = gput_all su_Name pb_scheduled ss m"
  by (induction ss arbitrary: m) (auto simp: ScheduledUnit_ToPB_def pb_scheduled_def split: option.split)

lemma load_schedule_Panics: "load_schedule ss m = Panics \<longleftrightarrow> (\<exists>su\<in>set ss. su_State su = None)"
  by (induction ss arbitrary: m) (auto simp: ScheduledUnit_ToPB_def split: option.split)

lemma map_of_gput_all_list:
  assumes "distinct (map key xs)"
  shows "map_of (gput_all key val xs []) k = Some v \<longleftrightarrow> (\<exists>x\<in>set xs. key x = k \<and> val x = v)"
  using map_of_gput_all_distinct[OF assms] map_of_gput_all_SomeD[of key val xs "[]" k v] by auto

lemma NewRPCServer_local:
  assumes "NewRPCServer resolve bind reg r = Returns (Inr s)" "reg_Units reg r = Inr us" "reg_Schedule reg r = Inr ss"
  shows "rs_localRegistry s = newInmemoryRegistry\<lparr>im_unitsCache := gput_all u_Name Unit_ToPB us [],
    im_scheduledUnits := gput_all su_Name pb_scheduled ss []\<rparr>"
  using assms
  by (auto simp: NewRPCServer_def im_LoadFrom_def Let_def load_schedule_Returns newInmemoryRegistry_def SetServingStatus_def
      split: option.splits call.splits sum.splits)

section \<open>The service mirrors the registry\<close>

context rpc_backend
begin

definition mirrors :: "rpcserver \<times> 'r \<Rightarrow> bool" where
  "mirrors = (\<lambda>(s, r). inv r \<and> im_named (rs_localRegistry s) \<and>
     im_content (rs_localRegistry s) = units r \<and> im_target (rs_localRegistry s) = target r)"

lemma mirrors_new:
  assumes "inv r" "NewRPCServer resolve bind reg r = Returns (Inr s)" "reg_Units reg r = Inr us" "reg_Schedule reg r = Inr ss"
  shows "mirrors (s, r)"
proof -
  note us = Units_content[OF assms(1,3)] and ss = Schedule_content[OF assms(1,4)]
  note sl = NewRPCServer_local[OF assms(2-4)]
  have u: "map_of (gput_all u_Name Unit_ToPB us []) n = Some p \<longleftrightarrow> (\<exists>u\<in>set us. u_Name u = n \<and> Unit_ToPB u = p)" for n p
    using us by (simp add: map_of_gput_all_list)
  have s: "map_of (gput_all su_Name pb_scheduled ss []) n = Some p \<longleftrightarrow> (\<exists>su\<in>set ss. su_Name su = n \<and> pb_scheduled su = p)" for n p
    using ss by (simp add: map_of_gput_all_list)
  have "im_content (rs_localRegistry s) n = units r n" for n
  proof (cases "units r n")
    case None
    then have "map_of (gput_all u_Name Unit_ToPB us []) n = None"
      using u[of n] us by (metis not_Some_eq)
    then show ?thesis using None by (simp add: im_content_def sl)
  next
    case (Some x)
    then have "map_of (gput_all u_Name Unit_ToPB us []) n = Some (Unit_ToPB x)"
      using u us content_ok[OF assms(1) Some] by blast
    then show ?thesis using Some content_ok[OF assms(1) Some] by (simp add: im_content_def sl wire_roundtrip_iff)
  qed
  moreover have "im_target (rs_localRegistry s) n = target r n" for n
  proof (cases "n \<in> su_Name ` set ss")
    case True
    then obtain su where su: "su \<in> set ss" "su_Name su = n" by blast
    then have "map_of (gput_all su_Name pb_scheduled ss []) n = Some (pb_scheduled su)" using s by blast
    then show ?thesis using su ss by (auto simp: im_target_def sl pb_scheduled_def)
  next
    case False
    then have "map_of (gput_all su_Name pb_scheduled ss []) n = None" by (simp add: map_of_gput_all_notin)
    then show ?thesis using False ss by (simp add: im_target_def sl)
  qed
  moreover have "im_named (rs_localRegistry s)"
    using u s by (auto simp: im_named_def sl pb_scheduled_def gmap_ok_gput_all)
  ultimately show ?thesis using assms(1) by (simp add: mirrors_def fun_eq_iff)
qed

lemma mirrors_create:
  assumes "mirrors (s, r)"
  shows "mirrors (snd (rs_CreateUnit reg u (s, r)))"
proof -
  obtain err r' where c: "reg_CreateUnit reg (rpcUnitToJobUnit u) r = (err, r')" by fastforce
  show ?thesis using Create[OF _ _ c] assms im_CreateUnit_view[of "rs_localRegistry s" u]
    by (auto simp: mirrors_def rs_CreateUnit_def c rs_local_def)
qed

lemma mirrors_destroy:
  assumes "mirrors (s, r)"
  shows "mirrors (snd (rs_DestroyUnit reg n (s, r)))"
proof -
  obtain err r' where c: "reg_DestroyUnit reg n r = (err, r')" by fastforce
  show ?thesis using Destroy[OF _ c] assms im_DestroyUnit_view[of "rs_localRegistry s" n]
    by (auto simp: mirrors_def rs_DestroyUnit_def c rs_local_def)
qed

lemma mirrors_target:
  assumes "mirrors (s, r)"
  shows "mirrors (snd (rs_SetUnitTargetState reg n st (s, r)))"
proof -
  obtain err r' where c: "reg_SetUnitTargetState reg n (rpcUnitStateToJobState st) r = (err, r')" by fastforce
  show ?thesis using SetTarget[OF _ _ c] assms im_SetUnitTargetState_view[of "rs_localRegistry s" n st]
    by (auto simp: mirrors_def rs_SetUnitTargetState_def c rs_local_def)
qed

lemma mirrors_schedule:
  assumes "mirrors (s, r)"
  shows "mirrors (snd (rs_ScheduleUnit reg n m (s, r)))"
proof -
  obtain err r' where c: "reg_ScheduleUnit reg n m r = (err, r')" by fastforce
  show ?thesis using Schedule[OF _ c] assms im_ScheduleUnit_view[of "rs_localRegistry s" n m]
    by (auto simp: mirrors_def rs_ScheduleUnit_def c rs_local_def)
qed

lemma mirrors_unschedule:
  assumes "mirrors (s, r)"
  shows "mirrors (snd (rs_UnscheduleUnit reg n m (s, r)))"
proof -
  obtain err r' where c: "reg_UnscheduleUnit reg n m r = (err, r')" by fastforce
  show ?thesis using Unschedule[OF _ c] assms im_UnscheduleUnit_view[of "rs_localRegistry s" n m]
    by (auto simp: mirrors_def rs_UnscheduleUnit_def c rs_local_def)
qed

lemma mirrors_states:
  assumes "mirrors (s, r)"
  shows "mirrors (rs_SaveUnitState reg now n st ttl (s, r))" "mirrors (rs_RemoveUnitState reg n (s, r))"
    "mirrors (rs_UnitHeartbeat now n m ttl s, r)" "mirrors (rs_ClearUnitHeartbeat n s, r)"
  using assms im_state_ops_view[of "rs_localRegistry s"] SaveState RemoveState[OF _ surjective_pairing]
  by (auto simp: mirrors_def rs_SaveUnitState_def rs_RemoveUnitState_def rs_UnitHeartbeat_def rs_ClearUnitHeartbeat_def rs_local_def)

lemma mirrors_call: "mirrors sr \<Longrightarrow> mirrors (rs_call reg c sr)"
  using mirrors_create mirrors_destroy mirrors_target mirrors_schedule mirrors_unschedule mirrors_states
  by (cases sr; cases c) simp_all

lemma mirrors_calls: "mirrors sr \<Longrightarrow> mirrors (fold (rs_call reg) calls sr)"
  by (induction calls arbitrary: sr) (simp_all add: mirrors_call)

text \<open>
  What the service then answers: the unit and its target are those of the registry, and the list of
  units is that of the registry, each once, whether or not the registry is consulted.
\<close>

lemma mirrors_GetUnits:
  assumes "mirrors (s, r)" "rs_GetUnits reg (s, r) = Inr ps"
  shows "distinct (map pbu_Name ps) \<and> (\<forall>u. u \<in> rpcUnitToJobUnit ` set ps \<longleftrightarrow> units r (u_Name u) = Some u)"
proof -
  let ?im = "rs_localRegistry s"
  have m: "inv r" "im_named ?im" "im_content ?im = units r" using assms(1) by (auto simp: mirrors_def)
  have cache: "units r n = Some u \<longleftrightarrow> (\<exists>p. map_of (im_unitsCache ?im) n = Some p \<and> rpcUnitToJobUnit p = u)" for n u
    by (simp add: m(3)[symmetric] im_content_def)
  have named: "map pbu_Name (im_Units ?im) = sort (gkeys (im_unitsCache ?im))"
    using m(2) by (auto simp: im_Units_def im_named_def intro!: map_idI)
  have ps: "ps = im_Units ?im"
  proof (cases "rs_hasNonGRPCAgents s")
    case True
    then obtain us where us: "reg_Units reg r = Inr us"
      "ps = im_Units ?im @ map Unit_ToPB (filter (\<lambda>u. u_Name u \<notin> set (map pbu_Name (im_Units ?im))) us)"
      using assms(2) by (auto simp: rs_GetUnits_def Let_def split: sum.splits)
    have "u_Name u \<in> set (map pbu_Name (im_Units ?im))" if "u \<in> set us" for u
      using that Units_content[OF m(1) us(1)] cache unfolding named by fastforce
    then have "filter (\<lambda>u. u_Name u \<notin> set (map pbu_Name (im_Units ?im))) us = []" by (simp add: filter_empty_conv)
    then show ?thesis using us(2) by simp
  qed (use assms(2) in \<open>simp add: rs_GetUnits_def\<close>)
  have "distinct (map pbu_Name ps)" unfolding ps named using m(2) by (simp add: im_named_def)
  moreover have mem: "p \<in> set ps \<longleftrightarrow> map_of (im_unitsCache ?im) (pbu_Name p) = Some p" for p
  proof
    assume "p \<in> set ps"
    then obtain n where n: "n \<in> dom (map_of (im_unitsCache ?im))" "p = the (map_of (im_unitsCache ?im) n)"
      unfolding ps im_Units_def by auto
    then have "map_of (im_unitsCache ?im) n = Some p" by (simp add: domIff)
    with m(2) show "map_of (im_unitsCache ?im) (pbu_Name p) = Some p" by (simp add: im_named_def)
  next
    assume p: "map_of (im_unitsCache ?im) (pbu_Name p) = Some p"
    then have "pbu_Name p \<in> set (sort (gkeys (im_unitsCache ?im)))" by (simp add: domI)
    then have "the (map_of (im_unitsCache ?im) (pbu_Name p)) \<in> set ps" unfolding ps im_Units_def by simp
    with p show "p \<in> set ps" by simp
  qed
  moreover have "u \<in> rpcUnitToJobUnit ` set ps \<longleftrightarrow> units r (u_Name u) = Some u" for u
  proof
    assume "u \<in> rpcUnitToJobUnit ` set ps"
    then obtain p where "p \<in> set ps" "u = rpcUnitToJobUnit p" by blast
    then show "units r (u_Name u) = Some u" using mem[of p] cache by simp
  next
    assume "units r (u_Name u) = Some u"
    then obtain p where p: "map_of (im_unitsCache ?im) (u_Name u) = Some p" "rpcUnitToJobUnit p = u" using cache by blast
    then have "pbu_Name p = u_Name u" using m(2) by (simp add: im_named_def)
    then show "u \<in> rpcUnitToJobUnit ` set ps" using mem[of p] p by force
  qed
  ultimately show ?thesis by blast
qed

text \<open>Seen through the client: the registry over gRPC has the units of the registry behind the service.\<close>

lemma mirrors_client:
  assumes "mirrors sr"
  shows "rr_Unit (direct_client ord srt now reg) n sr = Inr (units (snd sr) n)"
    "\<exists>st. rr_ScheduledUnit (direct_client ord srt now reg) n sr = Inr (Some \<lparr>su_Name = n, su_State = st, su_TargetMachineID = target (snd sr) n\<rparr>)"
    "mirrors (snd (rr_CreateUnit (direct_client ord srt now reg) u sr))"
proof -
  obtain s r where sr: "sr = (s, r)" by fastforce
  have m: "im_named (rs_localRegistry s)" "im_content (rs_localRegistry s) = units r" "im_target (rs_localRegistry s) = target r"
    using assms by (auto simp: mirrors_def sr)
  show "rr_Unit (direct_client ord srt now reg) n sr = Inr (units (snd sr) n)"
    using m(2) by (auto simp: rr_Unit_def direct_client_def sr rs_GetUnit_def im_Unit_def im_content_def fun_eq_iff)
  have "pbs_Name (im_ScheduledUnit n (rs_localRegistry s)) = n"
    using m(1) by (simp add: im_ScheduledUnit_def im_named_def split: option.split)
  then show "\<exists>st. rr_ScheduledUnit (direct_client ord srt now reg) n sr = Inr (Some \<lparr>su_Name = n, su_State = st, su_TargetMachineID = target (snd sr) n\<rparr>)"
    using m(3) by (simp add: rr_ScheduledUnit_def direct_client_def sr rs_GetScheduledUnit_def rr_scheduled_def im_ScheduledUnit_target)
  show "mirrors (snd (rr_CreateUnit (direct_client ord srt now reg) u sr))"
    using mirrors_create[of s r] assms by (simp add: rr_CreateUnit_def direct_client_def sr)
qed

end

section \<open>The fake registry meets the contract\<close>

definition fr_target :: "FakeRegistry \<Rightarrow> string \<Rightarrow> string" where
  "fr_target f n = (case map_of (fr_jobs f) n of None \<Rightarrow> [] | Some j \<Rightarrow> j_TargetMachineID j)"

definition fr_wire_inv :: "FakeRegistry \<Rightarrow> bool" where
  "fr_wire_inv f \<longleftrightarrow> fr_inv f \<and> (\<forall>k j. map_of (fr_jobs f) k = Some j \<longrightarrow> wire_ok (fr_unit j))"

lemma fr_unit_simps [simp]:
  "u_Name (fr_unit j) = j_Name j" "wire_ok (fr_unit (j\<lparr>j_TargetMachineID := m\<rparr>)) = wire_ok (fr_unit j)"
  "fr_unit (j\<lparr>j_TargetMachineID := m\<rparr>) = fr_unit j"
  "fr_unit (j\<lparr>j_TargetState := st\<rparr>) = (fr_unit j)\<lparr>u_TargetState := st\<rparr>"
  by (simp_all add: fr_unit_def)

lemma wire_ok_target: "wire_ok u \<Longrightarrow> job_state st \<Longrightarrow> wire_ok (u\<lparr>u_TargetState := st\<rparr>)"
  by (simp add: wire_ok_def)

lemmas fr_views = fr_wire_inv_def fr_inv_def fr_content_def fr_target_def

lemma fr_Schedule_content:
  assumes "fr_wire_inv f" "fr_Schedule f = Inr ss"
  shows "distinct (map su_Name ss) \<and> (\<forall>su\<in>set ss. fr_target f (su_Name su) = su_TargetMachineID su) \<and>
    (\<forall>n. n \<notin> su_Name ` set ss \<longrightarrow> fr_target f n = [])"
proof -
  have inv: "fr_inv f" using assms(1) by (simp add: fr_wire_inv_def)
  then have ok: "gmap_ok (fr_jobs f)" by (simp add: fr_inv_def)
  have ss: "ss = map (\<lambda>n. fr_sunit (the (map_of (fr_jobs f) n))) (sort (gkeys (fr_jobs f)))"
    using assms(2) by (simp add: fr_Schedule_def fr_sorted_names[OF inv])
  have name: "su_Name (fr_sunit (the (map_of (fr_jobs f) n))) = n" if "n \<in> dom (map_of (fr_jobs f))" for n
    using that inv by (auto simp: fr_inv_def fr_sunit_def)
  have names: "map su_Name ss = sort (gkeys (fr_jobs f))"
    unfolding ss by (auto simp: name intro!: map_idI)
  have n2: "su_Name ` set ss = dom (map_of (fr_jobs f))" using arg_cong[OF names, of set] by simp
  show ?thesis
  proof (intro conjI ballI allI impI)
    show "distinct (map su_Name ss)" unfolding names using ok by simp
    show "fr_target f (su_Name su) = su_TargetMachineID su" if "su \<in> set ss" for su
      using that name by (auto simp: ss fr_target_def fr_sunit_def)
    show "fr_target f n = []" if "n \<notin> su_Name ` set ss" for n
      using that unfolding n2 by (auto simp: fr_target_def split: option.split)
  qed
qed

interpretation fake_backend: rpc_backend "fake_registry ord" fr_wire_inv fr_content fr_target
proof
  fix r us assume "fr_wire_inv r" "reg_Units (fake_registry ord) r = Inr us"
  then show "distinct (map u_Name us) \<and> (\<forall>u. u \<in> set us \<longleftrightarrow> fr_content r (u_Name u) = Some u)"
    using fr_Units_spec[of r us] by (auto simp: fake_registry_def fr_wire_inv_def strict_sorted_iff)
next
  fix r n u assume "fr_wire_inv r" "fr_content r n = Some u"
  then show "u_Name u = n \<and> wire_ok u" by (auto simp: fr_views)
next
  fix r ss assume "fr_wire_inv r" "reg_Schedule (fake_registry ord) r = Inr ss"
  then show "distinct (map su_Name ss) \<and> (\<forall>su\<in>set ss. fr_target r (su_Name su) = su_TargetMachineID su) \<and>
      (\<forall>n. n \<notin> su_Name ` set ss \<longrightarrow> fr_target r n = [])"
    using fr_Schedule_content by (simp add: fake_registry_def)
next
  fix r u err r' assume "fr_wire_inv r" "wire_ok u" "reg_CreateUnit (fake_registry ord) u r = (err, r')"
  then show "fr_wire_inv r' \<and> fr_target r' = fr_target r \<and>
      fr_content r' = (if err = None then (fr_content r)(u_Name u \<mapsto> u) else fr_content r)"
    by (cases u) (auto simp: fake_registry_def fr_CreateUnit_def unsafeSetUnitTargetState_def fr_views fr_unit_def gmem_def
        Let_def fun_eq_iff split: if_splits)
next
  fix r n err r' assume "fr_wire_inv r" "reg_DestroyUnit (fake_registry ord) n r = (err, r')"
  then show "fr_wire_inv r' \<and> fr_content r' = (if err = None then (fr_content r)(n := None) else fr_content r) \<and>
      fr_target r' = (if err = None then (fr_target r)(n := []) else fr_target r)"
    by (auto simp: fake_registry_def fr_DestroyUnit_def fr_views fun_eq_iff split: if_splits)
next
  fix r st n err r' assume "fr_wire_inv r" "job_state st" "reg_SetUnitTargetState (fake_registry ord) n st r = (err, r')"
  then show "fr_wire_inv r' \<and> fr_target r' = fr_target r \<and>
      fr_content r' = (if err = None then (fr_content r)(n := map_option (u_TargetState_update (\<lambda>_. st)) (fr_content r n)) else fr_content r)"
    by (auto simp: fake_registry_def fr_SetUnitTargetState_def unsafeSetUnitTargetState_def fr_views wire_ok_target fun_eq_iff
        split: option.splits if_splits)
next
  fix r n m err r' assume "fr_wire_inv r" "reg_ScheduleUnit (fake_registry ord) n m r = (err, r')"
  then show "fr_wire_inv r' \<and> fr_content r' = fr_content r \<and> fr_target r' = (if err = None then (fr_target r)(n := m) else fr_target r)"
    by (auto simp: fake_registry_def fr_ScheduleUnit_def fr_views fun_eq_iff split: option.splits if_splits)
next
  fix r n m err r' assume "fr_wire_inv r" "reg_UnscheduleUnit (fake_registry ord) n m r = (err, r')"
  then show "fr_wire_inv r' \<and> fr_content r' = fr_content r \<and> fr_target r' = (if err = None then (fr_target r)(n := []) else fr_target r)"
    by (auto simp: fake_registry_def)
next
  fix r n st ttl assume "fr_wire_inv r"
  then show "fr_wire_inv (reg_SaveUnitState (fake_registry ord) n st ttl r) \<and>
      fr_content (reg_SaveUnitState (fake_registry ord) n st ttl r) = fr_content r \<and>
      fr_target (reg_SaveUnitState (fake_registry ord) n st ttl r) = fr_target r"
    by (simp add: fake_registry_def fr_SaveUnitState_def fr_views fun_eq_iff)
next
  fix r n err r' assume "fr_wire_inv r" "reg_RemoveUnitState (fake_registry ord) n r = (err, r')"
  then show "fr_wire_inv r' \<and> fr_content r' = fr_content r \<and> fr_target r' = fr_target r"
    by (auto simp: fake_registry_def fr_RemoveUnitState_def fr_views fun_eq_iff)
qed

section \<open>A machine that falls silent\<close>

text \<open>The calls that leave the schedule, the states and the heartbeats of a unit alone.\<close>

fun silent :: "string \<Rightarrow> rpc_call \<Rightarrow> bool" where
  "silent n (CallCreateUnit u) = True"
| "silent n (CallDestroyUnit n') = (n' \<noteq> n)"
| "silent n (CallSetUnitTargetState n' st) = True"
| "silent n (CallScheduleUnit n' m) = (n' \<noteq> n)"
| "silent n (CallUnscheduleUnit n' m) = (n' \<noteq> n)"
| "silent n (CallSaveUnitState now n' st ttl) = (n' \<noteq> n)"
| "silent n (CallRemoveUnitState n') = (n' \<noteq> n)"
| "silent n (CallUnitHeartbeat now n' m ttl) = (n' \<noteq> n)"
| "silent n (CallClearUnitHeartbeat n') = (n' \<noteq> n)"

definition im_about :: "string \<Rightarrow> inmemoryRegistry \<Rightarrow> pbScheduledUnit option \<times> (string, Time) gmap option \<times> (string, unitStateHeartbeat) gmap option" where
  "im_about n im = (map_of (im_scheduledUnits im) n, map_of (im_unitHeartbeats im) n, map_of (im_unitStates im) n)"

lemma map_of_gput2_other: "a \<noteq> a' \<Longrightarrow> map_of (gput2 a b v m) a' = map_of m a'"
  by (simp add: gput2_def split: option.split)

lemma gget2_gput2: "gget2 (gput2 a b v m) a' b' = (if a = a' \<and> b = b' then Some v else gget2 m a' b')"
  by (auto simp: gget2_def gput2_def split: option.split)

lemmas rs_ops = rs_CreateUnit_def rs_DestroyUnit_def rs_SetUnitTargetState_def rs_ScheduleUnit_def rs_UnscheduleUnit_def
  rs_SaveUnitState_def rs_RemoveUnitState_def rs_UnitHeartbeat_def rs_ClearUnitHeartbeat_def rs_local_def

lemma silent_call:
  "silent n c \<Longrightarrow> im_about n (rs_localRegistry (fst (rs_call reg c (s, r)))) = im_about n (rs_localRegistry s)"
  by (cases c) (simp_all add: rs_ops im_ops im_about_def Let_def case_prod_beta map_of_gput2_other split: option.split)

lemma silent_calls:
  "\<forall>c\<in>set calls. silent n c \<Longrightarrow>
     im_about n (rs_localRegistry (fst (fold (rs_call reg) calls sr))) = im_about n (rs_localRegistry (fst sr))"
proof (induction calls arbitrary: sr)
  case (Cons c calls)
  then show ?case using silent_call[of n c reg "fst sr" "snd sr"] by simp
qed simp

lemma im_ScheduledUnit_about:
  "im_about n im = im_about n im' \<Longrightarrow> im_ScheduledUnit n im = im_ScheduledUnit n im'"
  by (auto simp: im_about_def im_ScheduledUnit_def im_getScheduledUnitState_def im_isUnitLoaded_def im_isUnitLaunched_def gget2_def
      split: option.split)

definition maps_ok :: "('a, ('b, 'v) gmap) gmap \<Rightarrow> bool" where
  "maps_ok m \<longleftrightarrow> gmap_ok m \<and> (\<forall>n inner. map_of m n = Some inner \<longrightarrow> gmap_ok inner)"

lemma maps_ok_gput2 [simp]: "maps_ok m \<Longrightarrow> maps_ok (gput2 a b v m)"
  by (auto simp: maps_ok_def gput2_def gmap_ok_def[of "[_]"] split: option.split)

lemma maps_ok_gdel [simp]: "maps_ok m \<Longrightarrow> maps_ok (gdel a m)"
  by (auto simp: maps_ok_def split: if_splits)

definition im_states_ok :: "inmemoryRegistry \<Rightarrow> bool" where
  "im_states_ok im \<longleftrightarrow> maps_ok (im_unitStates im)"

lemma im_states_ok_call:
  "im_states_ok (rs_localRegistry s) \<Longrightarrow> im_states_ok (rs_localRegistry (fst (rs_call reg c (s, r))))"
  by (cases c) (simp_all add: rs_ops im_ops im_states_ok_def Let_def case_prod_beta split: option.split)

lemma im_states_ok_calls:
  "im_states_ok (rs_localRegistry (fst sr)) \<Longrightarrow> im_states_ok (rs_localRegistry (fst (fold (rs_call reg) calls sr)))"
proof (induction calls arbitrary: sr)
  case (Cons c calls)
  then show ?case using im_states_ok_call[of "fst sr" reg c "snd sr"] by simp
qed simp

text \<open>The states listed are those that have not expired.\<close>

lemma im_statesByMUSKey_keys:
  assumes "im_states_ok im"
  shows "(n, m) \<in> set (gkeys (im_statesByMUSKey now im)) \<longleftrightarrow> (\<exists>b. gget2 (im_unitStates im) n m = Some b \<and> now < ib_deadline b)"
proof
  assume "(n, m) \<in> set (gkeys (im_statesByMUSKey now im))"
  then obtain inner b where x: "(n, inner) \<in> set (im_unitStates im)" "(m, b) \<in> set inner" "now < ib_deadline b"
    unfolding gkeys_def by (auto simp: im_statesByMUSKey_def isValid_def)
  then have "map_of (im_unitStates im) n = Some inner" using assms by (simp add: gmap_mem_iff im_states_ok_def maps_ok_def)
  moreover from this have "map_of inner m = Some b" using x(2) assms by (auto simp: gmap_mem_iff im_states_ok_def maps_ok_def)
  ultimately show "\<exists>b. gget2 (im_unitStates im) n m = Some b \<and> now < ib_deadline b" using x(3) by (simp add: gget2_def)
next
  assume "\<exists>b. gget2 (im_unitStates im) n m = Some b \<and> now < ib_deadline b"
  then obtain inner b where x: "map_of (im_unitStates im) n = Some inner" "map_of inner m = Some b" "now < ib_deadline b"
    by (auto simp: gget2_def split: option.splits)
  have "((n, m), ib_state b) \<in> set (im_statesByMUSKey now im)"
    using x map_of_SomeD[OF x(1)] map_of_SomeD[OF x(2)] by (force simp: im_statesByMUSKey_def isValid_def)
  then show "(n, m) \<in> set (gkeys (im_statesByMUSKey now im))" unfolding gkeys_def by force
qed

section \<open>Following the leader\<close>

lemma Done_ready: "mux_ready cl c r = Done True \<Longrightarrow> \<exists>rr b. rm_rpcRegistry r = Some rr \<and> rr_registryConn rr \<and> rr_balancer rr = Some b"
  by (auto simp: mux_ready_def rr_IsRegistryReady_def Let_def split: option.splits if_splits sum.splits)

lemma closed_blocks:
  assumes "rm_rpcRegistry r = Some rr" "rr_registryConn rr" "rr_balancer rr = Some b"
  shows "mux_ready cl c (mux_close r) = Blocks"
  using assms by (simp add: mux_ready_def mux_close_def rr_Close_def rr_IsRegistryReady_def sb_Close_def Let_def)

lemma round_connected:
  assumes "ConnectToRegistry_round cl c (Inr True) dialled r = Done r'"
  shows "\<exists>rr b. rm_rpcRegistry r' = Some rr \<and> rr_registryConn rr \<and> rr_balancer rr = Some b"
  using assms Done_ready[of cl c r]
  by (auto simp: ConnectToRegistry_round_def mux_connect_def rr_Connect_def split: waiting.splits if_splits)

text \<open>A balancer that was closed is never ready again.\<close>

lemma sb_Up_after_Close: "sb_readyOnce b \<Longrightarrow> \<not> sb_readyc_closed (sb_Up (sb_Close b))"
  by (simp add: sb_Up_def sb_Close_def)

definition serves :: "RegistryMux \<Rightarrow> bool" where
  "serves r \<longleftrightarrow> (\<exists>s. rm_rpcserver r = Some s \<and> rs_serverStatus s = SERVING)"

text \<open>What each step of \<open>EngineChanged\<close> does to the server and the engine.\<close>

lemma ec_stop_Done:
  "ec_stop cl c stopServer r = Done r' \<Longrightarrow>
     rm_currentEngine r' = rm_currentEngine r \<and> (rm_rpcserver r' = rm_rpcserver r \<or> rm_rpcserver r' = None) \<and>
     (stopServer \<longrightarrow> rm_rpcserver r' = None)"
  by (auto simp: ec_stop_def split: if_splits waiting.splits)

lemma ec_start_Done:
  "ec_start newServer localState newEngine r = Done r' \<Longrightarrow>
     rm_currentEngine r' = rm_currentEngine r \<and>
     (rm_rpcserver r' = rm_rpcserver r \<and> (ms_ID newEngine \<noteq> ms_ID localState \<or> rm_rpcserver r \<noteq> None) \<or>
      ms_ID newEngine = ms_ID localState \<and> serves r')"
  by (auto simp: ec_start_def serves_def rs_Start_def SetServingStatus_def split: if_splits sum.splits)

lemma ec_choose_Done:
  "ec_choose cl c dialled newEngine r = Done r' \<Longrightarrow>
     rm_currentEngine r' = rm_currentEngine r \<and>
     (if Capabilities_Has (ms_Capabilities newEngine) CapGRPC then getRegistry r' = RpcReg \<and> rm_rpcserver r' = rm_rpcserver r
      else getRegistry r' = EtcdReg \<and> \<not> serves r')"
  by (auto simp: ec_choose_def mux_connect_def getRegistry_def serves_def rs_Stop_def SetServingStatus_def
      split: if_splits waiting.splits)

end
