(* ===== verification/Agent_Publisher.thy ===== *)
theory Agent_Publisher
  imports Fake_Registry Unit_Manager "HOL-Library.Multiset" "HOL-Library.Signed_Division"
begin

text \<open>
  \<open>agent/unit_state.go\<close>: the publisher of unit states. Its goroutines are the steps of a transition
  system: the loop over heartbeats, the periodic tick, the goroutines that queue a state and the
  workers that publish one may run in any order between the points where they hold a lock. Stopping
  is not a step; \<open>Purge\<close> runs after it.
\<close>

section \<open>Operations\<close>

definition numPublishers :: nat where "numPublishers = 5"

record UnitStatePublisher =
  up_cache :: "(string, UnitState option) gmap"
  up_toPublishStates :: "(string, UnitState option) gmap"

definition NewUnitStatePublisher :: UnitStatePublisher where
  "NewUnitStatePublisher = \<lparr>up_cache = [], up_toPublishStates = []\<rparr>"

definition newPublisher :: "'r Registry \<Rightarrow> Duration \<Rightarrow> string \<Rightarrow> UnitState option \<Rightarrow> 'r \<Rightarrow> 'r" where
  "newPublisher reg ttl name us r =
     (case us of
        None \<Rightarrow> snd (reg_RemoveUnitState reg name r)
      | Some s \<Rightarrow>
          if us_UnitHash s = [] then r
          else if us_MachineID s = [] then r
          else reg_SaveUnitState reg name s ttl r)"

definition publish_period :: "Duration \<Rightarrow> Duration" where
  "publish_period ttl =
     (if 10000000000 <s ttl then word_of_int (sint (ttl * 4) sdiv 5) else word_of_int (sint ttl sdiv 2))"

definition pruneCache :: "UnitStatePublisher \<Rightarrow> UnitStatePublisher" where
  "pruneCache p = p\<lparr>up_cache := filter (\<lambda>(name, us). us \<noteq> None) (up_cache p)\<rparr>"

definition updateCache :: "UnitStateHeartbeat \<Rightarrow> UnitStatePublisher \<Rightarrow> bool \<times> UnitStatePublisher" where
  "updateCache update p =
     (map_of (up_cache p) (ush_Name update) \<noteq> Some (ush_State update),
      p\<lparr>up_cache := gput (ush_Name update) (ush_State update) (up_cache p)\<rparr>)"

definition usp_Purge :: "range_order \<Rightarrow> 'r Registry \<Rightarrow> Duration \<Rightarrow> UnitStatePublisher \<Rightarrow> 'r \<Rightarrow> 'r" where
  "usp_Purge ord reg ttl p r = fold (\<lambda>name. newPublisher reg ttl name None) (ord [''cache''] (gkeys (up_cache p))) r"

section \<open>The goroutines\<close>

text \<open>
  Besides the publisher and the registry: the goroutines of \<open>queueForPublish\<close> that have not taken the
  lock yet, those that wait to send their name, and the workers between taking a state and
  publishing it.
\<close>

record 'r publishing =
  pr_publisher :: UnitStatePublisher
  pr_spawned :: "(string \<times> UnitState option) list"
  pr_sending :: "string list"
  pr_holding :: "(string \<times> UnitState option) list"
  pr_registry :: 'r

definition drop_nth :: "nat \<Rightarrow> 'a list \<Rightarrow> 'a list" where
  "drop_nth i xs = take i xs @ drop (Suc i) xs"

definition run_beat :: "string \<Rightarrow> UnitStateHeartbeat \<Rightarrow> 'r publishing \<Rightarrow> 'r publishing" where
  "run_beat machID beat p =
     (let bt = beat\<lparr>ush_State := map_option (\<lambda>s. s\<lparr>us_MachineID := machID\<rparr>) (ush_State beat)\<rparr>;
          (changed, q) = updateCache bt (pr_publisher p)
      in p\<lparr>pr_publisher := q, pr_spawned := (if changed then [(ush_Name bt, ush_State bt)] else []) @ pr_spawned p\<rparr>)"

definition run_tick :: "'r publishing \<Rightarrow> 'r publishing" where
  \<comment> \<open>the goroutines start in any order, so the order of the loop over the cache does not matter\<close>
  "run_tick p =
     p\<lparr>pr_publisher := pruneCache (pr_publisher p), pr_spawned := up_cache (pr_publisher p) @ pr_spawned p\<rparr>"

definition run_queue :: "nat \<Rightarrow> 'r publishing \<Rightarrow> 'r publishing" where
  "run_queue i p =
     (let (name, us) = pr_spawned p ! i; q = pr_publisher p
      in p\<lparr>pr_publisher := q\<lparr>up_toPublishStates := gput name us (up_toPublishStates q)\<rparr>,
           pr_spawned := drop_nth i (pr_spawned p),
           pr_sending := name # pr_sending p\<rparr>)"

definition run_grab :: "nat \<Rightarrow> 'r publishing \<Rightarrow> 'r publishing" where
  "run_grab i p =
     (let name = pr_sending p ! i; q = pr_publisher p;
          p1 = p\<lparr>pr_sending := drop_nth i (pr_sending p)\<rparr>
      in case map_of (up_toPublishStates q) name of
           None \<Rightarrow> p1
         | Some us \<Rightarrow> p1\<lparr>pr_publisher := q\<lparr>up_toPublishStates := gdel name (up_toPublishStates q)\<rparr>,
                         pr_holding := (name, us) # pr_holding p\<rparr>)"

definition run_publish :: "'r Registry \<Rightarrow> Duration \<Rightarrow> nat \<Rightarrow> 'r publishing \<Rightarrow> 'r publishing" where
  "run_publish reg ttl i p =
     (let (name, us) = pr_holding p ! i
      in p\<lparr>pr_holding := drop_nth i (pr_holding p),
           pr_registry := newPublisher reg ttl name us (pr_registry p)\<rparr>)"

text \<open>The steps that only work off what is under way, and all steps.\<close>

inductive drain_step :: "'r Registry \<Rightarrow> Duration \<Rightarrow> 'r publishing \<Rightarrow> 'r publishing \<Rightarrow> bool" for reg ttl where
  queue: "i < length (pr_spawned p) \<Longrightarrow> drain_step reg ttl p (run_queue i p)"
| grab: "i < length (pr_sending p) \<Longrightarrow> length (pr_holding p) < numPublishers \<Longrightarrow> drain_step reg ttl p (run_grab i p)"
| publish: "i < length (pr_holding p) \<Longrightarrow> drain_step reg ttl p (run_publish reg ttl i p)"

inductive publish_step :: "'r Registry \<Rightarrow> Duration \<Rightarrow> string \<Rightarrow> 'r publishing \<Rightarrow> 'r publishing \<Rightarrow> bool" for reg ttl machID where
  heartbeat: "publish_step reg ttl machID p (run_beat machID bt p)"
| tick: "publish_step reg ttl machID p (run_tick p)"
| drain: "drain_step reg ttl p p' \<Longrightarrow> publish_step reg ttl machID p p'"

definition publisher_start :: "'r \<Rightarrow> 'r publishing" where
  "publisher_start r = \<lparr>pr_publisher = NewUnitStatePublisher, pr_spawned = [], pr_sending = [], pr_holding = [], pr_registry = r\<rparr>"

definition drained :: "'r publishing \<Rightarrow> bool" where
  "drained p \<longleftrightarrow> pr_spawned p = [] \<and> pr_sending p = [] \<and> pr_holding p = []"

section \<open>Invariant\<close>

text \<open>
  The maps are well formed, at most five states are held, a queued state has a goroutine that will
  announce it, and every state on its way carries this machine's name.
\<close>

definition own_state :: "string \<Rightarrow> UnitState option \<Rightarrow> bool" where
  "own_state machID us \<longleftrightarrow> (\<forall>s. us = Some s \<longrightarrow> us_MachineID s = machID)"

definition publishing_ok :: "string \<Rightarrow> 'r publishing \<Rightarrow> bool" where
  "publishing_ok machID p \<longleftrightarrow>
     gmap_ok (up_cache (pr_publisher p)) \<and> gmap_ok (up_toPublishStates (pr_publisher p)) \<and>
     length (pr_holding p) \<le> numPublishers \<and>
     set (gkeys (up_toPublishStates (pr_publisher p))) \<subseteq> set (pr_sending p) \<and>
     (\<forall>(n, us) \<in> set (up_cache (pr_publisher p)) \<union> set (up_toPublishStates (pr_publisher p)) \<union>
        set (pr_spawned p) \<union> set (pr_holding p). own_state machID us)"

lemma mset_drop_nth: "i < length xs \<Longrightarrow> mset xs = add_mset (xs ! i) (mset (drop_nth i xs))"
  by (metis drop_nth_def id_take_nth_drop mset.simps(2) mset_append union_mset_add_mset_right)

lemma set_drop_nth: "i < length xs \<Longrightarrow> set xs = insert (xs ! i) (set (drop_nth i xs))"
  by (metis mset_drop_nth set_mset_add_mset_insert set_mset_mset)

lemma length_drop_nth [simp]: "i < length xs \<Longrightarrow> length (drop_nth i xs) = length xs - 1"
  by (simp add: drop_nth_def)

lemma drop_nth_in: "x \<in> set (drop_nth i xs) \<Longrightarrow> x \<in> set xs"
  by (auto simp: drop_nth_def dest: in_set_takeD in_set_dropD)

lemma gput_in: "(a, b) \<in> set (gput k v m) \<Longrightarrow> a = k \<and> b = v \<or> (a, b) \<in> set m"
  unfolding gput_def by (induction m) (auto split: if_splits)

lemma gdel_in: "x \<in> set (gdel k m) \<Longrightarrow> x \<in> set m"
  by (auto simp: gdel_def AList.delete_eq)

lemma publishing_ok_start: "publishing_ok machID (publisher_start r)"
  by (simp add: publishing_ok_def publisher_start_def NewUnitStatePublisher_def numPublishers_def)

lemma own_state_Some [simp]: "own_state machID (map_option (\<lambda>s. s\<lparr>us_MachineID := machID\<rparr>) us)"
  by (auto simp: own_state_def)

lemma publishing_ok_beat:
  assumes "publishing_ok machID p"
  shows "publishing_ok machID (run_beat machID bt p)"
  using assms by (auto simp: publishing_ok_def run_beat_def updateCache_def Let_def dest!: gput_in)

lemma publishing_ok_tick:
  assumes "publishing_ok machID p"
  shows "publishing_ok machID (run_tick p)"
  using assms by (auto simp: publishing_ok_def run_tick_def pruneCache_def gmap_ok_def distinct_map_filter)

lemma publishing_ok_queue:
  assumes "publishing_ok machID p" "i < length (pr_spawned p)"
  shows "publishing_ok machID (run_queue i p)"
proof -
  obtain name us where x: "pr_spawned p ! i = (name, us)" by fastforce
  then have "(name, us) \<in> set (pr_spawned p)" using assms(2) nth_mem by metis
  then show ?thesis
    using assms(1) by (auto simp: publishing_ok_def run_queue_def x Let_def dest!: gput_in drop_nth_in)
qed

lemma publishing_ok_grab:
  assumes "publishing_ok machID p" "i < length (pr_sending p)" "length (pr_holding p) < numPublishers"
  shows "publishing_ok machID (run_grab i p)"
proof (cases "map_of (up_toPublishStates (pr_publisher p)) (pr_sending p ! i)")
  case None
  then show ?thesis
    using assms set_drop_nth[OF assms(2)] by (auto simp: publishing_ok_def run_grab_def Let_def)
next
  case (Some us)
  then have "(pr_sending p ! i, us) \<in> set (up_toPublishStates (pr_publisher p))" by (rule map_of_SomeD)
  then show ?thesis
    using assms Some set_drop_nth[OF assms(2)] by (auto simp: publishing_ok_def run_grab_def Let_def dest!: gdel_in)
qed

lemma publishing_ok_publish:
  assumes "publishing_ok machID p"
  shows "publishing_ok machID (run_publish reg ttl i p)"
proof -
  obtain name us where x: "pr_holding p ! i = (name, us)" by fastforce
  have "length (drop_nth i (pr_holding p)) \<le> length (pr_holding p)" by (simp add: drop_nth_def)
  then show ?thesis
    using assms by (auto simp: publishing_ok_def run_publish_def x dest!: drop_nth_in)
qed

lemma publishing_ok_drain: "drain_step reg ttl p p' \<Longrightarrow> publishing_ok machID p \<Longrightarrow> publishing_ok machID p'"
  by (induction rule: drain_step.induct) (auto intro: publishing_ok_queue publishing_ok_grab publishing_ok_publish)

lemma publishing_ok_step: "publish_step reg ttl machID p p' \<Longrightarrow> publishing_ok machID p \<Longrightarrow> publishing_ok machID p'"
  by (induction rule: publish_step.induct) (auto intro: publishing_ok_beat publishing_ok_tick publishing_ok_drain)

lemma publishing_ok_reach:
  "(publish_step reg ttl machID)\<^sup>*\<^sup>* (publisher_start r) p \<Longrightarrow> publishing_ok machID p"
  by (induction rule: rtranclp_induct) (auto intro: publishing_ok_start publishing_ok_step)

text \<open>So when nothing is under way, no state waits to be published.\<close>

lemma drained_nothing_queued:
  assumes "publishing_ok machID p" "drained p"
  shows "up_toPublishStates (pr_publisher p) = []"
  using assms by (cases "up_toPublishStates (pr_publisher p)") (auto simp: publishing_ok_def drained_def gkeys_def)

section \<open>Draining ends\<close>

definition under_way :: "'r publishing \<Rightarrow> nat" where
  "under_way p = 3 * length (pr_spawned p) + 2 * length (pr_sending p) + length (pr_holding p)"

lemma drain_step_less: "drain_step reg ttl p p' \<Longrightarrow> under_way p' < under_way p"
proof (induction rule: drain_step.induct)
  case (queue i p)
  then show ?case by (cases "pr_spawned p ! i") (simp add: under_way_def run_queue_def Let_def)
next
  case (grab i p)
  then obtain n where "length (pr_sending p) = Suc n" by (cases "pr_sending p") auto
  with grab show ?case by (simp add: under_way_def run_grab_def Let_def split: option.split)
next
  case (publish i p)
  then show ?case by (cases "pr_holding p ! i") (simp add: under_way_def run_publish_def)
qed

lemma drain_step_enabled: "\<not> drained p \<Longrightarrow> \<exists>p'. drain_step reg ttl p p'"
  unfolding drained_def numPublishers_def
  by (metis drain_step.intros length_greater_0_conv list.size(3) numPublishers_def zero_less_numeral)

lemma drain_ends: "\<exists>p'. (drain_step reg ttl)\<^sup>*\<^sup>* p p' \<and> drained p'"
proof (induction "under_way p" arbitrary: p rule: less_induct)
  case less
  show ?case
  proof (cases "drained p")
    case False
    then obtain q where q: "drain_step reg ttl p q" using drain_step_enabled by blast
    then show ?thesis using less[OF drain_step_less[OF q]] by (meson converse_rtranclp_into_rtranclp)
  qed blast
qed

section \<open>What a tick publishes\<close>

text \<open>
  After a tick with nothing else under way: what was published, is held, queued or spawned makes up
  the cache at the tick, and each queued state is announced once.
\<close>

abbreviation publish_all :: "'r Registry \<Rightarrow> Duration \<Rightarrow> (string \<times> UnitState option) list \<Rightarrow> 'r \<Rightarrow> 'r" where
  "publish_all reg ttl order r \<equiv> fold (\<lambda>(name, us). newPublisher reg ttl name us) order r"

definition accounted :: "'r Registry \<Rightarrow> Duration \<Rightarrow> (string, UnitState option) gmap \<Rightarrow> 'r \<Rightarrow> 'r publishing \<Rightarrow> bool" where
  "accounted reg ttl entries r p \<longleftrightarrow>
     gmap_ok (up_toPublishStates (pr_publisher p)) \<and>
     mset (pr_sending p) = mset (gkeys (up_toPublishStates (pr_publisher p))) \<and>
     (\<exists>order. mset order + mset (pr_holding p) + mset (up_toPublishStates (pr_publisher p)) + mset (pr_spawned p) = mset entries \<and>
        pr_registry p = publish_all reg ttl order r)"

lemma mset_gput_fresh: "map_of m k = None \<Longrightarrow> mset (gput k v m) = add_mset (k, v) (mset m)"
  unfolding gput_def by (induction m) (auto split: if_splits)

lemma mset_gdel: "gmap_ok m \<Longrightarrow> map_of m k = Some v \<Longrightarrow> mset m = add_mset (k, v) (mset (gdel k m))"
proof (induction m)
  case (Cons x m)
  show ?case
  proof (cases "fst x = k")
    case True
    then have "k \<notin> fst ` set m" using Cons.prems(1) by (auto simp: gmap_ok_def)
    then have "gdel k m = m" by (force simp: gdel_def AList.delete_eq filter_id_conv)
    then show ?thesis using True Cons.prems(2) by (cases x) (simp add: gdel_def)
  next
    case False
    then show ?thesis using Cons by (cases x) (auto simp: gdel_def)
  qed
qed simp

lemma accounted_tick:
  assumes "publishing_ok machID p" "drained p"
  shows "accounted reg ttl (up_cache (pr_publisher p)) (pr_registry p) (run_tick p)"
  using assms drained_nothing_queued[OF assms]
  by (auto simp: accounted_def run_tick_def pruneCache_def drained_def gkeys_def intro!: exI[of _ "[]"])

lemma accounted_queue:
  assumes "accounted reg ttl entries r p" "gmap_ok entries" "i < length (pr_spawned p)"
  shows "accounted reg ttl entries r (run_queue i p)"
proof -
  obtain name us where x: "pr_spawned p ! i = (name, us)" by fastforce
  let ?m = "up_toPublishStates (pr_publisher p)"
  obtain order where o: "mset order + mset (pr_holding p) + mset ?m + mset (pr_spawned p) = mset entries"
    "pr_registry p = publish_all reg ttl order r" using assms(1) by (auto simp: accounted_def)
  have sp: "mset (pr_spawned p) = add_mset (name, us) (mset (drop_nth i (pr_spawned p)))"
    using mset_drop_nth[OF assms(3)] x by simp
  have "distinct (map fst (order @ pr_holding p @ ?m @ (name, us) # drop_nth i (pr_spawned p)))"
    (is "distinct (map fst ?xs)")
  proof -
    have "mset ?xs = mset entries" using o(1) sp by (simp add: ac_simps)
    then have "mset (map fst ?xs) = mset (map fst entries)" by (metis mset_map)
    then show ?thesis using assms(2) by (metis gmap_ok_def mset_eq_imp_distinct_iff)
  qed
  then have fresh: "map_of ?m name = None" by (auto simp: map_of_eq_None_iff)
  have keys: "mset (gkeys (gput name us ?m)) = add_mset name (mset (gkeys ?m))"
    using mset_gput_fresh[OF fresh, of us] by (simp add: gkeys_def)
  show ?thesis
    using assms(1) o sp keys mset_gput_fresh[OF fresh, of us]
    by (auto simp: accounted_def run_queue_def x Let_def intro!: exI[of _ order])
qed

lemma accounted_grab:
  assumes "accounted reg ttl entries r p" "i < length (pr_sending p)"
  shows "accounted reg ttl entries r (run_grab i p)"
proof -
  let ?m = "up_toPublishStates (pr_publisher p)" and ?n = "pr_sending p ! i"
  have ok: "gmap_ok ?m" "mset (pr_sending p) = mset (gkeys ?m)" using assms(1) by (auto simp: accounted_def)
  have "?n \<in> set (gkeys ?m)" using ok(2) assms(2) by (metis nth_mem set_mset_mset)
  then obtain us where us: "map_of ?m ?n = Some us" by auto
  note del = mset_gdel[OF ok(1) us]
  have "mset (gkeys ?m) = add_mset ?n (mset (gkeys (gdel ?n ?m)))"
    using del by (simp add: gkeys_def)
  then have keys: "mset (drop_nth i (pr_sending p)) = mset (gkeys (gdel ?n ?m))"
    using ok(2) mset_drop_nth[OF assms(2)] by simp
  show ?thesis
    using assms(1) us del keys by (auto simp: accounted_def run_grab_def Let_def)
qed

lemma accounted_publish:
  assumes "accounted reg ttl entries r p" "i < length (pr_holding p)"
  shows "accounted reg ttl entries r (run_publish reg ttl i p)"
proof -
  obtain name us where x: "pr_holding p ! i = (name, us)" by fastforce
  obtain order where o: "mset order + mset (pr_holding p) + mset (up_toPublishStates (pr_publisher p)) + mset (pr_spawned p) = mset entries"
    "pr_registry p = publish_all reg ttl order r" using assms(1) by (auto simp: accounted_def)
  have "mset (pr_holding p) = add_mset (name, us) (mset (drop_nth i (pr_holding p)))"
    using mset_drop_nth[OF assms(2)] x by simp
  with o assms(1) show ?thesis
    by (auto simp: accounted_def run_publish_def x intro!: exI[of _ "order @ [(name, us)]"])
qed

lemma accounted_drain:
  "drain_step reg ttl p p' \<Longrightarrow> gmap_ok entries \<Longrightarrow> accounted reg ttl entries r p \<Longrightarrow> accounted reg ttl entries r p'"
  by (induction rule: drain_step.induct) (auto intro: accounted_queue accounted_grab accounted_publish)

lemma accounted_drains:
  "(drain_step reg ttl)\<^sup>*\<^sup>* p p' \<Longrightarrow> gmap_ok entries \<Longrightarrow> accounted reg ttl entries r p \<Longrightarrow> accounted reg ttl entries r p'"
  by (induction rule: rtranclp_induct) (auto intro: accounted_drain)

lemma accounted_drained:
  assumes "accounted reg ttl entries r p" "drained p"
  shows "\<exists>order. mset order = mset entries \<and> pr_registry p = publish_all reg ttl order r"
proof -
  have "up_toPublishStates (pr_publisher p) = []" using assms by (auto simp: accounted_def drained_def gkeys_def)
  with assms show ?thesis by (auto simp: accounted_def drained_def)
qed

end
