(* ===== verification/Props_Rpc.thy ===== *)
theory Props_Rpc
  imports Rpc_Laws Agent_Publisher Fleet_Examples
begin

text \<open>
  The properties of the gRPC registry and of the publisher of unit states, with their witnesses.
\<close>

section \<open>The service and the registry behind it\<close>


definition ex_pb :: pbUnit where
  "ex_pb = \<lparr>pbu_Name = ''web.service'', pbu_Unit = \<lparr>pbf_UnitOptions = []\<rparr>, pbu_DesiredState = TargetState_LAUNCHED\<rparr>"


definition ex_fake :: "FakeRegistry Registry" where
  "ex_fake = fake_registry keep_order"

definition ex_server :: rpcserver where
  "ex_server = \<lparr>rs_localRegistry = newInmemoryRegistry, rs_serverStatus = NOT_SERVING, rs_hasNonGRPCAgents = False\<rparr>"



section \<open>A machine that falls silent\<close>

text \<open>
  C38. The service never forgets that a unit is launched: once it reports a unit launched on a machine,
  it does so after any calls that are not about the unit, however much time passes. The state of the
  unit on that machine is listed before its deadline and not from then on, so the two answers
  contradict each other after a machine has died.
\<close>

theorem silent_unit_stays_launched:
  assumes "rs_GetScheduledUnit n s = Some su" "pbs_CurrentState su = TargetState_LAUNCHED"
    and "im_states_ok (rs_localRegistry s)" "\<forall>c\<in>set calls. silent n c"
    and "s' = fst (fold (rs_call reg) calls (s, r))"
  shows "rs_GetScheduledUnit n s' = Some su \<and>
    (\<exists>b. gget2 (im_unitStates (rs_localRegistry s)) n (pbs_MachineID su) = Some b \<and>
       (\<forall>now. (n, pbs_MachineID su) \<in> set (gkeys (im_statesByMUSKey now (rs_localRegistry s'))) \<longleftrightarrow> now < ib_deadline b))"
proof -
  have about: "im_about n (rs_localRegistry s') = im_about n (rs_localRegistry s)"
    using silent_calls[OF assms(4), of reg "(s, r)"] assms(5) by simp
  have ok: "im_states_ok (rs_localRegistry s')" using im_states_ok_calls[of "(s, r)" reg calls] assms(3,5) by simp
  have "rs_GetScheduledUnit n s' = Some su"
    using im_ScheduledUnit_about[OF about] assms(1) by (simp add: rs_GetScheduledUnit_def)
  moreover obtain b where b: "gget2 (im_unitStates (rs_localRegistry s)) n (pbs_MachineID su) = Some b"
    using assms(1,2)
    by (auto simp: rs_GetScheduledUnit_def im_ScheduledUnit_def im_getScheduledUnitState_def im_isUnitLoaded_def
        TargetState_defs split: option.splits if_splits)
  moreover have "gget2 (im_unitStates (rs_localRegistry s')) n (pbs_MachineID su) = Some b"
    using about b by (simp add: gget2_def im_about_def)
  ultimately show ?thesis using im_statesByMUSKey_keys[OF ok] by auto
qed

text \<open>The calls of an agent that loads and launches a unit it is scheduled to, at second 1, for 30 seconds.\<close>

definition ex_launch :: "rpc_call list" where
  "ex_launch = [CallScheduleUnit ''web.service'' ''m1'',
     CallSaveUnitState 1000000000 ''web.service'' (zero_pbUnitState\<lparr>pbt_Name := ''web.service'', pbt_MachineID := ''m1''\<rparr>) 30,
     CallUnitHeartbeat 1000000000 ''web.service'' ''m1'' 30]"

definition ex_memory :: inmemoryRegistry where
  "ex_memory = \<lparr>im_unitsCache = [(''web.service'', ex_pb)],
     im_scheduledUnits = [(''web.service'', \<lparr>pbs_Name = ''web.service'', pbs_CurrentState = TargetState_INACTIVE, pbs_MachineID = ''m1''\<rparr>)],
     im_unitHeartbeats = [(''web.service'', [(''m1'', 31000000000)])],
     im_unitStates = [(''web.service'', [(''m1'', \<lparr>ib_deadline = 31000000000,
       ib_state = zero_pbUnitState\<lparr>pbt_Name := ''web.service'', pbt_MachineID := ''m1''\<rparr>\<rparr>)])]\<rparr>"

lemma ex_launch_local:
  "rs_localRegistry (fst (fold (rs_call ex_fake) (CallCreateUnit ex_pb # ex_launch) (ex_server, NewFakeRegistry))) = ex_memory"
  by (simp add: ex_launch_def ex_memory_def ex_pb_def ex_server_def ex_fake_def fake_registry_def NewFakeRegistry_def
      newInmemoryRegistry_def rs_ops im_ops fr_CreateUnit_def fr_ScheduleUnit_def unsafeSetUnitTargetState_def gmem_def
      gput_def gput2_def ttl_seconds_def Time_Add_def rpcUnitToJobUnit_def)

theorem silent_unit_stays_launched_witness:
  "let s = ex_server\<lparr>rs_localRegistry := ex_memory\<rparr>;
       s' = fst (fold (rs_call ex_fake) [CallUnitHeartbeat 40000000000 ''db.service'' ''m2'' 30] (s, NewFakeRegistry))
   in map_option pbs_CurrentState (rs_GetScheduledUnit ''web.service'' s') = Some TargetState_LAUNCHED \<and>
      (''web.service'', ''m1'') \<notin> set (gkeys (im_statesByMUSKey 50000000000 (rs_localRegistry s')))"
proof -
  define s where "s = ex_server\<lparr>rs_localRegistry := ex_memory\<rparr>"
  define su where "su = \<lparr>pbs_Name = ''web.service'', pbs_CurrentState = TargetState_LAUNCHED, pbs_MachineID = ''m1''\<rparr>"
  define s' where "s' = fst (fold (rs_call ex_fake) [CallUnitHeartbeat 40000000000 ''db.service'' ''m2'' 30] (s, NewFakeRegistry))"
  have su: "rs_GetScheduledUnit ''web.service'' s = Some su" "pbs_CurrentState su = TargetState_LAUNCHED"
    by (simp_all add: s_def su_def ex_memory_def rs_GetScheduledUnit_def im_ScheduledUnit_def im_getScheduledUnitState_def
        im_isUnitLoaded_def im_isUnitLaunched_def gget2_def)
  have ok: "im_states_ok (rs_localRegistry s)"
    by (simp add: s_def ex_memory_def im_states_ok_def maps_ok_def gmap_ok_def)
  have silent: "\<forall>c\<in>set [CallUnitHeartbeat 40000000000 ''db.service'' ''m2'' 30]. silent ''web.service'' c" by simp
  have b: "gget2 (im_unitStates (rs_localRegistry s)) ''web.service'' (pbs_MachineID su) = Some b \<Longrightarrow> ib_deadline b = 31000000000" for b
    by (auto simp: s_def su_def ex_memory_def gget2_def)
  from silent_unit_stays_launched[OF su ok silent s'_def] b show ?thesis
    unfolding Let_def s_def[symmetric] s'_def[symmetric] by (fastforce simp: su_def simp del: set_gkeys)
qed

section \<open>The publisher of unit states\<close>

text \<open>
  C10. Once nothing is under way, a tick makes the publisher publish every state of its cache exactly
  once and nothing else, whatever order its goroutines run in; every order of their steps comes to
  an end, and the states are of this machine.
\<close>

theorem tick_publishes_cache:
  assumes "(publish_step reg ttl machID)\<^sup>*\<^sup>* (publisher_start r) p" "drained p"
  shows "(\<exists>p'. (drain_step reg ttl)\<^sup>*\<^sup>* (run_tick p) p' \<and> drained p') \<and> wfP (drain_step reg ttl)\<inverse>\<inverse> \<and>
    (\<forall>(n, us) \<in> set (up_cache (pr_publisher p)). own_state machID us) \<and>
    (\<forall>p'. (drain_step reg ttl)\<^sup>*\<^sup>* (run_tick p) p' \<and> drained p' \<longrightarrow>
       (\<exists>order. mset order = mset (up_cache (pr_publisher p)) \<and>
          pr_registry p' = fold (\<lambda>(name, us). newPublisher reg ttl name us) order (pr_registry p)))"
proof -
  note ok = publishing_ok_reach[OF assms(1)]
  have "gmap_ok (up_cache (pr_publisher p))" "\<forall>(n, us) \<in> set (up_cache (pr_publisher p)). own_state machID us"
    using ok by (auto simp: publishing_ok_def)
  moreover have "wfP (drain_step reg ttl)\<inverse>\<inverse>"
    by (rule wfp_subset[OF wfp_if_convertible_to_nat[of _ under_way]]) (auto intro: drain_step_less)
  ultimately show ?thesis
    using drain_ends[of reg ttl "run_tick p"] accounted_drained[OF accounted_drains[OF _ _ accounted_tick[OF ok assms(2)]]] by blast
qed

definition ex_running :: "string \<Rightarrow> UnitState" where
  "ex_running sub = \<lparr>us_LoadState = ''loaded'', us_ActiveState = ''active'', us_SubState = sub, us_MachineID = [],
     us_UnitHash = ''ab'', us_UnitName = ''web.service''\<rparr>"

definition ex_beat :: "string \<Rightarrow> UnitStateHeartbeat" where
  "ex_beat sub = \<lparr>ush_Name = ''web.service'', ush_State = Some (ex_running sub)\<rparr>"

lemmas publisher_run = run_beat_def run_queue_def run_grab_def run_publish_def publisher_start_def NewUnitStatePublisher_def
  updateCache_def drop_nth_def gput_def gdel_def

text \<open>The publisher with a cache and goroutines that have not run yet, and one of them run to its end.\<close>

definition spawned_only :: "(string, UnitState option) gmap \<Rightarrow> (string \<times> UnitState option) list \<Rightarrow> 'r \<Rightarrow> 'r publishing" where
  "spawned_only cache spawned r =
     \<lparr>pr_publisher = \<lparr>up_cache = cache, up_toPublishStates = []\<rparr>, pr_spawned = spawned, pr_sending = [], pr_holding = [], pr_registry = r\<rparr>"

lemma publish_one:
  "(publish_step reg ttl machID)\<^sup>*\<^sup>* (spawned_only c ((n, us) # others) r) (spawned_only c others (newPublisher reg ttl n us r))"
proof -
  define p where "p = spawned_only c ((n, us) # others) r"
  have "spawned_only c others (newPublisher reg ttl n us r) = run_publish reg ttl 0 (run_grab 0 (run_queue 0 p))"
    by (simp add: publisher_run p_def spawned_only_def)
  moreover have "publish_step reg ttl machID p (run_queue 0 p)"
    by (intro publish_step.drain drain_step.queue) (simp add: p_def spawned_only_def)
  moreover have "publish_step reg ttl machID (run_queue 0 p) (run_grab 0 (run_queue 0 p))"
    by (intro publish_step.drain drain_step.grab) (simp_all add: publisher_run numPublishers_def p_def spawned_only_def)
  moreover have "publish_step reg ttl machID (run_grab 0 (run_queue 0 p)) (run_publish reg ttl 0 (run_grab 0 (run_queue 0 p)))"
    by (intro publish_step.drain drain_step.publish) (simp add: publisher_run p_def spawned_only_def)
  ultimately show ?thesis unfolding p_def[symmetric] by (simp only:)
qed

lemma beat_spawns:
  "map_of c n \<noteq> Some (Some (st\<lparr>us_MachineID := machID\<rparr>)) \<Longrightarrow>
     publish_step reg ttl machID (spawned_only c spawned r)
       (spawned_only (gput n (Some (st\<lparr>us_MachineID := machID\<rparr>)) c) ((n, Some (st\<lparr>us_MachineID := machID\<rparr>)) # spawned) r)"
  using publish_step.heartbeat[of reg ttl machID "spawned_only c spawned r" "\<lparr>ush_Name = n, ush_State = Some st\<rparr>"]
  by (simp add: spawned_only_def run_beat_def updateCache_def)

lemma publisher_start_spawned: "publisher_start r = spawned_only [] [] r"
  by (simp add: publisher_start_def spawned_only_def NewUnitStatePublisher_def)

lemma drained_spawned_only [simp]: "drained (spawned_only c [] r)"
  by (simp add: drained_def spawned_only_def)

theorem tick_publishes_cache_witness:
  "let us = Some (ex_running ''start''\<lparr>us_MachineID := ''m1''\<rparr>);
       p = spawned_only [(''web.service'', us)] [] (newPublisher ex_fake 30 ''web.service'' us NewFakeRegistry)
   in \<exists>p'. (drain_step ex_fake 30)\<^sup>*\<^sup>* (run_tick p) p' \<and> drained p' \<and>
        pr_registry p' = newPublisher ex_fake 30 ''web.service'' us (pr_registry p)"
proof -
  define us where "us = Some (ex_running ''start''\<lparr>us_MachineID := ''m1''\<rparr>)"
  define p where "p = spawned_only [(''web.service'', us)] [] (newPublisher ex_fake 30 ''web.service'' us NewFakeRegistry)"
  have c: "up_cache (pr_publisher p) = [(''web.service'', us)]" by (simp add: p_def spawned_only_def)
  have "publish_step ex_fake 30 ''m1'' (spawned_only [] [] NewFakeRegistry) (spawned_only [(''web.service'', us)] [(''web.service'', us)] NewFakeRegistry)"
    using beat_spawns[of "[]" "''web.service''"] by (simp add: us_def gput_def)
  then have reach: "(publish_step ex_fake 30 ''m1'')\<^sup>*\<^sup>* (publisher_start NewFakeRegistry) p"
    unfolding publisher_start_spawned p_def by (rule converse_rtranclp_into_rtranclp[OF _ publish_one])
  have "drained p" by (simp add: p_def)
  from tick_publishes_cache[OF reach this] obtain p' order where
    "(drain_step ex_fake 30)\<^sup>*\<^sup>* (run_tick p) p'" "drained p'" "mset order = mset [(''web.service'', us)]"
    "pr_registry p' = fold (\<lambda>(name, us). newPublisher ex_fake 30 name us) order (pr_registry p)"
    unfolding c by blast
  moreover from this(3) have "order = [(''web.service'', us)]" by simp
  ultimately show ?thesis unfolding Let_def us_def[symmetric] p_def[symmetric] by auto
qed

text \<open>
  C39. The goroutines that queue states may overtake each other: after two heartbeats of a unit with
  different states the publisher can come to rest having published the older state last, while its
  cache has the newer one.
\<close>

theorem older_state_published_last:
  assumes "a\<lparr>us_MachineID := machID\<rparr> \<noteq> b\<lparr>us_MachineID := machID\<rparr>"
  shows "\<exists>p. (publish_step reg ttl machID)\<^sup>*\<^sup>*
      (run_beat machID \<lparr>ush_Name = n, ush_State = Some b\<rparr> (run_beat machID \<lparr>ush_Name = n, ush_State = Some a\<rparr> (publisher_start r))) p \<and>
    drained p \<and> up_cache (pr_publisher p) = [(n, Some (b\<lparr>us_MachineID := machID\<rparr>))] \<and>
    pr_registry p = newPublisher reg ttl n (Some (a\<lparr>us_MachineID := machID\<rparr>))
      (newPublisher reg ttl n (Some (b\<lparr>us_MachineID := machID\<rparr>)) r)"
proof -
  let ?a = "Some (a\<lparr>us_MachineID := machID\<rparr>)" and ?b = "Some (b\<lparr>us_MachineID := machID\<rparr>)"
  have two: "run_beat machID \<lparr>ush_Name = n, ush_State = Some b\<rparr> (run_beat machID \<lparr>ush_Name = n, ush_State = Some a\<rparr> (publisher_start r)) =
      spawned_only [(n, ?b)] [(n, ?b), (n, ?a)] r"
    using assms by (simp add: publisher_run spawned_only_def)
  have "(publish_step reg ttl machID)\<^sup>*\<^sup>* (spawned_only [(n, ?b)] [(n, ?b), (n, ?a)] r)
      (spawned_only [(n, ?b)] [] (newPublisher reg ttl n ?a (newPublisher reg ttl n ?b r)))"
    by (rule rtranclp_trans[OF publish_one publish_one])
  then show ?thesis unfolding two
    by (intro exI[of _ "spawned_only [(n, ?b)] [] (newPublisher reg ttl n ?a (newPublisher reg ttl n ?b r))"])
      (simp add: spawned_only_def drained_def)
qed

theorem older_state_published_last_witness:
  "\<exists>p :: FakeRegistry publishing. drained p \<and> map_of (up_cache (pr_publisher p)) ''web.service'' = Some (Some (ex_running ''running''\<lparr>us_MachineID := ''m1''\<rparr>)) \<and>
     gget2 (fr_jobStates (pr_registry p)) ''web.service'' ''m1'' = Some (ex_running ''start''\<lparr>us_MachineID := ''m1''\<rparr>)"
proof -
  have "ex_running ''start''\<lparr>us_MachineID := ''m1''\<rparr> \<noteq> ex_running ''running''\<lparr>us_MachineID := ''m1''\<rparr>" by (simp add: ex_running_def)
  from older_state_published_last[OF this, of ex_fake 30 "''web.service''" NewFakeRegistry] obtain p where
    "drained p" "up_cache (pr_publisher p) = [(''web.service'', Some (ex_running ''running''\<lparr>us_MachineID := ''m1''\<rparr>))]"
    "pr_registry p = newPublisher ex_fake 30 ''web.service'' (Some (ex_running ''start''\<lparr>us_MachineID := ''m1''\<rparr>))
      (newPublisher ex_fake 30 ''web.service'' (Some (ex_running ''running''\<lparr>us_MachineID := ''m1''\<rparr>)) NewFakeRegistry)"
    by blast
  then show ?thesis
    by - (rule exI[of _ p], simp add: newPublisher_def ex_running_def ex_fake_def fake_registry_def fr_SaveUnitState_def
        put_unit_state_def NewFakeRegistry_def gget2_def gput_def)
qed

section \<open>Following the leader\<close>

text \<open>
  C40. An agent without an engine that has been connected to a leader over gRPC and has then followed a
  leader that uses etcd never follows a leader over gRPC again: closing the connection replaced the
  channel that its readiness check waits on, and nothing closes the new one, so the round blocks.
\<close>

theorem grpc_after_etcd_blocks:
  assumes "ConnectToRegistry_round cl c1 (Inr True) dialled1 r = Done r1"
    and "ConnectToRegistry_round cl c2 (Inr False) dialled2 r1 = Done r2"
  shows "getRegistry r2 = EtcdReg \<and> ConnectToRegistry_round cl c3 (Inr True) dialled3 r2 = Blocks"
proof -
  obtain rr b where "rm_rpcRegistry r1 = Some rr" "rr_registryConn rr" "rr_balancer rr = Some b"
    using round_connected[OF assms(1)] by blast
  note blocks = closed_blocks[OF this, of cl c3]
  have r2: "r2 = (mux_close r1)\<lparr>rm_currentRegistry := Some EtcdReg\<rparr>"
    using assms(2) by (simp add: ConnectToRegistry_round_def)
  have "mux_ready cl c3 r2 = mux_ready cl c3 (mux_close r1)" by (simp add: mux_ready_def r2)
  then show ?thesis using blocks by (simp add: ConnectToRegistry_round_def r2 getRegistry_def)
qed

definition ex_client :: "(rpcserver \<times> FakeRegistry) RegistryServiceClient" where
  "ex_client = direct_client keep_order (insertionSort MUSKeys_Less) 0 ex_fake"

theorem grpc_after_etcd_blocks_witness:
  "\<exists>r1 r2. ConnectToRegistry_round ex_client (ex_server, NewFakeRegistry) (Inr True) True NewRegistryMux = Done r1 \<and>
     ConnectToRegistry_round ex_client (ex_server, NewFakeRegistry) (Inr False) True r1 = Done r2 \<and>
     ConnectToRegistry_round ex_client (ex_server, NewFakeRegistry) (Inr True) True r2 = Blocks"
proof -
  let ?r = "NewRegistryMux"
  have 1: "ConnectToRegistry_round ex_client (ex_server, NewFakeRegistry) (Inr True) True ?r =
      Done (?r\<lparr>rm_rpcRegistry := Some (rr_Connect NewRPCRegistry), rm_currentRegistry := Some RpcReg\<rparr>)"
    by (simp add: ConnectToRegistry_round_def mux_ready_def NewRegistryMux_def mux_connect_def mux_close_def)
  have 2: "\<exists>r2. ConnectToRegistry_round ex_client (ex_server, NewFakeRegistry) (Inr False) True r1 = Done r2" for r1
    by (simp add: ConnectToRegistry_round_def)
  show ?thesis using 1 2 grpc_after_etcd_blocks[OF 1] by blast
qed





end
