(* ===== verification/Spec2Isabelle.thy ===== *)
theory Spec2Isabelle
  imports Props_Engine Props_Agent Props_Cluster Props_Registry Props_Api Props_Rpc
begin

text \<open>
  fleet schedules systemd units over a cluster of machines. This library models the program and
  proves what its parts promise each other. Sources are named relative to \<open>src/\<close>.

  \<^bold>\<open>The program.\<close> Users submit unit files over an HTTP interface (\<open>api/\<close>, \<open>schema/\<close>, \<open>client/\<close>), which
  writes them to a registry (\<open>registry/\<close>) kept in etcd. Every machine runs an engine (\<open>engine/\<close>) and an
  agent (\<open>agent/\<close>). The engine that holds the leader's lease (\<open>pkg/lease/\<close>) compares units, schedule and
  machines, and schedules or unschedules units in the registry. Each agent compares what the registry
  wants on its machine with what systemd runs (\<open>systemd/\<close>), loads, starts, stops and unloads units, and
  publishes their states. With gRPC enabled, the leader serves units and states from memory and the
  other machines reach the registry through it (\<open>registry/rpc/\<close>).

  \<^bold>\<open>Conventions.\<close> A Go structure is a record, an interface a record of functions over a state type, a map
  an association list with distinct keys, an error a value beside the new state, a panic the value
  \<open>Panics\<close>. A loop over a map takes its iteration order as a \<open>range_order\<close>, and theorems quantify over
  all valid ones; a call of \<open>sort.Sort\<close> that can see ties takes the sorting routine. Durations and
  page indices are machine words. Logging, metrics and mutexes are left out; where goroutines can
  overtake each other, their steps form a transition system.

  \<^bold>\<open>Theories.\<close>
  \<^item> \<open>Fleet_Prelude\<close>, \<open>Go_Strings\<close>, \<open>Go_Path\<close>, \<open>Go_File_Path\<close>, \<open>Go_Hash\<close>, \<open>Go_Strconv\<close>, \<open>Go_Json\<close>: maps,
    iteration orders and sorting, and the parts of Go's library the sources call. \<open>Pkg_Util\<close>:
    \<open>pkg/set.go\<close> behind the locale \<open>string_set\<close>, \<open>args.go\<close>, \<open>backoff.go\<close>, \<open>flag.go\<close>, \<open>filesystem.go\<close>.
  \<^item> \<open>Unit_File\<close>, \<open>Unit_Lexer\<close>: \<open>unit/unit.go\<close> and the vendored reader and writer of unit files;
    \<open>Job_Model\<close>: \<open>job/job.go\<close>; \<open>Machine_State\<close>: \<open>machine/\<close>.
  \<^item> \<open>Agent_State\<close>, \<open>Agent\<close>, \<open>Agent_Reconcile\<close>: \<open>agent/state.go\<close>, \<open>agent.go\<close>, \<open>cache.go\<close>, \<open>task.go\<close>,
    \<open>reconcile.go\<close>; \<open>Agent_Publisher\<close>: \<open>agent/unit_state.go\<close>, its goroutines as \<open>publish_step\<close>.
    \<open>Unit_Manager\<close>: \<open>unit/manager.go\<close>, \<open>fake.go\<close>, \<open>generator.go\<close> and the locale \<open>unit_manager\<close>, which
    \<open>Systemd_Manager\<close> (\<open>systemd/manager.go\<close>) meets for every systemd that meets \<open>systemd_dbus\<close>.
  \<^item> \<open>Engine_State\<close>, \<open>Scheduler\<close>, \<open>Engine_Reconcile\<close>, \<open>Engine_Tasks\<close>, \<open>Engine_Leader\<close>, \<open>Engine_Execute\<close>:
    \<open>engine/\<close>, with the locales \<open>scheduler\<close>, \<open>schedule_registry\<close> (what executing tasks relies on) and
    \<open>engine_world\<close> (engines that share a registry and leases, with \<open>engine_step\<close>).
  \<^item> \<open>Etcd_Client\<close>: the client of etcd as a parameter, its documented behaviour as the locale \<open>etcd\<close>, and
    a reference service \<open>local_etcd\<close> that meets it. \<open>Lease\<close>: \<open>pkg/lease\<close> and the locale
    \<open>lease_manager\<close>. \<open>Registry_Interface\<close>, \<open>Registry_Etcd\<close> and its laws \<open>Registry_Etcd_Laws\<close>,
    \<open>Registry_Etcd_Units\<close>, \<open>Registry_Etcd_Machines\<close>: \<open>registry/\<close>; \<open>Fake_Registry\<close>: \<open>registry/fake.go\<close>
    and the locale \<open>unit_registry\<close>.
  \<^item> \<open>Rpc_Messages\<close>, \<open>Rpc_Inmemory\<close>, \<open>Rpc_Server\<close>, \<open>Rpc_Client\<close>, \<open>Rpc_Mux\<close>: the messages and their
    conversions, and \<open>registry/rpc/\<close> file by file. \<open>Rpc_Laws\<close>: the locale \<open>rpc_backend\<close>, the contract of
    the registry behind the service, met by the registry of \<open>registry/fake.go\<close>. The registry in etcd
    meets it only for names that etcd lists and while no request half succeeds, so it is not an
    instance.
  \<^item> \<open>Schema\<close>, \<open>Api_Pages\<close>, \<open>Api_Common\<close>, \<open>Api_Units\<close>, \<open>Api_Machines\<close>, \<open>Api_Client\<close>, \<open>Api_Laws\<close>: entities
    and their mapping, pages, requests and responses, the handlers of \<open>api/\<close>, the clients of \<open>client/\<close>.
  \<^item> \<open>Fleet_Examples\<close>, \<open>Cluster_Examples\<close>, \<open>Registry_Examples\<close>: the concrete clusters and stores of the
    witnesses.

  \<^bold>\<open>What is shown.\<close>
  \<^item> \<open>Props_Cluster\<close>: at most one engine leads, over every interleaving of rounds, releases, restarts and
    expiry and for requests that fail with or without effect; a pass whose tasks are carried out
    leaves in etcd the schedule it decided on; the version of the cluster is a compare and swap; two
    defects of leadership over gRPC.
  \<^item> \<open>Props_Engine\<close>: a pass leaves only jobs with an active target on machines of the cluster, its tasks
    replay to its decision, the scheduler picks the least loaded machine that can run the job, the
    agents derived from the cluster are exact; two defects of replacing units.
  \<^item> \<open>Props_Agent\<close>: a round whose tasks succeed leaves what was wanted and the next has nothing to do,
    the desired state is exact and free of conflicts, purging ends, heartbeats precede expiry.
  \<^item> \<open>Props_Registry\<close>: units, unit states, machine states and unit files are read back as written; every
    sequence of calls keeps the store well formed and the leases with their holders.
  \<^item> \<open>Props_Rpc\<close>: the service mirrors the registry behind it; a tick publishes the whole cache once in
    every order of the goroutines; a change of the leader is followed; and three defects: units of
    dead machines stay launched, an older state may be published last, a closed connection blocks.
  \<^item> \<open>Props_Api\<close>: a stored unit is given back, requests keep the registry's invariant, page by page
    listing ends with everything; and the requests that are not handled as meant.

  \<^bold>\<open>Bounds and termination.\<close> The JSON reader has the length of its text as fuel, enough for every text the
  program prints, which is read back; the lexer of unit files terminates on every input. Listing pages is a
  \<open>partial_function\<close>, since a service could name pages for ever; against the modelled service it is
  shown to return. The goroutines of the publisher have no infinite run. The seconds of a duration
  are computed without floating-point numbers, which agrees below \<open>2\<^sup>2\<^sup>3\<close> seconds. Page indices wrap
  at 16 bits, as in the source.

  \<^bold>\<open>Not modelled.\<close> The command line client \<open>fleetctl/\<close> and \<open>ssh/\<close>: flags, terminals, sessions and polling
  around the modelled client. \<open>fleetd/\<close>, \<open>server/\<close>, \<open>heart/\<close>, \<open>config/\<close>, \<open>machine/coreos.go\<close>: start-up,
  signals, files and the identity of the machine. \<open>log/\<close>, \<open>metrics/\<close>, \<open>debug/\<close>, \<open>version/\<close>, \<open>resource/\<close>.
  \<open>pkg/reconcile.go\<close>, \<open>tls.go\<close>, \<open>http.go\<close>, \<open>filepath.go\<close>: timers, certificates, transports. The generated
  marshalling of \<open>protobuf/\<close> and the generated service of \<open>schema/\<close>, whose results are parameters; the
  diallers of \<open>registry/rpc/registrymux.go\<close> and the watch loop of \<open>registry/event.go\<close>, which wait for the
  network; the fake leases of \<open>registry/fake.go\<close>, a test double. Concurrent calls of the in-memory
  registry run one after another here.
\<close>

end
